(* ===== verification/Omni_Prelude.thy ===== *)
theory Omni_Prelude
  imports Main "HOL-Library.Word" "HOL-Library.Sublist"
begin

text \<open>
  Shared vocabulary of the development: the collections of rewrite rules the component
  theories extend, Go's error values, and the generic facts on lists, options and maps that
  several components use.
\<close>

section \<open>Collections\<close>

named_theorems go_text \<open>equations of the models of Go's string functions\<close>
named_theorems svc_defs \<open>definitions of the critical sections of the VPN service\<close>
named_theorems repo_defs \<open>definitions of the server repository's operations\<close>

section \<open>Names of the model's basic types\<close>

text \<open>
  A Go string is a sequence of bytes, and so is a HOL \<open>string\<close>. A \<open>time.Time\<close> is the
  number of nanoseconds since Go's zero time (January 1, year 1, UTC), so \<open>IsZero\<close> is the
  comparison with 0; a \<open>time.Duration\<close> is a number of nanoseconds.
\<close>

type_synonym gotime = int
type_synonym duration = int
type_synonym byte = "8 word"

abbreviation second :: duration where
  "second \<equiv> 1000000000"

section \<open>Errors\<close>

text \<open>
  A Go error is its text and the sentinel \<open>errors.Is\<close> finds in its chain. An error made
  by \<open>errors.New\<close> or by \<open>fmt.Errorf\<close> without \<open>%w\<close> of a package sentinel carries
  \<open>NoSentinel\<close>.
\<close>

datatype sentinel =
    NoSentinel
  | ErrValidation
  | ErrServerNotFound
  | ErrDisabled
  | ErrLatencyUnavailable
  | ErrUnsupportedLink
  | ErrBusy
  | ErrAlreadyRunning
  | ErrConnected
  | ErrSecretNotFound
  | ErrCorrupt
  | ErrNotExist

datatype goerror = GoError (err_is: sentinel) (err_text: string)

text \<open>\<open>fmt.Errorf("<prefix>%w", err)\<close>: the text grows, the chain keeps its sentinel.\<close>

definition wrap :: "string \<Rightarrow> goerror \<Rightarrow> goerror" where
  "wrap pre e = GoError (err_is e) (pre @ err_text e)"

lemma wrap_sel [simp]:
  "err_is (wrap pre e) = err_is e"
  "err_text (wrap pre e) = pre @ err_text e"
  by (simp_all add: wrap_def)

abbreviation plain_error :: "string \<Rightarrow> goerror" where
  "plain_error m \<equiv> GoError NoSentinel m"

text \<open>A sequence of checks, each returning early: the first error wins.\<close>

fun first_error :: "goerror option list \<Rightarrow> goerror option" where
  "first_error [] = None"
| "first_error (None # es) = first_error es"
| "first_error (Some e # es) = Some e"

lemma first_error_None: "first_error es = None \<longleftrightarrow> set es \<subseteq> {None}"
  by (induction es rule: first_error.induct) auto

lemma first_error_SomeD: "first_error es = Some e \<Longrightarrow> Some e \<in> set es"
  by (induction es rule: first_error.induct) auto

section \<open>Lists\<close>

text \<open>The last \<open>n\<close> elements, the shape of every bounded buffer of the program.\<close>

definition last_n :: "nat \<Rightarrow> 'a list \<Rightarrow> 'a list" where
  "last_n n xs = drop (length xs - n) xs"

lemma length_last_n [simp]: "length (last_n n xs) = min n (length xs)"
  by (simp add: last_n_def)

lemma last_n_all [simp]: "length xs \<le> n \<Longrightarrow> last_n n xs = xs"
  by (simp add: last_n_def)

lemma last_n_Nil [simp]: "last_n n [] = []"
  by (simp add: last_n_def)

lemma set_last_n: "set (last_n n xs) \<subseteq> set xs"
  by (simp add: last_n_def set_drop_subset)

lemma last_n_snoc: "last_n (Suc n) (xs @ [x]) = last_n n xs @ [x]"
  by (simp add: last_n_def)

lemma last_n_last_n_append: "last_n n (last_n n xs @ ys) = last_n n (xs @ ys)"
proof (cases "length xs \<le> n")
  case True
  then show ?thesis by simp
next
  case False
  let ?d = "length xs - n"
  have "last_n n xs @ ys = drop ?d (xs @ ys)"
    using False by (simp add: last_n_def)
  then show ?thesis
    using False by (simp add: last_n_def add.commute)
qed

lemma map_last_n: "map f (last_n n xs) = last_n n (map f xs)"
  by (simp add: last_n_def drop_map)

lemma list_update_other: "i \<noteq> j \<Longrightarrow> (xs[i := x]) ! j = xs ! j"
  by simp

end
