(* ===== verification/Omni_Models.thy ===== *)
theory Omni_Models
  imports Go_Text
begin

text \<open>
  The data model of the Go core (\<open>core/models\<close>): server profiles with their validation,
  connection modes and states, VPN sessions, application settings with their
  normalisation, log levels and entries, and the identifiers of profiles and sessions.
  Go's string-typed enumerations stay strings, since decoded requests can hold any text.
  Pointers are options; a nil slice and an empty slice are the empty list (the code only
  takes their length and ranges over them).
\<close>

section \<open>Protocols and transports (models/server.go)\<close>

type_synonym Protocol = string

abbreviation (input) ProtocolVLESS :: Protocol where "ProtocolVLESS \<equiv> ''vless''"
abbreviation (input) ProtocolVMess :: Protocol where "ProtocolVMess \<equiv> ''vmess''"
abbreviation (input) ProtocolShadowsocks :: Protocol where "ProtocolShadowsocks \<equiv> ''shadowsocks''"
abbreviation (input) ProtocolTrojan :: Protocol where "ProtocolTrojan \<equiv> ''trojan''"
abbreviation (input) ProtocolSOCKS5 :: Protocol where "ProtocolSOCKS5 \<equiv> ''socks5''"
abbreviation (input) ProtocolHTTP :: Protocol where "ProtocolHTTP \<equiv> ''http''"
abbreviation (input) ProtocolSSH :: Protocol where "ProtocolSSH \<equiv> ''ssh''"

definition SupportedProtocols :: "Protocol list" where
  "SupportedProtocols =
     [ProtocolVLESS, ProtocolVMess, ProtocolShadowsocks, ProtocolTrojan, ProtocolSOCKS5,
      ProtocolHTTP, ProtocolSSH]"

type_synonym TransportType = string

abbreviation (input) TransportTCP :: TransportType where "TransportTCP \<equiv> ''''"
abbreviation (input) TransportWS :: TransportType where "TransportWS \<equiv> ''ws''"

record TransportConfig =
  tr_Type :: TransportType
  tr_Path :: string
  tr_Host :: string
  tr_MaxEarlyData :: "32 word"
  tr_EarlyDataHeaderName :: string

record TLSConfig =
  tls_Enabled :: bool
  tls_AllowInsecure :: bool
  tls_ServerName :: string
  tls_ALPN :: "string list"
  tls_Fingerprint :: string

record SSHConfig =
  ssh_User :: string
  ssh_HostKey :: string
  ssh_PrivateKey :: string

record RealityConfig =
  re_Enabled :: bool
  re_PublicKey :: string
  re_ShortID :: string
  re_SpiderX :: string

record ServerProfile =
  sp_ID :: string
  sp_Name :: string
  sp_Protocol :: Protocol
  sp_Address :: string
  sp_Port :: int
  sp_Username :: string
  sp_Password :: string
  sp_Cipher :: string
  sp_UUID :: string
  sp_Flow :: string
  sp_Security :: string
  sp_TLS :: TLSConfig
  sp_SSH :: SSHConfig
  sp_Transport :: "TransportConfig option"
  sp_GlobalPadding :: bool
  sp_AuthenticatedLength :: bool
  sp_PacketEncoding :: string
  sp_Enabled :: bool
  sp_Group :: string
  sp_Tags :: "string list"
  sp_Reality :: "RealityConfig option"
  sp_Favorite :: bool
  sp_LastLatencyMS :: int
  sp_LastTestedAt :: "gotime option"
  sp_CreatedAt :: gotime
  sp_UpdatedAt :: gotime

definition zero_TLS :: TLSConfig where
  "zero_TLS = \<lparr>tls_Enabled = False, tls_AllowInsecure = False, tls_ServerName = [],
     tls_ALPN = [], tls_Fingerprint = []\<rparr>"

definition zero_SSH :: SSHConfig where
  "zero_SSH = \<lparr>ssh_User = [], ssh_HostKey = [], ssh_PrivateKey = []\<rparr>"

text \<open>The zero value of the struct, the start of every composite literal of the code.\<close>

definition zero_profile :: ServerProfile where
  "zero_profile =
     \<lparr>sp_ID = [], sp_Name = [], sp_Protocol = [], sp_Address = [], sp_Port = 0,
      sp_Username = [], sp_Password = [], sp_Cipher = [], sp_UUID = [], sp_Flow = [],
      sp_Security = [], sp_TLS = zero_TLS, sp_SSH = zero_SSH, sp_Transport = None,
      sp_GlobalPadding = False, sp_AuthenticatedLength = False, sp_PacketEncoding = [],
      sp_Enabled = False, sp_Group = [], sp_Tags = [], sp_Reality = None,
      sp_Favorite = False, sp_LastLatencyMS = 0, sp_LastTestedAt = None,
      sp_CreatedAt = 0, sp_UpdatedAt = 0\<rparr>"

text \<open>
  \<open>Validate\<close>, with the checks in the order of the code; \<open>None\<close> is a nil error.
\<close>

definition validation_error :: "string \<Rightarrow> goerror" where
  "validation_error msg = GoError ErrValidation (''validation failed: '' @ msg)"

definition validate_credentials :: "ServerProfile \<Rightarrow> goerror option" where
  "validate_credentials p =
     (if sp_Protocol p = ProtocolVLESS \<or> sp_Protocol p = ProtocolVMess then
        (if TrimSpace (sp_UUID p) = []
         then Some (validation_error (''uuid is required for '' @ sp_Protocol p)) else None)
      else if sp_Protocol p = ProtocolShadowsocks then
        (if sp_Password p = []
         then Some (validation_error ''password is required for shadowsocks'')
         else if sp_Cipher p = []
         then Some (validation_error ''cipher is required for shadowsocks'') else None)
      else if sp_Protocol p = ProtocolTrojan then
        (if sp_Password p = []
         then Some (validation_error ''password is required for trojan'') else None)
      else if sp_Protocol p = ProtocolSSH then
        (if ssh_User (sp_SSH p) = [] then Some (validation_error ''ssh user is required'')
         else if ssh_PrivateKey (sp_SSH p) = [] \<and> sp_Password p = []
         then Some (validation_error ''ssh requires a private key or password'') else None)
      else if sp_Protocol p = ProtocolSOCKS5 \<or> sp_Protocol p = ProtocolHTTP then None
      else Some (validation_error (''unsupported protocol '' @ sp_Protocol p)))"

definition validate_transport :: "TransportConfig option \<Rightarrow> goerror option" where
  "validate_transport tr =
     (case tr of
        None \<Rightarrow> None
      | Some t \<Rightarrow>
          (if tr_Type t = TransportTCP \<or> tr_Type t = TransportWS then None
           else Some (validation_error (''unsupported transport '' @ tr_Type t))))"

definition validate_reality :: "RealityConfig option \<Rightarrow> goerror option" where
  "validate_reality re =
     (case re of
        None \<Rightarrow> None
      | Some r \<Rightarrow>
          (if re_Enabled r
           then Some (validation_error ''reality tunneling is reserved for a future release'')
           else None))"

definition Validate :: "ServerProfile \<Rightarrow> goerror option" where
  "Validate p =
     first_error
       [if TrimSpace (sp_Name p) = [] then Some (validation_error ''name is required'')
        else None,
        if TrimSpace (sp_Address p) = [] then Some (validation_error ''address is required'')
        else None,
        if sp_Port p < 1 \<or> sp_Port p > 65535
        then Some (validation_error ''port must be in 1..65535'') else None,
        validate_credentials p,
        validate_transport (sp_Transport p),
        validate_reality (sp_Reality p)]"

text \<open>Every error of \<open>Validate\<close> wraps \<open>ErrValidation\<close>.\<close>

lemma validation_error_is [simp]: "err_is (validation_error m) = ErrValidation"
  by (simp add: validation_error_def)

lemma validate_credentials_is:
  "validate_credentials p = Some e \<Longrightarrow> err_is e = ErrValidation"
  by (auto simp: validate_credentials_def split: if_splits)

lemma validate_transport_is:
  "validate_transport tr = Some e \<Longrightarrow> err_is e = ErrValidation"
  by (auto simp: validate_transport_def split: if_splits option.splits)

lemma validate_reality_is:
  "validate_reality re = Some e \<Longrightarrow> err_is e = ErrValidation"
  by (auto simp: validate_reality_def split: if_splits option.splits)

lemma Validate_is: "Validate p = Some e \<Longrightarrow> err_is e = ErrValidation"
  unfolding Validate_def
  by (drule first_error_SomeD)
    (auto dest: sym [THEN validate_credentials_is] sym [THEN validate_transport_is]
      sym [THEN validate_reality_is] split: if_splits)

text \<open>What acceptance means, field by field.\<close>

lemma Validate_None_iff:
  "Validate p = None \<longleftrightarrow>
     TrimSpace (sp_Name p) \<noteq> [] \<and> TrimSpace (sp_Address p) \<noteq> [] \<and>
     1 \<le> sp_Port p \<and> sp_Port p \<le> 65535 \<and> validate_credentials p = None \<and>
     validate_transport (sp_Transport p) = None \<and> validate_reality (sp_Reality p) = None"
  by (auto simp: Validate_def first_error_None)

lemma validate_credentials_protocol:
  "validate_credentials p = None \<Longrightarrow> sp_Protocol p \<in> set SupportedProtocols"
  by (auto simp: validate_credentials_def SupportedProtocols_def split: if_splits)

text \<open>Validation reads neither the id, the flags nor the timestamps.\<close>

lemma Validate_frame [simp]:
  "Validate (p\<lparr>sp_ID := x\<rparr>) = Validate p"
  "Validate (p\<lparr>sp_Favorite := b\<rparr>) = Validate p"
  "Validate (p\<lparr>sp_Enabled := b\<rparr>) = Validate p"
  "Validate (p\<lparr>sp_LastLatencyMS := n\<rparr>) = Validate p"
  "Validate (p\<lparr>sp_LastTestedAt := t\<rparr>) = Validate p"
  "Validate (p\<lparr>sp_CreatedAt := c\<rparr>) = Validate p"
  "Validate (p\<lparr>sp_UpdatedAt := c\<rparr>) = Validate p"
  by (simp_all add: Validate_def validate_credentials_def)

section \<open>Connection states, modes and sessions (models/session.go)\<close>

text \<open>
  The states are only ever set by the service, so the enumeration is a datatype;
  \<open>state_string\<close> is its text.
\<close>

datatype ConnectionState =
  StateDisconnected | StateConnecting | StateConnected | StateReconnecting | StateError

fun state_string :: "ConnectionState \<Rightarrow> string" where
  "state_string StateDisconnected = ''disconnected''"
| "state_string StateConnecting = ''connecting''"
| "state_string StateConnected = ''connected''"
| "state_string StateReconnecting = ''reconnecting''"
| "state_string StateError = ''error''"


type_synonym ConnectionMode = string

abbreviation (input) ModeVPN :: ConnectionMode where "ModeVPN \<equiv> ''vpn''"
abbreviation (input) ModeProxy :: ConnectionMode where "ModeProxy \<equiv> ''proxy''"

definition mode_Valid :: "ConnectionMode \<Rightarrow> bool" where
  "mode_Valid m = (m = ModeVPN \<or> m = ModeProxy)"

record StatusChange =
  sc_State :: ConnectionState
  sc_At :: gotime

record SessionError =
  se_Code :: string
  se_Message :: string

record VPNSession =
  vs_ID :: string
  vs_ServerID :: string
  vs_Mode :: ConnectionMode
  vs_StartedAt :: gotime
  vs_EndedAt :: "gotime option"
  vs_BytesUp :: "64 word"
  vs_BytesDown :: "64 word"
  vs_StatusHistory :: "StatusChange list"
  vs_Error :: "SessionError option"

text \<open>\<open>AddState\<close> reads the clock; the model takes the time as an argument.\<close>

definition AddState :: "gotime \<Rightarrow> ConnectionState \<Rightarrow> VPNSession \<Rightarrow> VPNSession" where
  "AddState now st s =
     (let s' = s\<lparr>vs_StatusHistory := vs_StatusHistory s @ [\<lparr>sc_State = st, sc_At = now\<rparr>]\<rparr>
      in if st = StateError
         then s'\<lparr>vs_Error := Some \<lparr>se_Code = ''state_error'', se_Message = state_string st\<rparr>\<rparr>
         else s')"

definition Duration :: "gotime \<Rightarrow> VPNSession \<Rightarrow> duration" where
  "Duration now s =
     (case vs_EndedAt s of Some e \<Rightarrow> e - vs_StartedAt s | None \<Rightarrow> now - vs_StartedAt s)"

definition live_state :: "ConnectionState \<Rightarrow> bool" where
  "live_state st = (st = StateConnecting \<or> st = StateConnected \<or> st = StateReconnecting)"

definition Running :: "VPNSession \<Rightarrow> bool" where
  "Running s =
     (if vs_StatusHistory s = [] then False
      else live_state (sc_State (last (vs_StatusHistory s))))"

lemma AddState_simps [simp]:
  "vs_ID (AddState now st s) = vs_ID s"
  "vs_ServerID (AddState now st s) = vs_ServerID s"
  "vs_Mode (AddState now st s) = vs_Mode s"
  "vs_StartedAt (AddState now st s) = vs_StartedAt s"
  "vs_EndedAt (AddState now st s) = vs_EndedAt s"
  "vs_StatusHistory (AddState now st s) =
     vs_StatusHistory s @ [\<lparr>sc_State = st, sc_At = now\<rparr>]"
  by (simp_all add: AddState_def Let_def)

lemma live_state_simps [simp]:
  "live_state StateConnecting" "live_state StateConnected" "live_state StateReconnecting"
  "\<not> live_state StateDisconnected" "\<not> live_state StateError"
  by (simp_all add: live_state_def)

lemma Running_AddState [simp]: "Running (AddState now st s) = live_state st"
  by (simp add: Running_def)

section \<open>Settings and log levels (models/settings.go, models/log.go)\<close>

type_synonym Theme = string
type_synonym LogLevel = string
type_synonym IPv6Mode = string

abbreviation (input) ThemeSystem :: Theme where "ThemeSystem \<equiv> ''system''"
abbreviation (input) ThemeLight :: Theme where "ThemeLight \<equiv> ''light''"
abbreviation (input) ThemeDark :: Theme where "ThemeDark \<equiv> ''dark''"

abbreviation (input) LevelTrace :: LogLevel where "LevelTrace \<equiv> ''trace''"
abbreviation (input) LevelDebug :: LogLevel where "LevelDebug \<equiv> ''debug''"
abbreviation (input) LevelInfo :: LogLevel where "LevelInfo \<equiv> ''info''"
abbreviation (input) LevelWarn :: LogLevel where "LevelWarn \<equiv> ''warn''"
abbreviation (input) LevelError :: LogLevel where "LevelError \<equiv> ''error''"

definition level_Valid :: "LogLevel \<Rightarrow> bool" where
  "level_Valid l = (l \<in> {LevelTrace, LevelDebug, LevelInfo, LevelWarn, LevelError})"

definition Rank :: "LogLevel \<Rightarrow> int" where
  "Rank l =
     (if l = LevelTrace then 0
      else if l = LevelDebug then 1
      else if l = LevelInfo then 2
      else if l = LevelWarn then 3
      else if l = LevelError then 4
      else 2)"

abbreviation (input) IPv6ModeAuto :: IPv6Mode where "IPv6ModeAuto \<equiv> ''auto''"
abbreviation (input) IPv6ModePreferIPv4 :: IPv6Mode where "IPv6ModePreferIPv4 \<equiv> ''prefer_ipv4''"
abbreviation (input) IPv6ModeDisable :: IPv6Mode where "IPv6ModeDisable \<equiv> ''disable_ipv6''"
abbreviation (input) IPv6ModeEnable :: IPv6Mode where "IPv6ModeEnable \<equiv> ''enable_ipv6''"

definition ipv6_Valid :: "IPv6Mode \<Rightarrow> bool" where
  "ipv6_Valid m =
     (m \<in> {IPv6ModeAuto, IPv6ModePreferIPv4, IPv6ModeDisable, IPv6ModeEnable})"

record AppSettings =
  as_Theme :: Theme
  as_ConnectionMode :: ConnectionMode
  as_AutoConnect :: bool
  as_StartWithSystem :: bool
  as_AdvancedModeEnabled :: bool
  as_NotificationsEnabled :: bool
  as_LogLevel :: LogLevel
  as_IPv6Mode :: IPv6Mode

definition DefaultAppSettings :: AppSettings where
  "DefaultAppSettings =
     \<lparr>as_Theme = ThemeSystem, as_ConnectionMode = ModeVPN, as_AutoConnect = False,
      as_StartWithSystem = False, as_AdvancedModeEnabled = False,
      as_NotificationsEnabled = True, as_LogLevel = LevelInfo,
      as_IPv6Mode = IPv6ModePreferIPv4\<rparr>"

definition Normalize :: "AppSettings \<Rightarrow> AppSettings" where
  "Normalize s =
     s\<lparr>as_Theme :=
         (if as_Theme s \<in> {ThemeSystem, ThemeLight, ThemeDark} then as_Theme s
          else ThemeSystem),
       as_ConnectionMode :=
         (if \<not> mode_Valid (as_ConnectionMode s) then ModeVPN else as_ConnectionMode s),
       as_LogLevel := (if \<not> level_Valid (as_LogLevel s) then LevelInfo else as_LogLevel s),
       as_IPv6Mode :=
         (if \<not> ipv6_Valid (as_IPv6Mode s) then IPv6ModePreferIPv4 else as_IPv6Mode s)\<rparr>"

text \<open>The settings every consumer can rely on.\<close>

definition settings_ok :: "AppSettings \<Rightarrow> bool" where
  "settings_ok s =
     (as_Theme s \<in> {ThemeSystem, ThemeLight, ThemeDark} \<and> mode_Valid (as_ConnectionMode s) \<and>
      level_Valid (as_LogLevel s) \<and> ipv6_Valid (as_IPv6Mode s))"

lemma Normalize_ok [simp]: "settings_ok (Normalize s)"
  by (auto simp: settings_ok_def Normalize_def mode_Valid_def level_Valid_def ipv6_Valid_def)

lemma Normalize_id: "settings_ok s \<Longrightarrow> Normalize s = s"
  by (simp add: settings_ok_def Normalize_def)

lemma Normalize_idem [simp]: "Normalize (Normalize s) = Normalize s"
  by (rule Normalize_id) simp

lemma DefaultAppSettings_ok [simp]: "settings_ok DefaultAppSettings"
  by (simp add: settings_ok_def DefaultAppSettings_def mode_Valid_def level_Valid_def
      ipv6_Valid_def)

section \<open>Identifiers (models/id.go)\<close>

text \<open>
  \<open>NewID\<close> formats 16 random bytes as a version 4 UUID. The bytes are the argument; the
  panic on an unavailable random source is outside the model.
\<close>

unbundle bit_operations_syntax

definition hex_digit :: "nat \<Rightarrow> char" where
  "hex_digit n = ''0123456789abcdef'' ! n"

definition hex_byte :: "byte \<Rightarrow> string" where
  "hex_byte b = [hex_digit (unat b div 16), hex_digit (unat b mod 16)]"

definition hex_Encode :: "byte list \<Rightarrow> string" where
  "hex_Encode bs = concat (map hex_byte bs)"

definition uuid_bits :: "byte list \<Rightarrow> byte list" where
  "uuid_bits r = r[6 := (r ! 6 AND 0x0f) OR 0x40, 8 := (r ! 8 AND 0x3f) OR 0x80]"

definition NewID :: "byte list \<Rightarrow> string" where
  "NewID r =
     (let b = uuid_bits r
      in hex_Encode (take 4 b) @ ''-'' @ hex_Encode (take 2 (drop 4 b)) @ ''-'' @
         hex_Encode (take 2 (drop 6 b)) @ ''-'' @ hex_Encode (take 2 (drop 8 b)) @ ''-'' @
         hex_Encode (take 6 (drop 10 b)))"

lemma length_hex_Encode [simp]: "length (hex_Encode bs) = 2 * length bs"
  by (induction bs) (simp_all add: hex_Encode_def hex_byte_def)

lemma length_uuid_bits [simp]: "length (uuid_bits r) = length r"
  by (simp add: uuid_bits_def)

lemma hex_digit_inj:
  assumes "m < 16" "n < 16" "hex_digit m = hex_digit n"
  shows "m = n"
proof -
  have "distinct ''0123456789abcdef''" by simp
  with assms show ?thesis
    unfolding hex_digit_def by (subst (asm) nth_eq_iff_index_eq) simp_all
qed

lemma hex_byte_inj: "hex_byte a = hex_byte b \<longleftrightarrow> a = b"
proof
  assume eq: "hex_byte a = hex_byte b"
  have bound: "unat x < 256" for x :: byte
    using unsigned_less [of x] by simp
  have small: "unat x div 16 < 16" for x :: byte
    using bound [of x] by simp
  from eq have "unat a div 16 = unat b div 16" "unat a mod 16 = unat b mod 16"
    unfolding hex_byte_def using hex_digit_inj small by auto
  then have "unat a = unat b" by (metis div_mult_mod_eq)
  then show "a = b" by (simp add: word_unat_eq_iff)
qed simp

lemma hex_Encode_inj:
  "length as = length bs \<Longrightarrow> hex_Encode as = hex_Encode bs \<longleftrightarrow> as = bs"
proof (induction as bs rule: list_induct2)
  case (Cons a as b bs)
  have "hex_Encode (x # xs) = hex_byte x @ hex_Encode xs" for x xs
    by (simp add: hex_Encode_def)
  moreover have "length (hex_byte a) = length (hex_byte b)"
    by (simp add: hex_byte_def)
  ultimately show ?case using Cons.IH by (simp add: hex_byte_inj)
qed simp

text \<open>Setting fixed bits over masked ones adds them.\<close>

lemma unat_mask_or:
  fixes w m f :: byte
  assumes "m AND f = 0" "unat m + unat f < 256"
  shows "unat ((w AND m) OR f) = unat (w AND m) + unat f" and "unat (w AND m) \<le> unat m"
proof -
  show le: "unat (w AND m) \<le> unat m"
    using word_and_le1 [of w m] by (simp add: word_le_nat_alt)
  have "(w AND m) AND f = 0"
    using assms(1) by (simp add: and.assoc)
  then have "(w AND m) OR f = (w AND m) + f"
    by (simp add: disjunctive_add_eq_or)
  then show "unat ((w AND m) OR f) = unat (w AND m) + unat f"
    using le assms(2) by (simp add: unat_word_ariths)
qed

lemma version_nibble: "unat ((w AND 0x0f) OR 0x40 :: byte) div 16 = 4"
  using unat_mask_or [of "0x0f" "0x40" w] by simp

lemma variant_nibble: "unat ((w AND 0x3f) OR 0x80 :: byte) div 16 \<in> {8, 9, 10, 11}"
proof -
  have "unat ((w AND 0x3f) OR 0x80) = unat (w AND 0x3f) + 128" "unat (w AND 0x3f) \<le> 63"
    using unat_mask_or [of "0x3f" "0x80" w] by simp_all
  then have "128 \<le> unat ((w AND 0x3f) OR 0x80)" "unat ((w AND 0x3f) OR 0x80) \<le> 191"
    by simp_all
  then have "8 \<le> unat ((w AND 0x3f) OR 0x80) div 16" "unat ((w AND 0x3f) OR 0x80) div 16 \<le> 11"
    by linarith+
  then show ?thesis by auto
qed

end
