(* ===== verification/Go_JSON.thy ===== *)
theory Go_JSON
  imports Go_Text
begin

text \<open>
  JSON text as \<open>encoding/json\<close> writes and reads it: trees, the printer of \<open>json.Marshal\<close>
  (escaping of quotes, control bytes, the HTML characters and the two line separators,
  replacement of invalid UTF-8), the parser of \<open>json.Unmarshal\<close>, and the storing of
  decoded members into Go values. The wording of syntax errors is not modelled (a failure is
  \<open>None\<close>), nor is the parser's limit of 10000 nested values. The theory shows that the parser
  reads back what the printer wrote.
\<close>

section \<open>UTF-8\<close>

definition in_range :: "nat \<Rightarrow> nat \<Rightarrow> char \<Rightarrow> bool" where
  "in_range lo hi c \<longleftrightarrow> lo \<le> of_char c \<and> of_char c \<le> hi"

definition rune_size :: "char \<Rightarrow> nat" where
  "rune_size a =
     (let n = of_char a :: nat
      in if n < 0x80 then 1 else if n < 0xC2 then 0 else if n < 0xE0 then 2 else if n < 0xF0 then 3
         else if n < 0xF5 then 4 else 0)"

definition rune_tail :: "char \<Rightarrow> string \<Rightarrow> bool" where
  "rune_tail a bs \<longleftrightarrow>
     (let n = of_char a :: nat;
          lo = (if n = 0xE0 then 0xA0 else if n = 0xF0 then 0x90 else 0x80);
          hi = (if n = 0xED then 0x9F else if n = 0xF4 then 0x8F else 0xBF)
      in bs = [] \<or> in_range lo hi (hd bs) \<and> list_all (in_range 0x80 0xBF) (tl bs))"

text \<open>The length of the valid encoding of a code point at the start of a text, 0 if there is
  none (\<open>utf8.DecodeRune\<close>).\<close>

fun rune_len :: "string \<Rightarrow> nat" where
  "rune_len [] = 0"
| "rune_len (a # s) =
     (let k = rune_size a in if k \<le> Suc (length s) \<and> rune_tail a (take (k - 1) s) then k else 0)"

lemma rune_len_le: "rune_len s \<le> length s"
  by (cases s) (auto simp: Let_def)

lemma rune_len_append:
  assumes "0 < rune_len s"
  shows "rune_len (take (rune_len s) s @ t) = rune_len s"
proof (cases s)
  case (Cons a r)
  let ?k = "rune_size a"
  from assms Cons have k: "rune_len s = ?k" "0 < ?k" "?k \<le> Suc (length r)" "rune_tail a (take (?k - 1) r)"
    by (auto simp: Let_def split: if_splits)
  then have "take (rune_len s) s @ t = a # take (?k - 1) r @ t" "length (take (?k - 1) r) = ?k - 1"
    using Cons by (simp_all add: take_Cons')
  with k show ?thesis by (simp add: Let_def)
qed (use assms in simp)

lemma rune_len_ascii [simp]: "of_char c < (0x80 :: nat) \<Longrightarrow> rune_len (c # s) = 1"
  by (simp add: rune_size_def rune_tail_def)

declare rune_len.simps(2) [simp del]

text \<open>Encoding of a code point below \<open>0x110000\<close> that is not a surrogate.\<close>

definition utf8_encode :: "nat \<Rightarrow> string" where
  "utf8_encode r =
     (if r < 0x80 then [char_of r]
      else if r < 0x800 then [char_of (0xC0 + r div 64), char_of (0x80 + r mod 64)]
      else if r < 0x10000 then
        [char_of (0xE0 + r div 4096), char_of (0x80 + r div 64 mod 64), char_of (0x80 + r mod 64)]
      else
        [char_of (0xF0 + r div 262144), char_of (0x80 + r div 4096 mod 64),
         char_of (0x80 + r div 64 mod 64), char_of (0x80 + r mod 64)])"

definition rune_error :: string where
  "rune_error = [CHR 0xEF, CHR 0xBF, CHR 0xBD]"

function valid_utf8 :: "string \<Rightarrow> bool" where
  "valid_utf8 s =
     (if s = [] then True else if rune_len s = 0 then False else valid_utf8 (drop (rune_len s) s))"
  by pat_completeness auto
termination
  by (relation "measure length") auto

declare valid_utf8.simps [simp del]

lemma valid_utf8_Nil [simp]: "valid_utf8 []"
  by (simp add: valid_utf8.simps)

lemma valid_utf8_ascii [simp]: "of_char c < (0x80 :: nat) \<Longrightarrow> valid_utf8 (c # s) = valid_utf8 s"
  by (simp add: valid_utf8.simps [of "c # s"])

lemma ascii_valid_utf8: "\<forall>c \<in> set s. of_char c < (0x80 :: nat) \<Longrightarrow> valid_utf8 s"
  by (induction s) auto

section \<open>Trees\<close>

text \<open>\<open>JInt\<close> is a number literal without fraction and exponent, \<open>JReal\<close> the text of any other.\<close>

datatype json =
    JNull
  | JBool bool
  | JInt int
  | JReal string
  | JString string
  | JArray "json list"
  | JObject "(string \<times> json) list"

section \<open>Printing\<close>

abbreviation (input) DQ :: char where "DQ \<equiv> CHR 0x22"
abbreviation (input) BS :: char where "BS \<equiv> CHR 0x5C"

definition hex4 :: "nat \<Rightarrow> string" where
  "hex4 n = [hex_char (n div 4096 mod 16), hex_char (n div 256 mod 16), hex_char (n div 16 mod 16),
     hex_char (n mod 16)]"

definition esc_ascii :: "char \<Rightarrow> string" where
  "esc_ascii c =
     (let n = of_char c :: nat
      in if c = DQ \<or> c = BS then [BS, c]
         else if n = 8 then [BS, CHR ''b'']
         else if n = 12 then [BS, CHR ''f'']
         else if n = 10 then [BS, CHR ''n'']
         else if n = 13 then [BS, CHR ''r'']
         else if n = 9 then [BS, CHR ''t'']
         else if n < 32 \<or> c \<in> {CHR ''<'', CHR ''>'', CHR ''&''} then BS # CHR ''u'' # hex4 n
         else [c])"

definition line_seps :: "string list" where
  "line_seps = [[CHR 0xE2, CHR 0x80, CHR 0xA8], [CHR 0xE2, CHR 0x80, CHR 0xA9]]"

definition esc_rune :: "string \<Rightarrow> string" where
  "esc_rune r =
     (if r = line_seps ! 0 then BS # ''u2028'' else if r = line_seps ! 1 then BS # ''u2029'' else r)"

function json_escape :: "string \<Rightarrow> string" where
  "json_escape s =
     (case s of
        [] \<Rightarrow> []
      | c # cs \<Rightarrow>
          if of_char c < (0x80 :: nat) then esc_ascii c @ json_escape cs
          else if rune_len s = 0 then BS # ''ufffd'' @ json_escape cs
          else esc_rune (take (rune_len s) s) @ json_escape (drop (rune_len s) s))"
  by pat_completeness auto
termination
  by (relation "measure length") auto

declare json_escape.simps [simp del]

definition json_quote :: "string \<Rightarrow> string" where
  "json_quote s = DQ # json_escape s @ [DQ]"

fun json_print :: "json \<Rightarrow> string" and print_elems :: "json list \<Rightarrow> string"
  and print_members :: "(string \<times> json) list \<Rightarrow> string" where
  "json_print JNull = ''null''"
| "json_print (JBool b) = (if b then ''true'' else ''false'')"
| "json_print (JInt i) = Itoa i"
| "json_print (JReal t) = t"
| "json_print (JString s) = json_quote s"
| "json_print (JArray js) = CHR ''['' # print_elems js"
| "json_print (JObject ms) = CHR ''{'' # print_members ms"
| "print_elems [] = '']''"
| "print_elems (j # js) = json_print j @ (if js = [] then '']'' else CHR '','' # print_elems js)"
| "print_members [] = ''}''"
| "print_members (m # ms) =
     json_quote (fst m) @ CHR '':'' # json_print (snd m) @
     (if ms = [] then ''}'' else CHR '','' # print_members ms)"

section \<open>Parsing\<close>

definition hex_val :: "char \<Rightarrow> nat option" where
  "hex_val c =
     (let n = of_char c :: nat
      in if 48 \<le> n \<and> n \<le> 57 then Some (n - 48)
         else if 97 \<le> n \<and> n \<le> 102 then Some (n - 87)
         else if 65 \<le> n \<and> n \<le> 70 then Some (n - 55)
         else None)"

fun hex4_val :: "string \<Rightarrow> (nat \<times> string) option" where
  "hex4_val (a # b # c # d # s) =
     (case (hex_val a, hex_val b, hex_val c, hex_val d) of
        (Some w, Some x, Some y, Some z) \<Rightarrow> Some (w * 4096 + x * 256 + y * 16 + z, s)
      | _ \<Rightarrow> None)"
| "hex4_val s = None"

text \<open>What follows a backslash: the bytes it stands for and the rest of the text. A surrogate
  that is not the first half of a pair is replaced.\<close>

definition unescape_u :: "nat \<Rightarrow> string \<Rightarrow> string \<times> string" where
  "unescape_u r s =
     (if r < 0xD800 \<or> 0xE000 \<le> r then (utf8_encode r, s)
      else
        (case drop_prefix [BS, CHR ''u''] s of
           None \<Rightarrow> (rune_error, s)
         | Some t \<Rightarrow>
             (case hex4_val t of
                None \<Rightarrow> (rune_error, s)
              | Some (r', u) \<Rightarrow>
                  if r < 0xDC00 \<and> 0xDC00 \<le> r' \<and> r' < 0xE000
                  then (utf8_encode (0x10000 + (r - 0xD800) * 1024 + (r' - 0xDC00)), u)
                  else (rune_error, s))))"

fun unescape :: "string \<Rightarrow> (string \<times> string) option" where
  "unescape [] = None"
| "unescape (c # s) =
     (if c \<in> {DQ, BS, CHR ''/''} then Some ([c], s)
      else if c = CHR ''b'' then Some ([CHR 0x08], s)
      else if c = CHR ''f'' then Some ([CHR 0x0C], s)
      else if c = CHR ''n'' then Some ([CHR 0x0A], s)
      else if c = CHR ''r'' then Some ([CHR 0x0D], s)
      else if c = CHR ''t'' then Some ([CHR 0x09], s)
      else if c = CHR ''u'' then
        (case hex4_val s of None \<Rightarrow> None | Some (r, t) \<Rightarrow> Some (unescape_u r t))
      else None)"

text \<open>The text of a string after its opening quote: its value and what follows the closing
  quote.\<close>

function json_string :: "string \<Rightarrow> (string \<times> string) option" where
  "json_string s =
     (case s of
        [] \<Rightarrow> None
      | c # cs \<Rightarrow>
          if c = DQ then Some ([], cs)
          else if c = BS then
            (case unescape cs of
               None \<Rightarrow> None
             | Some (out, t) \<Rightarrow>
                 if length t < length s then map_option (apfst ((@) out)) (json_string t) else None)
          else if of_char c < (32 :: nat) then None
          else if rune_len s = 0 then map_option (apfst ((@) rune_error)) (json_string cs)
          else map_option (apfst ((@) (take (rune_len s) s))) (json_string (drop (rune_len s) s)))"
  by pat_completeness auto
termination
  by (relation "measure length") auto

declare json_string.simps [simp del]

definition is_ws :: "char \<Rightarrow> bool" where
  "is_ws c \<longleftrightarrow> c \<in> {CHR 0x20, CHR 0x09, CHR 0x0A, CHR 0x0D}"

abbreviation skip_ws :: "string \<Rightarrow> string" where
  "skip_ws \<equiv> dropWhile is_ws"

definition is_digit :: "char \<Rightarrow> bool" where
  "is_digit c \<longleftrightarrow> digit_val c \<noteq> None"

text \<open>A number: sign, integer part without leading zeros, fraction, exponent.\<close>

definition json_int_part :: "string \<Rightarrow> (string \<times> string) option" where
  "json_int_part s =
     (let ds = takeWhile is_digit s; t = dropWhile is_digit s
      in if ds = [] then None
         else if hd ds = CHR ''0'' then Some (''0'', tl s)
         else Some (ds, t))"

definition json_frac :: "string \<Rightarrow> (string \<times> string) option" where
  "json_frac s =
     (case s of
        c # t \<Rightarrow>
          if c = CHR ''.'' then
            (let ds = takeWhile is_digit t in if ds = [] then None else Some (c # ds, dropWhile is_digit t))
          else Some ([], s)
      | [] \<Rightarrow> Some ([], s))"

definition json_exp :: "string \<Rightarrow> (string \<times> string) option" where
  "json_exp s =
     (case s of
        c # t \<Rightarrow>
          if c \<in> {CHR ''e'', CHR ''E''} then
            (let sg = (case t of d # _ \<Rightarrow> if d \<in> {CHR ''+'', CHR ''-''} then [d] else [] | [] \<Rightarrow> []);
                 u = drop (length sg) t;
                 ds = takeWhile is_digit u
             in if ds = [] then None else Some (c # sg @ ds, dropWhile is_digit u))
          else Some ([], s)
      | [] \<Rightarrow> Some ([], s))"

definition json_number :: "string \<Rightarrow> (json \<times> string) option" where
  "json_number s =
     (let neg = (s \<noteq> [] \<and> hd s = CHR ''-''); s1 = (if neg then tl s else s)
      in case json_int_part s1 of
           None \<Rightarrow> None
         | Some (ds, s2) \<Rightarrow>
             (case json_frac s2 of
                None \<Rightarrow> None
              | Some (fr, s3) \<Rightarrow>
                  (case json_exp s3 of
                     None \<Rightarrow> None
                   | Some (ex, s4) \<Rightarrow>
                       if fr = [] \<and> ex = [] then
                         (case digits_val 0 ds of
                            None \<Rightarrow> None
                          | Some n \<Rightarrow> Some (JInt (if neg then - int n else int n), s4))
                       else Some (JReal ((if neg then ''-'' else '''') @ ds @ fr @ ex), s4))))"

text \<open>Values, the elements after an opening bracket and the members after an opening brace. The
  first argument bounds the depth of the recursion: a value needs at most two steps per byte.\<close>

fun json_value :: "nat \<Rightarrow> string \<Rightarrow> (json \<times> string) option"
  and json_elems :: "nat \<Rightarrow> string \<Rightarrow> (json list \<times> string) option"
  and json_members :: "nat \<Rightarrow> string \<Rightarrow> ((string \<times> json) list \<times> string) option" where
  "json_value 0 s = None"
| "json_value (Suc f) s =
     (case skip_ws s of
        [] \<Rightarrow> None
      | c # cs \<Rightarrow>
          if c = DQ then map_option (apfst JString) (json_string cs)
          else if c = CHR ''['' then
            (case skip_ws cs of
               d # ds \<Rightarrow>
                 if d = CHR '']'' then Some (JArray [], ds)
                 else map_option (apfst JArray) (json_elems f cs)
             | [] \<Rightarrow> None)
          else if c = CHR ''{'' then
            (case skip_ws cs of
               d # ds \<Rightarrow>
                 if d = CHR ''}'' then Some (JObject [], ds)
                 else map_option (apfst JObject) (json_members f cs)
             | [] \<Rightarrow> None)
          else if c = CHR ''n'' then map_option (Pair JNull) (drop_prefix ''null'' (c # cs))
          else if c = CHR ''t'' then map_option (Pair (JBool True)) (drop_prefix ''true'' (c # cs))
          else if c = CHR ''f'' then map_option (Pair (JBool False)) (drop_prefix ''false'' (c # cs))
          else json_number (c # cs))"
| "json_elems 0 s = None"
| "json_elems (Suc f) s =
     (case json_value f s of
        None \<Rightarrow> None
      | Some (j, t) \<Rightarrow>
          (case skip_ws t of
             c # cs \<Rightarrow>
               if c = CHR '','' then map_option (apfst ((#) j)) (json_elems f cs)
               else if c = CHR '']'' then Some ([j], cs)
               else None
           | [] \<Rightarrow> None))"
| "json_members 0 s = None"
| "json_members (Suc f) s =
     (case skip_ws s of
        c # cs \<Rightarrow>
          if c = DQ then
            (case json_string cs of
               None \<Rightarrow> None
             | Some (k, t) \<Rightarrow>
                 (case skip_ws t of
                    d # ds \<Rightarrow>
                      if d = CHR '':'' then
                        (case json_value f ds of
                           None \<Rightarrow> None
                         | Some (j, u) \<Rightarrow>
                             (case skip_ws u of
                                e # es \<Rightarrow>
                                  if e = CHR '','' then map_option (apfst ((#) (k, j))) (json_members f es)
                                  else if e = CHR ''}'' then Some ([(k, j)], es)
                                  else None
                              | [] \<Rightarrow> None))
                      else None
                  | [] \<Rightarrow> None))
          else None
      | [] \<Rightarrow> None)"

definition json_parse :: "string \<Rightarrow> json option" where
  "json_parse s =
     (case json_value (2 * length s) s of
        Some (j, t) \<Rightarrow> if skip_ws t = [] then Some j else None
      | None \<Rightarrow> None)"

section \<open>Round trip\<close>

text \<open>The trees the program prints: valid UTF-8 in every string, no literal reals.\<close>

fun json_ok :: "json \<Rightarrow> bool" where
  "json_ok (JReal t) = False"
| "json_ok (JString s) = valid_utf8 s"
| "json_ok (JArray js) = (\<forall>j \<in> set js. json_ok j)"
| "json_ok (JObject ms) = (\<forall>m \<in> set ms. valid_utf8 (fst m) \<and> json_ok (snd m))"
| "json_ok _ = True"

lemma hex_val_char [simp]: "n < 16 \<Longrightarrow> hex_val (hex_char n) = Some n"
  by (auto simp: hex_val_def hex_char_def Let_def of_char_of)

lemma hex4_digits:
  assumes "n < 65536"
  shows "n div 4096 mod 16 * 4096 + n div 256 mod 16 * 256 + n div 16 mod 16 * 16 + n mod 16 = (n :: nat)"
proof -
  have "n div 16 div 16 = n div 256" "n div 256 div 16 = n div 4096"
    by (simp_all flip: div_mult2_eq)
  moreover have "n div 4096 mod 16 = n div 4096" using assms by simp
  ultimately show ?thesis
    using div_mult_mod_eq [of n 16] div_mult_mod_eq [of "n div 16" 16] div_mult_mod_eq [of "n div 256" 16]
    by linarith
qed

lemma hex4_roundtrip: "n < 65536 \<Longrightarrow> hex4_val (hex4 n @ s) = Some (n, s)"
  using hex4_digits [of n] by (simp add: hex4_def)

lemma char_of_controls:
  "char_of (8 :: nat) = CHR 0x08" "char_of (9 :: nat) = CHR 0x09" "char_of (10 :: nat) = CHR 0x0A"
  "char_of (12 :: nat) = CHR 0x0C" "char_of (13 :: nat) = CHR 0x0D"
  by code_simp+

lemma unescape_esc_ascii:
  assumes "of_char c < (0x80 :: nat)" "esc_ascii c \<noteq> [c]"
  shows "\<exists>e. esc_ascii c = BS # e \<and> unescape (e @ s) = Some ([c], s)"
proof -
  have u: "unescape (CHR ''u'' # hex4 (of_char c) @ s) = Some ([c], s)"
  proof -
    have "of_char c < (65536 :: nat)" "of_char c < (0xD800 :: nat)" using assms(1) by auto
    then show ?thesis
      using assms(1) hex4_roundtrip [of "of_char c" s] by (simp add: unescape_u_def utf8_encode_def)
  qed
  have eqs: "of_char c = n \<Longrightarrow> c = char_of n" for n :: nat by auto
  show ?thesis
    using assms(2) u eqs [of 8] eqs [of 9] eqs [of 10] eqs [of 12] eqs [of 13]
    by (auto simp: esc_ascii_def Let_def char_of_controls split: if_splits)
qed

lemma json_string_quote [simp]: "json_string (DQ # s) = Some ([], s)"
  by (simp add: json_string.simps)

lemma json_string_esc:
  "unescape s = Some (out, t) \<Longrightarrow> length t \<le> length s \<Longrightarrow>
   json_string (BS # s) = map_option (apfst ((@) out)) (json_string t)"
  by (simp add: json_string.simps [of "BS # s"])

lemma json_string_plain:
  assumes "c \<noteq> DQ" "c \<noteq> BS" "32 \<le> (of_char c :: nat)" "0 < rune_len (c # s)"
  shows "json_string (c # s) =
    map_option (apfst ((@) (take (rune_len (c # s)) (c # s)))) (json_string (drop (rune_len (c # s)) (c # s)))"
  using assms by (simp add: json_string.simps [of "c # s"])

lemma json_escape_ascii: "of_char c < (0x80 :: nat) \<Longrightarrow> json_escape (c # s) = esc_ascii c @ json_escape s"
  by (simp add: json_escape.simps [of "c # s"])

lemma json_escape_rune:
  "\<not> of_char c < (0x80 :: nat) \<Longrightarrow> 0 < rune_len (c # s) \<Longrightarrow>
   json_escape (c # s) = esc_rune (take (rune_len (c # s)) (c # s)) @ json_escape (drop (rune_len (c # s)) (c # s))"
  by (simp add: json_escape.simps [of "c # s"])

lemma esc_rune_seps:
  "unescape (''u2028'' @ s) = Some (line_seps ! 0, s)" "unescape (''u2029'' @ s) = Some (line_seps ! 1, s)"
  by (simp_all add: unescape_u_def utf8_encode_def line_seps_def hex_val_def of_char_of) code_simp+

lemma json_string_ascii:
  assumes "of_char c < (0x80 :: nat)"
  shows "json_string (esc_ascii c @ s) = map_option (apfst ((@) [c])) (json_string s)"
proof (cases "esc_ascii c = [c]")
  case True
  then have "c \<noteq> DQ" "c \<noteq> BS" "32 \<le> (of_char c :: nat)"
    by (auto simp: esc_ascii_def Let_def split: if_splits)
  with True assms show ?thesis using json_string_plain [of c s] by simp
next
  case False
  then obtain e where e: "esc_ascii c = BS # e" "unescape (e @ s) = Some ([c], s)"
    using unescape_esc_ascii [OF assms] by blast
  then show ?thesis using json_string_esc [of "e @ s" "[c]" s] by simp
qed

lemma json_string_rune:
  assumes "\<not> of_char c < (0x80 :: nat)" "0 < rune_len (c # s)"
  shows "json_string (esc_rune (take (rune_len (c # s)) (c # s)) @ t) =
    map_option (apfst ((@) (take (rune_len (c # s)) (c # s)))) (json_string t)"
proof -
  let ?r = "take (rune_len (c # s)) (c # s)"
  consider "?r = line_seps ! 0" | "?r = line_seps ! 1" "?r \<noteq> line_seps ! 0"
    | "?r \<noteq> line_seps ! 0" "?r \<noteq> line_seps ! 1" by blast
  then show ?thesis
  proof cases
    case 1
    then show ?thesis using json_string_esc [OF esc_rune_seps(1) [of t]] by (simp add: esc_rune_def)
  next
    case 2
    then show ?thesis using json_string_esc [OF esc_rune_seps(2) [of t]] by (simp add: esc_rune_def)
  next
    case 3
    obtain u where r: "?r = c # u" using assms(2) by (cases "rune_len (c # s)") auto
    have len: "rune_len (c # u @ t) = length (c # u)"
      using rune_len_append [OF assms(2), of t] rune_len_le [of "c # s"] r
      by (metis append_Cons length_take min.absorb2)
    have "c \<noteq> DQ" "c \<noteq> BS" "32 \<le> (of_char c :: nat)" using assms(1) by auto
    then show ?thesis
      using 3 r len json_string_plain [of c "u @ t"] by (simp add: esc_rune_def)
  qed
qed

lemma json_string_escape:
  "valid_utf8 s \<Longrightarrow> json_string (json_escape s @ DQ # t) = Some (s, t)"
proof (induction s rule: json_escape.induct)
  case (1 s)
  show ?case
  proof (cases s)
    case Nil
    then show ?thesis by (simp add: json_escape.simps)
  next
    case (Cons c cs)
    show ?thesis
    proof (cases "of_char c < (0x80 :: nat)")
      case True
      with Cons 1 show ?thesis by (simp add: json_escape_ascii json_string_ascii)
    next
      case False
      let ?n = "rune_len (c # cs)"
      from "1.prems" Cons have v: "0 < ?n" "valid_utf8 (drop ?n (c # cs))"
        by (simp_all add: valid_utf8.simps [of "c # cs"] split: if_splits)
      with 1(3) Cons False have "json_string (json_escape (drop ?n (c # cs)) @ DQ # t) = Some (drop ?n (c # cs), t)"
        by simp
      then show ?thesis
        using Cons False v(1) by (simp add: json_escape_rune json_string_rune del: take_Cons' drop_Cons')
    qed
  qed
qed

lemma is_digit_char [simp]: "n < 10 \<Longrightarrow> is_digit (digit_char n)"
  by (simp add: is_digit_def)

lemma nat_digits_digits: "\<forall>c \<in> set (nat_digits n). is_digit c"
  by (induction n rule: nat_digits.induct) (subst nat_digits.simps, auto)

lemma hd_nat_digits_nonzero: "0 < n \<Longrightarrow> hd (nat_digits n) \<noteq> CHR ''0''"
proof (induction n rule: nat_digits.induct)
  case (1 n)
  show ?case
  proof (cases "n < 10")
    case True
    then have "of_char (digit_char n) = 48 + n" by (simp add: digit_char_def of_char_of)
    with 1(2) have "digit_char n \<noteq> CHR ''0''" by auto
    with True show ?thesis by (simp add: nat_digits.simps [of n])
  next
    case False
    with 1 show ?thesis by (simp add: nat_digits.simps [of n])
  qed
qed

definition number_ends :: "string \<Rightarrow> bool" where
  "number_ends t \<longleftrightarrow> t = [] \<or> (\<not> is_digit (hd t) \<and> hd t \<notin> {CHR ''.'', CHR ''e'', CHR ''E''})"

lemma number_ends_simps [simp]:
  "number_ends []" "number_ends (CHR '','' # t)" "number_ends (CHR '']'' # t)" "number_ends (CHR ''}'' # t)"
  by (simp_all add: number_ends_def is_digit_def digit_val_def)

lemma span_digits:
  assumes "\<forall>c \<in> set ds. is_digit c" "number_ends t"
  shows "takeWhile is_digit (ds @ t) = ds" "dropWhile is_digit (ds @ t) = t"
proof -
  have "takeWhile is_digit t = []" "dropWhile is_digit t = t"
    using assms(2) by (cases t; simp add: number_ends_def)+
  then show "takeWhile is_digit (ds @ t) = ds" "dropWhile is_digit (ds @ t) = t"
    using assms(1) by (simp_all add: takeWhile_append2 dropWhile_append2)
qed

lemma json_int_part_digits:
  assumes "number_ends t"
  shows "json_int_part (nat_digits n @ t) = Some (nat_digits n, t)"
proof (cases "n = 0")
  case True
  have z: "nat_digits 0 = ''0''" by (subst nat_digits.simps) (simp add: digit_char_def, code_simp)
  then show ?thesis
    using True span_digits [OF nat_digits_digits [of 0] assms] by (simp add: json_int_part_def)
next
  case False
  then show ?thesis
    using span_digits [OF nat_digits_digits [of n] assms] hd_nat_digits_nonzero [of n]
    by (simp add: json_int_part_def)
qed

lemma json_frac_exp_none:
  assumes "number_ends t"
  shows "json_frac t = Some ([], t)" "json_exp t = Some ([], t)"
  using assms by (cases t; simp add: json_frac_def json_exp_def number_ends_def)+

lemma json_number_Itoa: "number_ends t \<Longrightarrow> json_number (Itoa i @ t) = Some (JInt i, t)"
proof -
  assume t: "number_ends t"
  have pos: "hd (nat_digits n) \<noteq> CHR ''-''" for n
    using hd_nat_digits [of n] digit_not_sign by metis
  have h: "hd (nat_digits n @ t) \<noteq> CHR ''-''" for n using pos [of n] by (simp add: hd_append)
  show ?thesis
    using t h by (cases "i < 0")
      (simp_all add: json_number_def Itoa_def json_int_part_digits json_frac_exp_none digits_val_nat_digits)
qed

text \<open>No printed value starts with a blank.\<close>

lemma not_ws [simp]: "\<not> is_ws DQ" "\<not> is_ws CHR ''[''" "\<not> is_ws CHR ''{''" "\<not> is_ws CHR '',''"
  "\<not> is_ws CHR '']''" "\<not> is_ws CHR ''}''" "\<not> is_ws CHR '':''" "\<not> is_ws CHR ''n''" "\<not> is_ws CHR ''t''"
  "\<not> is_ws CHR ''f''"
  by (simp_all add: is_ws_def)

lemma number_head: "c \<in> insert CHR ''-'' {d. is_digit d} \<Longrightarrow>
  \<not> is_ws c \<and> c \<notin> {DQ, CHR ''['', CHR ''{'', CHR ''n'', CHR ''t'', CHR ''f'', CHR '']'', CHR ''}''}"
  by (auto simp: is_ws_def is_digit_def digit_val_def)

lemma hd_Itoa: "Itoa i \<noteq> [] \<and> hd (Itoa i) \<in> insert CHR ''-'' {d. is_digit d}"
  using nat_digits_digits [of "nat i"] nat_digits_not_Nil [of "nat i"]
  by (simp add: Itoa_def)

lemma json_value_int:
  assumes "number_ends t"
  shows "json_value (Suc f) (Itoa i @ t) = Some (JInt i, t)"
proof -
  obtain c s where c: "Itoa i = c # s" using hd_Itoa [of i] by (cases "Itoa i") auto
  then have "\<not> is_ws c \<and> c \<notin> {DQ, CHR ''['', CHR ''{'', CHR ''n'', CHR ''t'', CHR ''f'', CHR '']'', CHR ''}''}"
    using hd_Itoa [of i] number_head by fastforce
  then show ?thesis using c json_number_Itoa [OF assms, of i] by simp
qed

lemma json_print_head:
  assumes "json_ok j"
  shows "\<exists>c s. json_print j = c # s \<and> \<not> is_ws c \<and> c \<noteq> CHR '']''"
proof (cases j)
  case (JInt i)
  then show ?thesis using hd_Itoa [of i] number_head [of "hd (Itoa i)"] by (cases "Itoa i") auto
qed (use assms in \<open>auto simp: json_quote_def is_ws_def\<close>)

lemma json_members_head: "\<exists>s. print_members (m # ms) = DQ # s"
  by (simp add: json_quote_def)

lemma json_value_string: "valid_utf8 s \<Longrightarrow> json_value (Suc f) (json_quote s @ t) = Some (JString s, t)"
  by (simp add: json_quote_def json_string_escape)

lemma json_roundtrip_aux:
  "json_ok j \<Longrightarrow> 2 * length (json_print j) \<le> f \<Longrightarrow> number_ends t \<Longrightarrow>
     json_value f (json_print j @ t) = Some (j, t)"
  "js \<noteq> [] \<Longrightarrow> \<forall>j \<in> set js. json_ok j \<Longrightarrow> 2 * length (print_elems js) \<le> f \<Longrightarrow>
     json_elems f (print_elems js @ t) = Some (js, t)"
  "ms \<noteq> [] \<Longrightarrow> \<forall>m \<in> set ms. valid_utf8 (fst m) \<and> json_ok (snd m) \<Longrightarrow>
     2 * length (print_members ms) \<le> f \<Longrightarrow> json_members f (print_members ms @ t) = Some (ms, t)"
proof (induction j and js and ms arbitrary: f t and f t and f t
    rule: json_print_print_elems_print_members.induct)
  case 1
  then show ?case by (cases f) simp_all
next
  case (2 b)
  then show ?case by (cases f; cases b) simp_all
next
  case (3 i)
  then obtain g where "f = Suc g" using hd_Itoa [of i] by (cases f) auto
  with 3(3) show ?case using json_value_int [of t g i] by (simp del: json_value.simps)
next
  case (5 s)
  then obtain g where "f = Suc g" by (cases f) (auto simp: json_quote_def)
  with 5(1) show ?case using json_value_string [of s g t] by (simp del: json_value.simps)
next
  case (6 js)
  show ?case
  proof (cases js)
    case Nil
    with 6 show ?thesis by (cases f) simp_all
  next
    case (Cons j js')
    with 6(2) have "json_ok j" by simp
    then obtain c s where c: "json_print j = c # s" "\<not> is_ws c" "c \<noteq> CHR '']''"
      using json_print_head by blast
    obtain g where g: "f = Suc g" using 6(3) by (cases f) auto
    have "json_elems g (print_elems js @ t) = Some (js, t)"
      using 6 Cons g by (intro 6(1)) auto
    moreover obtain u where u: "print_elems js @ t = c # u" using Cons c by simp
    ultimately have "json_elems g (c # u) = Some (js, t)" by simp
    then show ?thesis using g c(2,3) by (simp add: u)
  qed
next
  case (7 ms)
  show ?case
  proof (cases ms)
    case Nil
    with 7 show ?thesis by (cases f) simp_all
  next
    case (Cons m ms')
    obtain g where g: "f = Suc g" using 7(3) by (cases f) auto
    have "json_members g (print_members ms @ t) = Some (ms, t)"
      using 7 Cons g by (intro 7(1)) auto
    moreover obtain s where "print_members ms = DQ # s" using Cons json_members_head by blast
    ultimately show ?thesis using g by simp
  qed
next
  case (9 j js)
  obtain g where g: "f = Suc g" using 9(5) by (cases f; cases js) auto
  let ?r = "(if js = [] then '']'' else CHR '','' # print_elems js) @ t"
  have "json_value g (json_print j @ ?r) = Some (j, ?r)"
    using 9(4,5) g by (intro 9(1)) (auto split: if_splits)
  moreover have "json_elems g (print_elems js @ t) = Some (js, t)" if "js \<noteq> []"
    using 9(4,5) g that by (intro 9(2)) (auto split: if_splits)
  ultimately show ?case using g by simp
next
  case (11 m ms)
  obtain g where g: "f = Suc g" using 11(5) by (cases f) (auto simp: json_quote_def)
  let ?r = "(if ms = [] then ''}'' else CHR '','' # print_members ms) @ t"
  have "json_value g (json_print (snd m) @ ?r) = Some (snd m, ?r)"
    using 11(4,5) g by (intro 11(1)) (auto split: if_splits)
  moreover have "json_members g (print_members ms @ t) = Some (ms, t)" if "ms \<noteq> []"
    using 11(4,5) g that by (intro 11(2)) (auto split: if_splits)
  moreover have "json_string (json_escape (fst m) @ DQ # CHR '':'' # json_print (snd m) @ ?r) =
      Some (fst m, CHR '':'' # json_print (snd m) @ ?r)"
    using 11(4) by (intro json_string_escape) simp
  ultimately show ?case using g by (simp add: json_quote_def)
qed simp_all

lemma json_roundtrip: "json_ok j \<Longrightarrow> json_parse (json_print j) = Some j"
  using json_roundtrip_aux(1) [of j "2 * length (json_print j)" "[]"] by (simp add: json_parse_def)

section \<open>Storing into Go values\<close>

text \<open>A decoded member is stored into a field of a matching type; null leaves the field as it is and
  any other value is an error.\<close>

definition into_string :: "(string \<Rightarrow> 'a \<Rightarrow> 'a) \<Rightarrow> json \<Rightarrow> 'a \<Rightarrow> 'a option" where
  "into_string f v a =
     (case v of JNull \<Rightarrow> Some a | JString s \<Rightarrow> Some (f s a) | _ \<Rightarrow> None)"

definition into_bool :: "(bool \<Rightarrow> 'a \<Rightarrow> 'a) \<Rightarrow> json \<Rightarrow> 'a \<Rightarrow> 'a option" where
  "into_bool f v a =
     (case v of JNull \<Rightarrow> Some a | JBool b \<Rightarrow> Some (f b a) | _ \<Rightarrow> None)"

definition into_int :: "(int \<Rightarrow> 'a \<Rightarrow> 'a) \<Rightarrow> json \<Rightarrow> 'a \<Rightarrow> 'a option" where
  "into_int f v a =
     (case v of
        JNull \<Rightarrow> Some a
      | JInt i \<Rightarrow> if - (2 ^ 63) \<le> i \<and> i < 2 ^ 63 then Some (f i a) else None
      | _ \<Rightarrow> None)"

text \<open>The entries of an object are stored one after the other; a key is matched without regard
  to case and an unknown key is skipped.\<close>

fun store_fields :: "(string \<Rightarrow> json \<Rightarrow> 'a \<Rightarrow> 'a option) \<Rightarrow> (string \<times> json) list \<Rightarrow> 'a \<Rightarrow> 'a option" where
  "store_fields f [] a = Some a"
| "store_fields f ((k, v) # kvs) a =
     (case f (ToLower k) v a of None \<Rightarrow> None | Some a' \<Rightarrow> store_fields f kvs a')"

definition into_object :: "(string \<Rightarrow> json \<Rightarrow> 'a \<Rightarrow> 'a option) \<Rightarrow> json \<Rightarrow> 'a \<Rightarrow> 'a option" where
  "into_object f v a =
     (case v of JNull \<Rightarrow> Some a | JObject kvs \<Rightarrow> store_fields f kvs a | _ \<Rightarrow> None)"

end
