(* ===== verification/Go_Time.thy ===== *)
theory Go_Time
  imports Go_Text
begin

text \<open>
  Time stamps as \<open>time.RFC3339\<close> text: \<open>Format\<close> of a UTC time and \<open>Parse\<close> of the strict form
  (\<open>YYYY-MM-DDThh:mm:ss\<close>, an optional fraction, \<open>Z\<close> or an offset; the lenient spellings
  \<open>time.Parse\<close> also tolerates are rejected here). A time is the number of nanoseconds since
  January 1 of year 1. The theory shows that parsing what was formatted gives the time rounded
  down to the second.
\<close>

section \<open>The calendar\<close>

definition leap :: "int \<Rightarrow> bool" where
  "leap y \<longleftrightarrow> y mod 4 = 0 \<and> (y mod 100 \<noteq> 0 \<or> y mod 400 = 0)"

definition month_lengths :: "int \<Rightarrow> int list" where
  "month_lengths y = [31, if leap y then 29 else 28, 31, 30, 31, 30, 31, 31, 30, 31, 30, 31]"

definition days_before_year :: "int \<Rightarrow> int" where
  "days_before_year y = 365 * (y - 1) + (y - 1) div 4 - (y - 1) div 100 + (y - 1) div 400"

text \<open>A day number is split into 400-year cycles, centuries, 4-year cycles and years.\<close>

definition year_and_day :: "int \<Rightarrow> int \<times> int" where
  "year_and_day d =
     (let a = d div 146097; r = d mod 146097;
          b = min 3 (r div 36524); r2 = r - 36524 * b;
          c = r2 div 1461; r3 = r2 - 1461 * c;
          e = min 3 (r3 div 365)
      in (400 * a + 100 * b + 4 * c + e + 1, r3 - 365 * e))"

fun split_lengths :: "int list \<Rightarrow> int \<Rightarrow> nat \<times> int" where
  "split_lengths [] d = (0, d)"
| "split_lengths (l # ls) d = (if d < l then (0, d) else apfst Suc (split_lengths ls (d - l)))"

lemma split_lengths:
  assumes "split_lengths ls d = (k, r)" "0 \<le> d" "d < sum_list ls"
  shows "k < length ls \<and> 0 \<le> r \<and> r < ls ! k \<and> sum_list (take k ls) + r = d"
  using assms
proof (induction ls d arbitrary: k rule: split_lengths.induct)
  case (2 l ls d)
  show ?case
  proof (cases "d < l")
    case False
    then obtain k' where k': "split_lengths ls (d - l) = (k', r)" "k = Suc k'"
      using 2(2) by (cases "split_lengths ls (d - l)") auto
    then show ?thesis using 2(1) [OF False k'(1)] 2(3,4) False by auto
  qed (use 2 in auto)
qed simp

lemma capped_quotient:
  fixes r q k :: int
  assumes "0 \<le> r" "0 < q" "0 \<le> k"
  shows "0 \<le> min k (r div q)" "min k (r div q) \<le> k" "0 \<le> r - q * min k (r div q)"
    "min k (r div q) < k \<Longrightarrow> r - q * min k (r div q) < q"
proof -
  have "0 \<le> r div q" using assms by (simp add: pos_imp_zdiv_nonneg_iff)
  then show "0 \<le> min k (r div q)" using assms by simp
  show "min k (r div q) \<le> k" by simp
  have m: "r - q * (r div q) = r mod q" by (simp add: minus_mult_div_eq_mod)
  have "q * min k (r div q) \<le> q * (r div q)" using assms by simp
  moreover have "0 \<le> r mod q" using assms by simp
  ultimately show "0 \<le> r - q * min k (r div q)" using m by linarith
  show "r - q * min k (r div q) < q" if "min k (r div q) < k"
  proof -
    have "min k (r div q) = r div q" using that by linarith
    then show ?thesis using m assms by simp
  qed
qed

text \<open>The year of a decomposed day number, and when its day 365 exists.\<close>

lemma days_before_cycles:
  fixes a b c e :: int
  assumes "0 \<le> b" "b \<le> 3" "0 \<le> c" "c \<le> 24" "0 \<le> e" "e \<le> 3"
  shows "days_before_year (400 * a + 100 * b + 4 * c + e + 1) = 146097 * a + 36524 * b + 1461 * c + 365 * e"
proof -
  let ?z = "400 * a + 100 * b + 4 * c + e"
  have "?z div 4 = 100 * a + 25 * b + c"
    using assms by (intro int_div_pos_eq [of _ _ _ e]) simp_all
  moreover have "?z div 100 = 4 * a + b"
    using assms by (intro int_div_pos_eq [of _ _ _ "4 * c + e"]) simp_all
  moreover have "?z div 400 = a"
    using assms by (intro int_div_pos_eq [of _ _ _ "100 * b + 4 * c + e"]) simp_all
  ultimately show ?thesis by (simp add: days_before_year_def)
qed

lemma leap_cycles:
  fixes a b c :: int
  assumes "0 \<le> c" "c \<le> 24" "c = 24 \<longrightarrow> b = 3"
  shows "leap (400 * a + 100 * b + 4 * c + 3 + 1)"
proof (cases "c = 24")
  case True
  then have "400 * a + 100 * b + 4 * c + 3 + 1 = 400 * (a + 1)" using assms by simp
  then show ?thesis by (simp only: leap_def) simp
next
  case False
  let ?y = "400 * a + 100 * b + 4 * c + 3 + 1"
  have "?y mod 100 = 4 * c + 4"
    using assms False by (intro int_mod_pos_eq [of _ _ "4 * a + b"]) simp_all
  moreover have "?y mod 4 = 0"
    by (intro int_mod_pos_eq [of _ _ "100 * a + 25 * b + c + 1"]) simp_all
  ultimately show ?thesis using assms by (simp add: leap_def)
qed

lemma year_and_day:
  assumes "year_and_day d = (y, n)"
  shows "days_before_year y + n = d" "0 \<le> n" "n < sum_list (month_lengths y)"
proof -
  define a where "a = d div 146097"
  define r where "r = d mod 146097"
  define b where "b = min 3 (r div 36524)"
  define r2 where "r2 = r - 36524 * b"
  define c where "c = r2 div 1461"
  define r3 where "r3 = r2 - 1461 * c"
  define e where "e = min 3 (r3 div 365)"
  have y: "y = 400 * a + 100 * b + 4 * c + e + 1" and n: "n = r3 - 365 * e"
    using assms by (simp_all add: year_and_day_def Let_def a_def r_def b_def r2_def c_def r3_def e_def)
  have d: "d = 146097 * a + r" by (simp add: a_def r_def)
  have r: "0 \<le> r" "r < 146097" by (simp_all add: r_def)
  note b = capped_quotient [of r 36524 3, OF r(1), folded b_def, folded r2_def, simplified]
  have r2: "r2 \<le> 36524" using b r r2_def by linarith
  have r3: "r3 = r2 mod 1461" by (simp add: r3_def c_def minus_mult_div_eq_mod)
  then have r3b: "0 \<le> r3" "r3 < 1461" by simp_all
  have c: "0 \<le> c" "c \<le> 24" using b(3) zdiv_mono1 [OF r2, of 1461] by (simp_all add: c_def pos_imp_zdiv_nonneg_iff)
  note e = capped_quotient [of r3 365 3, OF r3b(1), folded e_def, folded n, simplified]
  have n3: "n \<le> 365" using e r3b n by linarith
  show "days_before_year y + n = d"
    unfolding y days_before_cycles [OF b(1,2) c e(1,2)] using d r2_def r3_def n by linarith
  show "0 \<le> n" by (rule e(3))
  have "leap y" if "n = 365"
  proof -
    have "e = 3" using that e by linarith
    moreover have "b = 3" if "c = 24"
      using b(4) b(2) that r3_def n \<open>n = 365\<close> \<open>e = 3\<close> by linarith
    ultimately show ?thesis using leap_cycles [OF c, of b a] y by simp
  qed
  then show "n < sum_list (month_lengths y)" using n3 by (cases "n = 365") (auto simp: month_lengths_def)
qed

section \<open>Text\<close>

definition pad2 :: "nat \<Rightarrow> string" where
  "pad2 n = [digit_char (n div 10 mod 10), digit_char (n mod 10)]"

definition pad4 :: "nat \<Rightarrow> string" where
  "pad4 n = (if n < 10000 then pad2 (n div 100) @ pad2 (n mod 100) else nat_digits n)"

definition year_text :: "int \<Rightarrow> string" where
  "year_text y = (if y < 0 then CHR ''-'' # pad4 (nat (- y)) else pad4 (nat y))"

definition FormatRFC3339 :: "gotime \<Rightarrow> string" where
  "FormatRFC3339 t =
     (let s = t div second; d = s div 86400; k = s mod 86400;
          (y, n) = year_and_day d;
          (m, day) = split_lengths (month_lengths y) n
      in year_text y @ ''-'' @ pad2 (Suc m) @ ''-'' @ pad2 (nat day + 1) @ ''T'' @
         pad2 (nat (k div 3600)) @ '':'' @ pad2 (nat (k div 60 mod 60)) @ '':'' @ pad2 (nat (k mod 60)) @ ''Z'')"

fun two_digits :: "string \<Rightarrow> (nat \<times> string) option" where
  "two_digits (a # b # s) =
     (case (digit_val a, digit_val b) of (Some x, Some y) \<Rightarrow> Some (10 * x + y, s) | _ \<Rightarrow> None)"
| "two_digits s = None"

text \<open>\<open>bounded lo hi\<close> reads two digits in a range; \<open>expect\<close> a literal.\<close>

definition bounded :: "nat \<Rightarrow> nat \<Rightarrow> string \<Rightarrow> (nat \<times> string) option" where
  "bounded lo hi s =
     (case two_digits s of Some (n, t) \<Rightarrow> if lo \<le> n \<and> n \<le> hi then Some (n, t) else None | None \<Rightarrow> None)"

definition fraction :: "string \<Rightarrow> int \<times> string" where
  "fraction s =
     (case s of
        c # t \<Rightarrow>
          (let ds = takeWhile (\<lambda>x. digit_val x \<noteq> None) t
           in if c = CHR ''.'' \<and> ds \<noteq> [] then
                (case digits_val 0 (take 9 (ds @ replicate 9 CHR ''0'')) of
                   Some n \<Rightarrow> (int n, drop (length ds) t) | None \<Rightarrow> (0, s))
              else (0, s))
      | [] \<Rightarrow> (0, s))"

definition offset :: "string \<Rightarrow> int option" where
  "offset s =
     (if s = ''Z'' then Some 0
      else case s of
        c # t \<Rightarrow>
          if c \<in> {CHR ''+'', CHR ''-''} then
            (case bounded 0 24 t of
               None \<Rightarrow> None
             | Some (h, u) \<Rightarrow>
                 (case Option.bind (drop_prefix '':'' u) (bounded 0 60) of
                    Some (m, []) \<Rightarrow> Some ((if c = CHR ''-'' then -1 else 1) * (int h * 3600 + int m * 60))
                  | _ \<Rightarrow> None))
          else None
      | [] \<Rightarrow> None)"

definition parse_date :: "string \<Rightarrow> (int \<times> string) option" where
  "parse_date s =
     Option.bind (two_digits s) (\<lambda>(c, s1).
     Option.bind (two_digits s1) (\<lambda>(x, s2).
     Option.bind (drop_prefix ''-'' s2) (\<lambda>s3.
     Option.bind (bounded 1 12 s3) (\<lambda>(m, s4).
     Option.bind (drop_prefix ''-'' s4) (\<lambda>s5.
       let y = int (100 * c + x); ls = month_lengths y
       in Option.bind (bounded 1 (nat (ls ! (m - 1))) s5) (\<lambda>(d, s6).
            Some (days_before_year y + sum_list (take (m - 1) ls) + int d - 1, s6)))))))"

definition parse_clock :: "string \<Rightarrow> (int \<times> string) option" where
  "parse_clock s =
     Option.bind (bounded 0 23 s) (\<lambda>(h, s1).
     Option.bind (drop_prefix '':'' s1) (\<lambda>s2.
     Option.bind (bounded 0 59 s2) (\<lambda>(m, s3).
     Option.bind (drop_prefix '':'' s3) (\<lambda>s4.
     Option.bind (bounded 0 59 s4) (\<lambda>(x, s5). Some (int (h * 3600 + m * 60 + x), s5))))))"

definition ParseRFC3339 :: "string \<Rightarrow> gotime option" where
  "ParseRFC3339 s =
     Option.bind (parse_date s) (\<lambda>(d, s1).
     Option.bind (drop_prefix ''T'' s1) (\<lambda>s2.
     Option.bind (parse_clock s2) (\<lambda>(k, s3).
       let (ns, s4) = fraction s3
       in map_option (\<lambda>z. (d * 86400 + k - z) * second + ns) (offset s4))))"

section \<open>Round trip\<close>

lemma two_digits_pad2: "n < 100 \<Longrightarrow> two_digits (pad2 n @ s) = Some (n, s)"
  by (simp add: pad2_def)

lemma bounded_pad2: "n < 100 \<Longrightarrow> lo \<le> n \<Longrightarrow> n \<le> hi \<Longrightarrow> bounded lo hi (pad2 n @ s) = Some (n, s)"
  by (simp add: bounded_def two_digits_pad2)

lemma bounded_nat:
  assumes "0 \<le> i" "i \<le> int hi" "hi < 100"
  shows "bounded 0 hi (pad2 (nat i) @ s) = Some (nat i, s)"
  using assms by (intro bounded_pad2) linarith+

lemma clock_sum:
  fixes k :: int
  shows "k div 3600 * 3600 + k div 60 mod 60 * 60 + k mod 60 = k"
proof -
  have "k div 60 div 60 = k div 3600" using zdiv_zmult2_eq [of 60 k 60] by simp
  then have "k div 3600 * 60 + k div 60 mod 60 = k div 60" using div_mult_mod_eq [of "k div 60" 60] by simp
  then have "(k div 3600 * 60 + k div 60 mod 60) * 60 + k mod 60 = k" by simp
  then show ?thesis by (simp only: distrib_right mult.assoc mult_numeral_1 numeral_times_numeral semiring_norm)
qed

lemma mod_60: "(x :: int) mod 60 \<le> 59" "0 \<le> (x :: int) mod 60"
  using pos_mod_bound [of 60 x] by simp_all

lemma bounded_mod_60: "bounded 0 59 (pad2 (nat (x mod 60)) @ t) = Some (nat (x mod 60), t)"
  using mod_60 by (intro bounded_nat) simp_all

lemma parse_clock_text:
  assumes "0 \<le> k" "k < 86400"
  shows "parse_clock (pad2 (nat (k div 3600)) @ '':'' @ pad2 (nat (k div 60 mod 60)) @ '':'' @
    pad2 (nat (k mod 60)) @ s) = Some (k, s)"
proof -
  have "k \<le> 86399" using assms by simp
  from zdiv_mono1 [OF this, of 3600] have h: "k div 3600 \<le> int 23" by simp
  have h0: "0 \<le> k div 3600" using assms(1) by (simp add: pos_imp_zdiv_nonneg_iff)
  have b: "bounded 0 23 (pad2 (nat (k div 3600)) @ t) = Some (nat (k div 3600), t)" for t
    by (rule bounded_nat [OF h0 h]) simp
  have "int (nat (k div 3600) * 3600 + nat (k div 60 mod 60) * 60 + nat (k mod 60)) = k"
    by (simp only: of_nat_add of_nat_mult int_nat_eq h0 mod_60 if_True of_nat_numeral clock_sum)
  then show ?thesis
    by (simp only: parse_clock_def b bounded_mod_60 bind.bind_lunit drop_prefix_append prod.case)
qed

lemma parse_date_text:
  assumes "0 \<le> y" "y < 10000" "m < 12" "0 \<le> d" "d < month_lengths y ! m"
  shows "parse_date (year_text y @ ''-'' @ pad2 (Suc m) @ ''-'' @ pad2 (nat d + 1) @ s) =
    Some (days_before_year y + sum_list (take m (month_lengths y)) + d, s)"
proof -
  have l: "month_lengths y ! m \<le> 31"
    using assms(3) by (auto simp: month_lengths_def nth_Cons' )
  have yt: "year_text y = pad2 (nat y div 100) @ pad2 (nat y mod 100)"
  proof -
    have "nat y < 10000" using assms(1,2) by linarith
    then show ?thesis using assms(1) by (simp add: year_text_def pad4_def)
  qed
  have c: "nat y div 100 < 100" "nat y mod 100 < 100" using assms(1,2) by simp_all
  have "100 * (nat y div 100) + nat y mod 100 = nat y" by simp
  then have y: "100 * int (nat y div 100) + int (nat y mod 100) = y" using assms(1) by linarith
  have "bounded 1 12 (pad2 (Suc m) @ t) = Some (Suc m, t)" for t
    using assms(3) by (intro bounded_pad2) simp_all
  moreover have "bounded 1 (nat (month_lengths y ! m)) (pad2 (nat d + 1) @ t) = Some (nat d + 1, t)" for t
    using assms(4,5) l by (intro bounded_pad2) auto
  ultimately show ?thesis
    using assms(4) c by (simp add: parse_date_def yt two_digits_pad2 y)
qed

lemma zdiv_step:
  fixes y k :: int
  assumes "0 < k"
  shows "y div k = (y - 1) div k + (if y mod k = 0 then 1 else 0)"
proof (cases "y mod k = 0")
  case True
  then have "y - 1 = k * (y div k - 1) + (k - 1)" using div_mult_mod_eq [of y k] by (simp add: algebra_simps)
  from int_div_pos_eq [OF this] have "(y - 1) div k = y div k - 1" using assms by simp
  with True show ?thesis by simp
next
  case False
  have "y - 1 = k * (y div k) + (y mod k - 1)" using div_mult_mod_eq [of y k] by (simp add: algebra_simps)
  moreover have "0 \<le> y mod k - 1" "y mod k - 1 < k"
    using False pos_mod_sign [OF assms, of y] pos_mod_bound [OF assms, of y] by linarith+
  ultimately have "(y - 1) div k = y div k" by (rule int_div_pos_eq)
  with False show ?thesis by simp
qed

lemma leap_sum:
  fixes y p4 p100 p400 q4 q100 q400 :: int
  assumes "q4 = p4 + (if b4 then 1 else 0)" "q100 = p100 + (if b100 then 1 else 0)"
    "q400 = p400 + (if b400 then 1 else 0)" "b100 \<longrightarrow> b4" "b400 \<longrightarrow> b100"
  shows "365 * y + q4 - q100 + q400 =
    365 * (y - 1) + p4 - p100 + p400 + (if b4 \<and> (\<not> b100 \<or> b400) then 366 else 365)"
  using assms by (cases b4; cases b100; cases b400) auto

lemma days_before_year_Suc: "days_before_year (y + 1) = days_before_year y + (if leap y then 366 else 365)"
proof -
  have "y mod 100 = 0 \<longrightarrow> y mod 4 = 0" using mod_mod_cancel [of 4 100 y] by auto
  moreover have "y mod 400 = 0 \<longrightarrow> y mod 100 = 0" using mod_mod_cancel [of 100 400 y] by auto
  ultimately show ?thesis
    unfolding days_before_year_def leap_def add_diff_cancel_right'
    by (intro leap_sum zdiv_step) simp_all
qed

lemma days_before_year_mono: "y \<le> y' \<Longrightarrow> days_before_year y \<le> days_before_year y'"
  by (induction y' rule: int_ge_induct) (auto simp: days_before_year_Suc)

text \<open>The times the formatter writes with a four-digit year.\<close>

definition time_ok :: "gotime \<Rightarrow> bool" where
  "time_ok t \<longleftrightarrow> 0 \<le> t \<and> t < days_before_year 10000 * 86400 * second"

lemma fraction_Z: "fraction ''Z'' = (0, ''Z'')" and offset_Z: "offset ''Z'' = Some 0"
  by (simp_all add: fraction_def offset_def)

lemma year_range:
  assumes "year_and_day d = (y, n)" "0 \<le> d" "d < days_before_year 10000"
  shows "0 \<le> y" "y < 10000"
proof -
  note y = year_and_day [OF assms(1)]
  show "y < 10000"
  proof (rule ccontr)
    assume "\<not> y < 10000"
    then have "days_before_year 10000 \<le> days_before_year y" by (intro days_before_year_mono) simp
    then show False using y(1,2) assms(3) by linarith
  qed
  show "0 \<le> y"
  proof (rule ccontr)
    assume "\<not> 0 \<le> y"
    then have "days_before_year (y + 1) \<le> days_before_year 1" by (intro days_before_year_mono) simp
    moreover have "days_before_year y + n < days_before_year (y + 1)"
      using y(3) by (auto simp: month_lengths_def days_before_year_Suc)
    moreover have "days_before_year 1 = 0" by (simp add: days_before_year_def)
    ultimately show False using assms(2) y(1) by linarith
  qed
qed

lemma parse_format: "time_ok t \<Longrightarrow> ParseRFC3339 (FormatRFC3339 t) = Some (t div second * second)"
proof -
  assume t: "time_ok t"
  define s where "s = t div second"
  define d where "d = s div 86400"
  define k where "k = s mod 86400"
  obtain y n where yn: "year_and_day d = (y, n)" by fastforce
  obtain m day where md: "split_lengths (month_lengths y) n = (m, day)" by fastforce
  note y = year_and_day [OF yn]
  note m = split_lengths [OF md y(2,3)]
  have "0 \<le> s" "s < days_before_year 10000 * 86400"
    using t by (auto simp: s_def time_ok_def pos_imp_zdiv_nonneg_iff div_less_iff_less_mult)
  then have "0 \<le> d" "d < days_before_year 10000"
    by (auto simp: d_def pos_imp_zdiv_nonneg_iff div_less_iff_less_mult)
  note yr = year_range [OF yn this]
  have date: "parse_date (year_text y @ ''-'' @ pad2 (Suc m) @ ''-'' @ pad2 (Suc (nat day)) @ u) = Some (d, u)" for u
    using parse_date_text [OF yr, of m day u] m y(1) by (simp add: month_lengths_def)
  have clock: "parse_clock (pad2 (nat (k div 3600)) @ '':'' @ pad2 (nat (k div 60 mod 60)) @ '':'' @
      pad2 (nat (k mod 60)) @ u) = Some (k, u)" for u
    by (rule parse_clock_text) (simp_all add: k_def)
  have "FormatRFC3339 t = year_text y @ ''-'' @ pad2 (Suc m) @ ''-'' @ pad2 (Suc (nat day)) @ ''T'' @
      pad2 (nat (k div 3600)) @ '':'' @ pad2 (nat (k div 60 mod 60)) @ '':'' @ pad2 (nat (k mod 60)) @ ''Z''"
    using yn md by (simp add: FormatRFC3339_def s_def d_def k_def Let_def)
  then have "ParseRFC3339 (FormatRFC3339 t) = Some ((d * 86400 + k - 0) * second + 0)"
    by (simp only: ParseRFC3339_def date clock bind.bind_lunit drop_prefix_append prod.case Let_def
      fraction_Z offset_Z option.map)
  moreover have "d * 86400 + k = s" by (simp add: d_def k_def)
  ultimately show ?thesis by (simp add: s_def)
qed

end
