(* ===== verification/Server_Rows.thy ===== *)
theory Server_Rows
  imports Omni_Models Go_JSON Go_Time
begin

text \<open>
  Rows of the \<open>servers\<close> table (\<open>core/store/rows.go\<close>): the columns, the values written for a
  profile and the profile read from a row. A row is the list of its column values in the order
  of \<open>serverColumnList\<close>; a scanned integer or text is converted as \<open>database/sql\<close> does. The
  wording library errors append to a message is left out.
\<close>

datatype sql_value = SText string | SInt int

type_synonym row = "sql_value list"

definition serverColumnList :: "string list" where
  "serverColumnList =
     [''id'', ''name'', ''protocol'', ''address'', ''port'', ''username'', ''password'', ''cipher'',
      ''uuid'', ''flow'', ''security'', ''global_padding'', ''authenticated_length'', ''packet_encoding'',
      ''tls_enabled'', ''tls_allow_insecure'', ''tls_server_name'', ''tls_alpn'', ''tls_fingerprint'',
      ''transport_type'', ''transport_path'', ''transport_host'', ''transport_max_early_data'',
      ''transport_early_data_header_name'', ''ssh_user'', ''ssh_host_key'', ''ssh_private_key'',
      ''reality_enabled'', ''reality_public_key'', ''reality_short_id'', ''reality_spider_x'',
      ''enabled'', ''tags'', ''group_name'', ''favorite'', ''last_latency_ms'', ''last_tested_at'',
      ''created_at'', ''updated_at'', ''secret_refs'']"

record serverRow =
  sr_profile :: ServerProfile
  sr_secretRef :: "string list"

definition boolInt :: "bool \<Rightarrow> int" where
  "boolInt b = (if b then 1 else 0)"

definition scan_string :: "sql_value \<Rightarrow> string" where
  "scan_string v = (case v of SText s \<Rightarrow> s | SInt i \<Rightarrow> Itoa i)"

definition scan_int :: "sql_value \<Rightarrow> int option" where
  "scan_int v = (case v of SInt i \<Rightarrow> Some i | SText s \<Rightarrow> Atoi s)"

text \<open>A JSON array of strings; null decodes to a nil slice, a null element to an empty string.\<close>

definition strings_json :: "string list \<Rightarrow> string" where
  "strings_json xs = json_print (JArray (map JString xs))"

fun json_strings :: "json list \<Rightarrow> string list option" where
  "json_strings [] = Some []"
| "json_strings (JString s # js) = map_option ((#) s) (json_strings js)"
| "json_strings (JNull # js) = map_option ((#) []) (json_strings js)"
| "json_strings (_ # js) = None"

definition parse_strings :: "string \<Rightarrow> string list option" where
  "parse_strings s =
     (case json_parse s of
        Some JNull \<Rightarrow> Some [] | Some (JArray js) \<Rightarrow> json_strings js | _ \<Rightarrow> None)"

text \<open>The optional columns: empty text and \<open>[]\<close> are not decoded.\<close>

definition strings_column :: "string \<Rightarrow> string list option" where
  "strings_column s = (if s = '''' \<or> s = ''[]'' then Some [] else parse_strings s)"

definition time_column :: "string \<Rightarrow> gotime option" where
  "time_column s = (if s = '''' then Some 0 else ParseRFC3339 s)"

definition column_error :: "string \<Rightarrow> string \<Rightarrow> goerror" where
  "column_error col sid = plain_error (''store: parse '' @ col @ '' for '' @ sid)"

definition scan_transport :: "row \<Rightarrow> TransportConfig option" where
  "scan_transport r =
     (if scan_string (r ! 19) \<noteq> '''' \<or> scan_string (r ! 20) \<noteq> '''' \<or> scan_string (r ! 21) \<noteq> '''' then
        Some \<lparr>tr_Type = scan_string (r ! 19), tr_Path = scan_string (r ! 20), tr_Host = scan_string (r ! 21),
          tr_MaxEarlyData = word_of_int (the (scan_int (r ! 22))), tr_EarlyDataHeaderName = scan_string (r ! 23)\<rparr>
      else None)"

definition scan_reality :: "row \<Rightarrow> RealityConfig option" where
  "scan_reality r =
     (if the (scan_int (r ! 27)) \<noteq> 0 \<or> scan_string (r ! 28) \<noteq> '''' \<or> scan_string (r ! 29) \<noteq> '''' \<or>
         scan_string (r ! 30) \<noteq> '''' then
        Some \<lparr>re_Enabled = the (scan_int (r ! 27)) \<noteq> 0, re_PublicKey = scan_string (r ! 28),
          re_ShortID = scan_string (r ! 29), re_SpiderX = scan_string (r ! 30)\<rparr>
      else None)"

text \<open>The profile of a scanned row before its JSON and time columns are decoded.\<close>

definition scan_profile :: "row \<Rightarrow> ServerProfile" where
  "scan_profile r =
     (let txt = (\<lambda>i. scan_string (r ! i)); num = (\<lambda>i. the (scan_int (r ! i)))
      in \<lparr>sp_ID = txt 0, sp_Name = txt 1, sp_Protocol = txt 2, sp_Address = txt 3, sp_Port = num 4,
          sp_Username = txt 5, sp_Password = txt 6, sp_Cipher = txt 7, sp_UUID = txt 8, sp_Flow = txt 9,
          sp_Security = txt 10,
          sp_TLS = \<lparr>tls_Enabled = num 14 \<noteq> 0, tls_AllowInsecure = num 15 \<noteq> 0, tls_ServerName = txt 16,
            tls_ALPN = [], tls_Fingerprint = txt 18\<rparr>,
          sp_SSH = \<lparr>ssh_User = txt 24, ssh_HostKey = txt 25, ssh_PrivateKey = txt 26\<rparr>,
          sp_Transport = scan_transport r, sp_GlobalPadding = num 11 \<noteq> 0,
          sp_AuthenticatedLength = num 12 \<noteq> 0, sp_PacketEncoding = txt 13, sp_Enabled = num 31 \<noteq> 0,
          sp_Group = txt 33, sp_Tags = [], sp_Reality = scan_reality r, sp_Favorite = num 34 \<noteq> 0,
          sp_LastLatencyMS = num 35, sp_LastTestedAt = None, sp_CreatedAt = 0, sp_UpdatedAt = 0\<rparr>)"

definition int_columns :: "nat list" where
  "int_columns = [4, 11, 12, 14, 15, 22, 27, 31, 34, 35]"

definition scanServer :: "row \<Rightarrow> goerror + serverRow" where
  "scanServer r =
     (if length r \<noteq> length serverColumnList \<or> (\<exists>i \<in> set int_columns. scan_int (r ! i) = None)
      then Inl (plain_error ''sql: Scan error'')
      else
        (let p = scan_profile r; sid = sp_ID p; tested = scan_string (r ! 36)
         in case strings_column (scan_string (r ! 17)) of
              None \<Rightarrow> Inl (column_error ''tls_alpn'' sid)
            | Some alpn \<Rightarrow>
            (case strings_column (scan_string (r ! 32)) of
               None \<Rightarrow> Inl (column_error ''tags'' sid)
             | Some tags \<Rightarrow>
            (case (if tested = '''' then Some None else map_option Some (ParseRFC3339 tested)) of
               None \<Rightarrow> Inl (column_error ''last_tested_at'' sid)
             | Some lta \<Rightarrow>
            (case time_column (scan_string (r ! 37)) of
               None \<Rightarrow> Inl (column_error ''created_at'' sid)
             | Some created \<Rightarrow>
            (case time_column (scan_string (r ! 38)) of
               None \<Rightarrow> Inl (column_error ''updated_at'' sid)
             | Some updated \<Rightarrow>
            (case strings_column (scan_string (r ! 39)) of
               None \<Rightarrow> Inl (column_error ''secret_refs'' sid)
             | Some refs \<Rightarrow>
                 Inr \<lparr>sr_profile = p\<lparr>sp_TLS := (sp_TLS p)\<lparr>tls_ALPN := alpn\<rparr>, sp_Tags := tags,
                        sp_LastTestedAt := lta, sp_CreatedAt := created, sp_UpdatedAt := updated\<rparr>,
                      sr_secretRef = refs\<rparr>)))))))"

text \<open>The values written for a profile. A nil list of refs is written as \<open>null\<close>.\<close>

definition serverValues :: "ServerProfile \<Rightarrow> string list \<Rightarrow> row" where
  "serverValues p refs =
     [SText (sp_ID p), SText (sp_Name p), SText (sp_Protocol p), SText (sp_Address p), SInt (sp_Port p),
      SText (sp_Username p), SText (sp_Password p), SText (sp_Cipher p), SText (sp_UUID p),
      SText (sp_Flow p), SText (sp_Security p), SInt (boolInt (sp_GlobalPadding p)),
      SInt (boolInt (sp_AuthenticatedLength p)), SText (sp_PacketEncoding p),
      SInt (boolInt (tls_Enabled (sp_TLS p))), SInt (boolInt (tls_AllowInsecure (sp_TLS p))),
      SText (tls_ServerName (sp_TLS p)), SText (strings_json (tls_ALPN (sp_TLS p))),
      SText (tls_Fingerprint (sp_TLS p)),
      SText (case sp_Transport p of None \<Rightarrow> '''' | Some t \<Rightarrow> tr_Type t),
      SText (case sp_Transport p of None \<Rightarrow> '''' | Some t \<Rightarrow> tr_Path t),
      SText (case sp_Transport p of None \<Rightarrow> '''' | Some t \<Rightarrow> tr_Host t),
      SInt (case sp_Transport p of None \<Rightarrow> 0 | Some t \<Rightarrow> uint (tr_MaxEarlyData t)),
      SText (case sp_Transport p of None \<Rightarrow> '''' | Some t \<Rightarrow> tr_EarlyDataHeaderName t),
      SText (ssh_User (sp_SSH p)), SText (ssh_HostKey (sp_SSH p)), SText (ssh_PrivateKey (sp_SSH p)),
      SInt (case sp_Reality p of None \<Rightarrow> 0 | Some x \<Rightarrow> boolInt (re_Enabled x)),
      SText (case sp_Reality p of None \<Rightarrow> '''' | Some x \<Rightarrow> re_PublicKey x),
      SText (case sp_Reality p of None \<Rightarrow> '''' | Some x \<Rightarrow> re_ShortID x),
      SText (case sp_Reality p of None \<Rightarrow> '''' | Some x \<Rightarrow> re_SpiderX x),
      SInt (boolInt (sp_Enabled p)), SText (strings_json (sp_Tags p)), SText (sp_Group p),
      SInt (boolInt (sp_Favorite p)), SInt (sp_LastLatencyMS p),
      SText (case sp_LastTestedAt p of None \<Rightarrow> '''' | Some t \<Rightarrow> FormatRFC3339 t),
      SText (FormatRFC3339 (sp_CreatedAt p)), SText (FormatRFC3339 (sp_UpdatedAt p)),
      SText (if refs = [] then ''null'' else strings_json refs)]"

definition updateClause :: "string list" where
  "updateClause = filter (\<lambda>c. c \<noteq> ''id'') serverColumnList"

section \<open>What a row keeps of a profile\<close>

text \<open>Times are kept to the second; a transport without type, path and host and a reality
  section without any content come back as nil.\<close>

definition whole_second :: "gotime \<Rightarrow> gotime" where
  "whole_second t = t div second * second"

definition stored_form :: "ServerProfile \<Rightarrow> ServerProfile" where
  "stored_form p =
     p\<lparr>sp_Transport := (case sp_Transport p of
          Some t \<Rightarrow> if tr_Type t = '''' \<and> tr_Path t = '''' \<and> tr_Host t = '''' then None else Some t | None \<Rightarrow> None),
       sp_Reality := (case sp_Reality p of
          Some x \<Rightarrow> if \<not> re_Enabled x \<and> re_PublicKey x = '''' \<and> re_ShortID x = '''' \<and> re_SpiderX x = ''''
            then None else Some x | None \<Rightarrow> None),
       sp_LastTestedAt := map_option whole_second (sp_LastTestedAt p),
       sp_CreatedAt := whole_second (sp_CreatedAt p), sp_UpdatedAt := whole_second (sp_UpdatedAt p)\<rparr>"

text \<open>Profiles whose times have a four-digit year and whose lists hold valid UTF-8.\<close>

definition storable :: "ServerProfile \<Rightarrow> bool" where
  "storable p \<longleftrightarrow>
     (\<forall>s \<in> set (tls_ALPN (sp_TLS p)) \<union> set (sp_Tags p). valid_utf8 s) \<and>
     time_ok (sp_CreatedAt p) \<and> time_ok (sp_UpdatedAt p) \<and>
     (case sp_LastTestedAt p of Some t \<Rightarrow> time_ok t | None \<Rightarrow> True)"

section \<open>Round trip\<close>

lemma json_strings_map [simp]: "json_strings (map JString xs) = Some xs"
  by (induction xs) simp_all

lemma strings_json_empty: "strings_json [] = ''[]''"
  by (simp add: strings_json_def)

lemma strings_column_json:
  assumes "\<forall>s \<in> set xs. valid_utf8 s"
  shows "strings_column (strings_json xs) = Some xs"
proof (cases xs)
  case Nil
  then show ?thesis by (simp add: strings_column_def strings_json_empty)
next
  case (Cons x ys)
  have "json_ok (JArray (map JString xs))" using assms by simp
  then have "parse_strings (strings_json xs) = Some xs"
    unfolding parse_strings_def strings_json_def json_roundtrip [OF \<open>json_ok _\<close>] by simp
  moreover have "strings_json xs \<noteq> ''''" "strings_json xs \<noteq> ''[]''"
    using Cons by (simp_all add: strings_json_def json_quote_def)
  ultimately show ?thesis by (simp add: strings_column_def)
qed

lemma refs_column:
  assumes "\<forall>s \<in> set refs. valid_utf8 s"
  shows "strings_column (if refs = [] then ''null'' else strings_json refs) = Some refs"
proof (cases "refs = []")
  case True
  have "json_parse (json_print JNull) = Some JNull" by (rule json_roundtrip) simp
  then show ?thesis using True by (simp add: strings_column_def parse_strings_def)
next
  case False
  then show ?thesis using strings_column_json [OF assms] by simp
qed

lemma year_text_not_Nil: "FormatRFC3339 t \<noteq> ''''"
  by (simp add: FormatRFC3339_def Let_def split: prod.split)

lemma time_column_format: "time_ok t \<Longrightarrow> time_column (FormatRFC3339 t) = Some (whole_second t)"
  by (simp add: time_column_def year_text_not_Nil parse_format whole_second_def)

lemma boolInt_eq [simp]: "(boolInt b \<noteq> 0) = b" "(boolInt b = 0) = (\<not> b)"
  by (simp_all add: boolInt_def)

text \<open>The columns of a written row.\<close>

lemma length_serverValues [simp]: "length (serverValues p refs) = 40"
  by (simp add: serverValues_def)

lemma serverValues_nth:
  "serverValues p refs ! 0 = SText (sp_ID p)"
  "serverValues p refs ! Suc 0 = SText (sp_Name p)"
  "serverValues p refs ! 2 = SText (sp_Protocol p)"
  "serverValues p refs ! 3 = SText (sp_Address p)"
  "serverValues p refs ! 4 = SInt (sp_Port p)"
  "serverValues p refs ! 5 = SText (sp_Username p)"
  "serverValues p refs ! 6 = SText (sp_Password p)"
  "serverValues p refs ! 7 = SText (sp_Cipher p)"
  "serverValues p refs ! 8 = SText (sp_UUID p)"
  "serverValues p refs ! 9 = SText (sp_Flow p)"
  "serverValues p refs ! 10 = SText (sp_Security p)"
  "serverValues p refs ! 11 = SInt (boolInt (sp_GlobalPadding p))"
  "serverValues p refs ! 12 = SInt (boolInt (sp_AuthenticatedLength p))"
  "serverValues p refs ! 13 = SText (sp_PacketEncoding p)"
  "serverValues p refs ! 14 = SInt (boolInt (tls_Enabled (sp_TLS p)))"
  "serverValues p refs ! 15 = SInt (boolInt (tls_AllowInsecure (sp_TLS p)))"
  "serverValues p refs ! 16 = SText (tls_ServerName (sp_TLS p))"
  "serverValues p refs ! 17 = SText (strings_json (tls_ALPN (sp_TLS p)))"
  "serverValues p refs ! 18 = SText (tls_Fingerprint (sp_TLS p))"
  "serverValues p refs ! 19 = SText (case sp_Transport p of None \<Rightarrow> '''' | Some t \<Rightarrow> tr_Type t)"
  "serverValues p refs ! 20 = SText (case sp_Transport p of None \<Rightarrow> '''' | Some t \<Rightarrow> tr_Path t)"
  "serverValues p refs ! 21 = SText (case sp_Transport p of None \<Rightarrow> '''' | Some t \<Rightarrow> tr_Host t)"
  "serverValues p refs ! 22 = SInt (case sp_Transport p of None \<Rightarrow> 0 | Some t \<Rightarrow> uint (tr_MaxEarlyData t))"
  "serverValues p refs ! 23 = SText (case sp_Transport p of None \<Rightarrow> '''' | Some t \<Rightarrow> tr_EarlyDataHeaderName t)"
  "serverValues p refs ! 24 = SText (ssh_User (sp_SSH p))"
  "serverValues p refs ! 25 = SText (ssh_HostKey (sp_SSH p))"
  "serverValues p refs ! 26 = SText (ssh_PrivateKey (sp_SSH p))"
  "serverValues p refs ! 27 = SInt (case sp_Reality p of None \<Rightarrow> 0 | Some x \<Rightarrow> boolInt (re_Enabled x))"
  "serverValues p refs ! 28 = SText (case sp_Reality p of None \<Rightarrow> '''' | Some x \<Rightarrow> re_PublicKey x)"
  "serverValues p refs ! 29 = SText (case sp_Reality p of None \<Rightarrow> '''' | Some x \<Rightarrow> re_ShortID x)"
  "serverValues p refs ! 30 = SText (case sp_Reality p of None \<Rightarrow> '''' | Some x \<Rightarrow> re_SpiderX x)"
  "serverValues p refs ! 31 = SInt (boolInt (sp_Enabled p))"
  "serverValues p refs ! 32 = SText (strings_json (sp_Tags p))"
  "serverValues p refs ! 33 = SText (sp_Group p)"
  "serverValues p refs ! 34 = SInt (boolInt (sp_Favorite p))"
  "serverValues p refs ! 35 = SInt (sp_LastLatencyMS p)"
  "serverValues p refs ! 36 = SText (case sp_LastTestedAt p of None \<Rightarrow> '''' | Some t \<Rightarrow> FormatRFC3339 t)"
  "serverValues p refs ! 37 = SText (FormatRFC3339 (sp_CreatedAt p))"
  "serverValues p refs ! 38 = SText (FormatRFC3339 (sp_UpdatedAt p))"
  "serverValues p refs ! 39 = SText (if refs = [] then ''null'' else strings_json refs)"
  by (simp_all add: serverValues_def)

lemma scan_simps [simp]:
  "scan_string (SText s) = s" "scan_int (SInt i) = Some i"
  by (simp_all add: scan_string_def scan_int_def)

lemma scan_transport_values:
  "scan_transport (serverValues p refs) = sp_Transport (stored_form p)"
  by (auto simp: scan_transport_def serverValues_nth stored_form_def split: option.split)

lemma scan_reality_values:
  "scan_reality (serverValues p refs) = sp_Reality (stored_form p)"
  by (auto simp: scan_reality_def serverValues_nth stored_form_def split: option.split)

lemma scan_profile_values:
  "scan_profile (serverValues p refs) =
     (stored_form p)\<lparr>sp_TLS := (sp_TLS p)\<lparr>tls_ALPN := []\<rparr>, sp_Tags := [], sp_LastTestedAt := None,
       sp_CreatedAt := 0, sp_UpdatedAt := 0\<rparr>"
  unfolding scan_profile_def Let_def scan_transport_values scan_reality_values
  by (simp add: serverValues_nth stored_form_def)

lemma scan_values:
  assumes "storable p" "\<forall>s \<in> set refs. valid_utf8 s"
  shows "scanServer (serverValues p refs) = Inr \<lparr>sr_profile = stored_form p, sr_secretRef = refs\<rparr>"
proof -
  have ints: "\<not> (\<exists>i \<in> set int_columns. scan_int (serverValues p refs ! i) = None)"
    by (simp add: int_columns_def serverValues_nth)
  have len: "length serverColumnList = 40" by (simp add: serverColumnList_def)
  have alpn: "strings_column (scan_string (serverValues p refs ! 17)) = Some (tls_ALPN (sp_TLS p))"
    and tags: "strings_column (scan_string (serverValues p refs ! 32)) = Some (sp_Tags p)"
    and rf: "strings_column (scan_string (serverValues p refs ! 39)) = Some refs"
    using assms by (simp_all only: serverValues_nth scan_simps refs_column)
      (auto simp: storable_def strings_column_json)
  have times: "time_column (scan_string (serverValues p refs ! 37)) = Some (whole_second (sp_CreatedAt p))"
    "time_column (scan_string (serverValues p refs ! 38)) = Some (whole_second (sp_UpdatedAt p))"
    using assms(1) by (simp_all add: serverValues_nth storable_def time_column_format)
  have tested: "(if scan_string (serverValues p refs ! 36) = '''' then Some None
      else map_option Some (ParseRFC3339 (scan_string (serverValues p refs ! 36)))) =
      Some (map_option whole_second (sp_LastTestedAt p))"
    using assms(1) by (auto simp: serverValues_nth storable_def year_text_not_Nil parse_format whole_second_def
      split: option.split)
  show ?thesis
    unfolding scanServer_def Let_def length_serverValues len alpn tags tested times rf scan_profile_values
    using ints by (simp add: stored_form_def)
qed

lemma stored_form_idem [simp]: "stored_form (stored_form p) = stored_form p"
  by (auto simp: stored_form_def whole_second_def map_option_case split: option.split)

lemma stored_form_sel [simp]:
  "sp_ID (stored_form p) = sp_ID p" "sp_Password (stored_form p) = sp_Password p"
  "sp_UUID (stored_form p) = sp_UUID p" "sp_SSH (stored_form p) = sp_SSH p"
  "sp_CreatedAt (stored_form p) = whole_second (sp_CreatedAt p)"
  "sp_Enabled (stored_form p) = sp_Enabled p" "sp_Name (stored_form p) = sp_Name p"
  by (simp_all add: stored_form_def)

end
