(* ===== verification/Profile_JSON.thy ===== *)
theory Profile_JSON
  imports Omni_Models Go_JSON Go_Time Server_Rows
begin

text \<open>
  The JSON form of a server profile, as \<open>encoding/json\<close> prints and reads the struct tags of
  \<open>core/models/server.go\<close>: the fields in the order of the struct, empty ones omitted where the
  tag says so, times in RFC 3339 with the fraction of the second. A time is read from the
  unescaped text.
\<close>

section \<open>Printing\<close>

definition opt :: "bool \<Rightarrow> string \<Rightarrow> json \<Rightarrow> (string \<times> json) list" where
  "opt b k v = (if b then [(k, v)] else [])"

definition opt_string :: "string \<Rightarrow> string \<Rightarrow> (string \<times> json) list" where
  "opt_string k s = opt (s \<noteq> []) k (JString s)"

definition opt_strings :: "string \<Rightarrow> string list \<Rightarrow> (string \<times> json) list" where
  "opt_strings k ss = opt (ss \<noteq> []) k (JArray (map JString ss))"

definition opt_pointer :: "string \<Rightarrow> ('a \<Rightarrow> json) \<Rightarrow> 'a option \<Rightarrow> (string \<times> json) list" where
  "opt_pointer k f x = (case x of None \<Rightarrow> [] | Some a \<Rightarrow> [(k, f a)])"

text \<open>The fraction of a second is printed without its trailing zeros.\<close>

fun strip_zeros :: "string \<Rightarrow> string" where
  "strip_zeros [] = []"
| "strip_zeros (c # s) = (case strip_zeros s of [] \<Rightarrow> if c = CHR ''0'' then [] else [c] | t \<Rightarrow> c # t)"

definition pad9 :: "nat \<Rightarrow> string" where
  "pad9 n = (let ds = nat_digits n in replicate (9 - length ds) CHR ''0'' @ ds)"

definition FormatRFC3339Nano :: "gotime \<Rightarrow> string" where
  "FormatRFC3339Nano t =
     (let ns = nat (t mod second)
      in butlast (FormatRFC3339 t) @ (if ns = 0 then '''' else ''.'' @ strip_zeros (pad9 ns)) @ ''Z'')"

definition time_json :: "gotime \<Rightarrow> json" where
  "time_json t = JString (FormatRFC3339Nano t)"

definition tls_json :: "TLSConfig \<Rightarrow> json" where
  "tls_json t =
     JObject ([(''enabled'', JBool (tls_Enabled t)), (''allowInsecure'', JBool (tls_AllowInsecure t))] @
       opt_string ''serverName'' (tls_ServerName t) @ opt_strings ''alpn'' (tls_ALPN t) @
       opt_string ''fingerprint'' (tls_Fingerprint t))"

definition ssh_json :: "SSHConfig \<Rightarrow> json" where
  "ssh_json s =
     JObject (opt_string ''user'' (ssh_User s) @ opt_string ''hostKey'' (ssh_HostKey s) @
       opt_string ''privateKey'' (ssh_PrivateKey s))"

definition transport_json :: "TransportConfig \<Rightarrow> json" where
  "transport_json t =
     JObject (opt_string ''type'' (tr_Type t) @ opt_string ''path'' (tr_Path t) @ opt_string ''host'' (tr_Host t) @
       opt (tr_MaxEarlyData t \<noteq> 0) ''maxEarlyData'' (JInt (uint (tr_MaxEarlyData t))) @
       opt_string ''earlyDataHeaderName'' (tr_EarlyDataHeaderName t))"

definition reality_json :: "RealityConfig \<Rightarrow> json" where
  "reality_json r =
     JObject ([(''enabled'', JBool (re_Enabled r))] @ opt_string ''publicKey'' (re_PublicKey r) @
       opt_string ''shortId'' (re_ShortID r) @ opt_string ''spiderX'' (re_SpiderX r))"

definition profile_members :: "ServerProfile \<Rightarrow> (string \<times> json) list" where
  "profile_members p =
     [(''id'', JString (sp_ID p)), (''name'', JString (sp_Name p)), (''protocol'', JString (sp_Protocol p)),
      (''address'', JString (sp_Address p)), (''port'', JInt (sp_Port p))] @
     opt_string ''username'' (sp_Username p) @ opt_string ''password'' (sp_Password p) @
     opt_string ''cipher'' (sp_Cipher p) @ opt_string ''uuid'' (sp_UUID p) @ opt_string ''flow'' (sp_Flow p) @
     opt_string ''security'' (sp_Security p) @
     [(''tls'', tls_json (sp_TLS p)), (''ssh'', ssh_json (sp_SSH p))] @
     opt_pointer ''transport'' transport_json (sp_Transport p) @
     opt (sp_GlobalPadding p) ''globalPadding'' (JBool True) @
     opt (sp_AuthenticatedLength p) ''authenticatedLength'' (JBool True) @
     opt_string ''packetEncoding'' (sp_PacketEncoding p) @
     [(''enabled'', JBool (sp_Enabled p))] @
     opt_string ''group'' (sp_Group p) @ opt_strings ''tags'' (sp_Tags p) @
     opt_pointer ''reality'' reality_json (sp_Reality p) @
     [(''favorite'', JBool (sp_Favorite p)), (''lastLatencyMs'', JInt (sp_LastLatencyMS p))] @
     opt_pointer ''lastTestedAt'' time_json (sp_LastTestedAt p) @
     [(''createdAt'', time_json (sp_CreatedAt p)), (''updatedAt'', time_json (sp_UpdatedAt p))]"

definition profile_json :: "ServerProfile \<Rightarrow> json" where
  "profile_json p = JObject (profile_members p)"

text \<open>Printing fails for a time whose year has not four digits.\<close>

definition marshalable :: "ServerProfile \<Rightarrow> bool" where
  "marshalable p \<longleftrightarrow>
     time_ok (sp_CreatedAt p) \<and> time_ok (sp_UpdatedAt p) \<and>
     (case sp_LastTestedAt p of None \<Rightarrow> True | Some t \<Rightarrow> time_ok t)"

section \<open>Reading\<close>

definition into_time :: "(gotime \<Rightarrow> 'a \<Rightarrow> 'a) \<Rightarrow> json \<Rightarrow> 'a \<Rightarrow> 'a option" where
  "into_time f v a =
     (case v of JNull \<Rightarrow> Some a | JString s \<Rightarrow> map_option (\<lambda>t. f t a) (ParseRFC3339 s) | _ \<Rightarrow> None)"

definition into_uint32 :: "(32 word \<Rightarrow> 'a \<Rightarrow> 'a) \<Rightarrow> json \<Rightarrow> 'a \<Rightarrow> 'a option" where
  "into_uint32 f v a =
     (case v of
        JNull \<Rightarrow> Some a
      | JInt i \<Rightarrow> if 0 \<le> i \<and> i < 2 ^ 32 then Some (f (word_of_int i) a) else None
      | _ \<Rightarrow> None)"

definition into_strings :: "(string list \<Rightarrow> 'a \<Rightarrow> 'a) \<Rightarrow> json \<Rightarrow> 'a \<Rightarrow> 'a option" where
  "into_strings f v a =
     (case v of
        JNull \<Rightarrow> Some (f [] a)
      | JArray js \<Rightarrow> map_option (\<lambda>ss. f ss a) (json_strings js)
      | _ \<Rightarrow> None)"

text \<open>A pointer becomes nil for null; otherwise the value it points to, or a new one, is filled.\<close>

definition into_pointer ::
  "'b \<Rightarrow> (json \<Rightarrow> 'b \<Rightarrow> 'b option) \<Rightarrow> ('a \<Rightarrow> 'b option) \<Rightarrow> ('b option \<Rightarrow> 'a \<Rightarrow> 'a) \<Rightarrow> json \<Rightarrow> 'a \<Rightarrow> 'a option" where
  "into_pointer zero dec get f v a =
     (if v = JNull then Some (f None a)
      else map_option (\<lambda>b. f (Some b) a) (dec v (case get a of None \<Rightarrow> zero | Some b \<Rightarrow> b)))"

definition zero_transport :: TransportConfig where
  "zero_transport = \<lparr>tr_Type = '''', tr_Path = '''', tr_Host = '''', tr_MaxEarlyData = 0, tr_EarlyDataHeaderName = ''''\<rparr>"

definition zero_reality :: RealityConfig where
  "zero_reality = \<lparr>re_Enabled = False, re_PublicKey = '''', re_ShortID = '''', re_SpiderX = ''''\<rparr>"

definition tls_field :: "string \<Rightarrow> json \<Rightarrow> TLSConfig \<Rightarrow> TLSConfig option" where
  "tls_field k v t =
     (if k = ''enabled'' then into_bool (\<lambda>x. tls_Enabled_update (\<lambda>_. x)) v t
      else if k = ''allowinsecure'' then into_bool (\<lambda>x. tls_AllowInsecure_update (\<lambda>_. x)) v t
      else if k = ''servername'' then into_string (\<lambda>x. tls_ServerName_update (\<lambda>_. x)) v t
      else if k = ''alpn'' then into_strings (\<lambda>x. tls_ALPN_update (\<lambda>_. x)) v t
      else if k = ''fingerprint'' then into_string (\<lambda>x. tls_Fingerprint_update (\<lambda>_. x)) v t
      else Some t)"

definition ssh_field :: "string \<Rightarrow> json \<Rightarrow> SSHConfig \<Rightarrow> SSHConfig option" where
  "ssh_field k v s =
     (if k = ''user'' then into_string (\<lambda>x. ssh_User_update (\<lambda>_. x)) v s
      else if k = ''hostkey'' then into_string (\<lambda>x. ssh_HostKey_update (\<lambda>_. x)) v s
      else if k = ''privatekey'' then into_string (\<lambda>x. ssh_PrivateKey_update (\<lambda>_. x)) v s
      else Some s)"

definition transport_field :: "string \<Rightarrow> json \<Rightarrow> TransportConfig \<Rightarrow> TransportConfig option" where
  "transport_field k v t =
     (if k = ''type'' then into_string (\<lambda>x. tr_Type_update (\<lambda>_. x)) v t
      else if k = ''path'' then into_string (\<lambda>x. tr_Path_update (\<lambda>_. x)) v t
      else if k = ''host'' then into_string (\<lambda>x. tr_Host_update (\<lambda>_. x)) v t
      else if k = ''maxearlydata'' then into_uint32 (\<lambda>x. tr_MaxEarlyData_update (\<lambda>_. x)) v t
      else if k = ''earlydataheadername'' then into_string (\<lambda>x. tr_EarlyDataHeaderName_update (\<lambda>_. x)) v t
      else Some t)"

definition reality_field :: "string \<Rightarrow> json \<Rightarrow> RealityConfig \<Rightarrow> RealityConfig option" where
  "reality_field k v r =
     (if k = ''enabled'' then into_bool (\<lambda>x. re_Enabled_update (\<lambda>_. x)) v r
      else if k = ''publickey'' then into_string (\<lambda>x. re_PublicKey_update (\<lambda>_. x)) v r
      else if k = ''shortid'' then into_string (\<lambda>x. re_ShortID_update (\<lambda>_. x)) v r
      else if k = ''spiderx'' then into_string (\<lambda>x. re_SpiderX_update (\<lambda>_. x)) v r
      else Some r)"

definition profile_field :: "string \<Rightarrow> json \<Rightarrow> ServerProfile \<Rightarrow> ServerProfile option" where
  "profile_field k v p =
     (if k = ''id'' then into_string (\<lambda>x. sp_ID_update (\<lambda>_. x)) v p
      else if k = ''name'' then into_string (\<lambda>x. sp_Name_update (\<lambda>_. x)) v p
      else if k = ''protocol'' then into_string (\<lambda>x. sp_Protocol_update (\<lambda>_. x)) v p
      else if k = ''address'' then into_string (\<lambda>x. sp_Address_update (\<lambda>_. x)) v p
      else if k = ''port'' then into_int (\<lambda>x. sp_Port_update (\<lambda>_. x)) v p
      else if k = ''username'' then into_string (\<lambda>x. sp_Username_update (\<lambda>_. x)) v p
      else if k = ''password'' then into_string (\<lambda>x. sp_Password_update (\<lambda>_. x)) v p
      else if k = ''cipher'' then into_string (\<lambda>x. sp_Cipher_update (\<lambda>_. x)) v p
      else if k = ''uuid'' then into_string (\<lambda>x. sp_UUID_update (\<lambda>_. x)) v p
      else if k = ''flow'' then into_string (\<lambda>x. sp_Flow_update (\<lambda>_. x)) v p
      else if k = ''security'' then into_string (\<lambda>x. sp_Security_update (\<lambda>_. x)) v p
      else if k = ''tls'' then map_option (\<lambda>x. p\<lparr>sp_TLS := x\<rparr>) (into_object tls_field v (sp_TLS p))
      else if k = ''ssh'' then map_option (\<lambda>x. p\<lparr>sp_SSH := x\<rparr>) (into_object ssh_field v (sp_SSH p))
      else if k = ''transport'' then
        into_pointer zero_transport (into_object transport_field) sp_Transport (\<lambda>x. sp_Transport_update (\<lambda>_. x)) v p
      else if k = ''globalpadding'' then into_bool (\<lambda>x. sp_GlobalPadding_update (\<lambda>_. x)) v p
      else if k = ''authenticatedlength'' then into_bool (\<lambda>x. sp_AuthenticatedLength_update (\<lambda>_. x)) v p
      else if k = ''packetencoding'' then into_string (\<lambda>x. sp_PacketEncoding_update (\<lambda>_. x)) v p
      else if k = ''enabled'' then into_bool (\<lambda>x. sp_Enabled_update (\<lambda>_. x)) v p
      else if k = ''group'' then into_string (\<lambda>x. sp_Group_update (\<lambda>_. x)) v p
      else if k = ''tags'' then into_strings (\<lambda>x. sp_Tags_update (\<lambda>_. x)) v p
      else if k = ''reality'' then
        into_pointer zero_reality (into_object reality_field) sp_Reality (\<lambda>x. sp_Reality_update (\<lambda>_. x)) v p
      else if k = ''favorite'' then into_bool (\<lambda>x. sp_Favorite_update (\<lambda>_. x)) v p
      else if k = ''lastlatencyms'' then into_int (\<lambda>x. sp_LastLatencyMS_update (\<lambda>_. x)) v p
      else if k = ''lasttestedat'' then
        into_pointer 0 (into_time (\<lambda>t _. t)) sp_LastTestedAt (\<lambda>x. sp_LastTestedAt_update (\<lambda>_. x)) v p
      else if k = ''createdat'' then into_time (\<lambda>x. sp_CreatedAt_update (\<lambda>_. x)) v p
      else if k = ''updatedat'' then into_time (\<lambda>x. sp_UpdatedAt_update (\<lambda>_. x)) v p
      else Some p)"

definition into_profile :: "json \<Rightarrow> ServerProfile \<Rightarrow> ServerProfile option" where
  "into_profile v p = into_object profile_field v p"

section \<open>Round trip\<close>

lemma store_append: "store_fields f (xs @ ys) a = Option.bind (store_fields f xs a) (store_fields f ys)"
  by (induction f xs a rule: store_fields.induct) (auto split: option.split)

lemma store_one: "f (ToLower k) v a = Some a' \<Longrightarrow> store_fields f ((k, v) # kvs) a = store_fields f kvs a'"
  by simp

lemma store_opt:
  "(b \<Longrightarrow> f (ToLower k) v a = Some a') \<Longrightarrow> (\<not> b \<Longrightarrow> a' = a) \<Longrightarrow>
   store_fields f (opt b k v @ kvs) a = store_fields f kvs a'"
  by (cases b) (simp_all add: opt_def)

lemma store_pointer:
  "(\<And>x. p = Some x \<Longrightarrow> f (ToLower k) (g x) a = Some a') \<Longrightarrow> (p = None \<Longrightarrow> a' = a) \<Longrightarrow>
   store_fields f (opt_pointer k g p @ kvs) a = store_fields f kvs a'"
  by (cases p) (simp_all add: opt_pointer_def)

lemma profile_keys:
  "ToLower ''serverName'' = ''servername''" "ToLower ''allowInsecure'' = ''allowinsecure''" "ToLower ''alpn'' = ''alpn''"
  "ToLower ''fingerprint'' = ''fingerprint''" "ToLower ''enabled'' = ''enabled''" "ToLower ''user'' = ''user''"
  "ToLower ''hostKey'' = ''hostkey''" "ToLower ''privateKey'' = ''privatekey''" "ToLower ''type'' = ''type''"
  "ToLower ''path'' = ''path''" "ToLower ''host'' = ''host''" "ToLower ''maxEarlyData'' = ''maxearlydata''"
  "ToLower ''earlyDataHeaderName'' = ''earlydataheadername''" "ToLower ''publicKey'' = ''publickey''"
  "ToLower ''shortId'' = ''shortid''" "ToLower ''spiderX'' = ''spiderx''" "ToLower ''id'' = ''id''" "ToLower ''name'' = ''name''"
  "ToLower ''protocol'' = ''protocol''" "ToLower ''address'' = ''address''" "ToLower ''port'' = ''port''"
  "ToLower ''username'' = ''username''" "ToLower ''password'' = ''password''" "ToLower ''cipher'' = ''cipher''"
  "ToLower ''uuid'' = ''uuid''" "ToLower ''flow'' = ''flow''" "ToLower ''security'' = ''security''" "ToLower ''tls'' = ''tls''"
  "ToLower ''ssh'' = ''ssh''" "ToLower ''transport'' = ''transport''" "ToLower ''globalPadding'' = ''globalpadding''"
  "ToLower ''authenticatedLength'' = ''authenticatedlength''" "ToLower ''packetEncoding'' = ''packetencoding''"
  "ToLower ''group'' = ''group''" "ToLower ''tags'' = ''tags''" "ToLower ''reality'' = ''reality''"
  "ToLower ''favorite'' = ''favorite''" "ToLower ''lastLatencyMs'' = ''lastlatencyms''"
  "ToLower ''lastTestedAt'' = ''lasttestedat''" "ToLower ''createdAt'' = ''createdat''" "ToLower ''updatedAt'' = ''updatedat''"
  by code_simp+

lemmas opt_defs = opt_string_def opt_strings_def opt_def profile_keys into_string_def into_strings_def into_bool_def

lemma tls_optional:
  "tls_ServerName a = [] \<Longrightarrow>
   store_fields tls_field (opt_string ''serverName'' s @ kvs) a = store_fields tls_field kvs (a\<lparr>tls_ServerName := s\<rparr>)"
  "tls_ALPN a = [] \<Longrightarrow>
   store_fields tls_field (opt_strings ''alpn'' ss @ kvs) a = store_fields tls_field kvs (a\<lparr>tls_ALPN := ss\<rparr>)"
  "tls_Fingerprint a = [] \<Longrightarrow>
   store_fields tls_field (opt_string ''fingerprint'' s @ kvs) a = store_fields tls_field kvs (a\<lparr>tls_Fingerprint := s\<rparr>)"
  by (cases a; simp add: opt_defs tls_field_def)+

lemma tls_roundtrip: "into_object tls_field (tls_json t) zero_TLS = Some t"
  using tls_optional(3) [where kvs = "[]"]
  by (simp add: tls_json_def into_object_def profile_keys tls_field_def into_bool_def tls_optional zero_TLS_def)

lemma ssh_optional:
  "ssh_User a = [] \<Longrightarrow>
   store_fields ssh_field (opt_string ''user'' s @ kvs) a = store_fields ssh_field kvs (a\<lparr>ssh_User := s\<rparr>)"
  "ssh_HostKey a = [] \<Longrightarrow>
   store_fields ssh_field (opt_string ''hostKey'' s @ kvs) a = store_fields ssh_field kvs (a\<lparr>ssh_HostKey := s\<rparr>)"
  "ssh_PrivateKey a = [] \<Longrightarrow>
   store_fields ssh_field (opt_string ''privateKey'' s @ kvs) a = store_fields ssh_field kvs (a\<lparr>ssh_PrivateKey := s\<rparr>)"
  by (cases a; simp add: opt_defs ssh_field_def)+

lemma ssh_roundtrip: "into_object ssh_field (ssh_json t) zero_SSH = Some t"
  using ssh_optional(3) [where kvs = "[]"] by (simp add: ssh_json_def into_object_def ssh_optional zero_SSH_def)

lemma transport_optional:
  "tr_Type a = [] \<Longrightarrow>
   store_fields transport_field (opt_string ''type'' s @ kvs) a = store_fields transport_field kvs (a\<lparr>tr_Type := s\<rparr>)"
  "tr_Path a = [] \<Longrightarrow>
   store_fields transport_field (opt_string ''path'' s @ kvs) a = store_fields transport_field kvs (a\<lparr>tr_Path := s\<rparr>)"
  "tr_Host a = [] \<Longrightarrow>
   store_fields transport_field (opt_string ''host'' s @ kvs) a = store_fields transport_field kvs (a\<lparr>tr_Host := s\<rparr>)"
  "tr_MaxEarlyData a = 0 \<Longrightarrow>
   store_fields transport_field (opt (n \<noteq> 0) ''maxEarlyData'' (JInt (uint n)) @ kvs) a =
     store_fields transport_field kvs (a\<lparr>tr_MaxEarlyData := n\<rparr>)"
  "tr_EarlyDataHeaderName a = [] \<Longrightarrow>
   store_fields transport_field (opt_string ''earlyDataHeaderName'' s @ kvs) a =
     store_fields transport_field kvs (a\<lparr>tr_EarlyDataHeaderName := s\<rparr>)"
  by (cases a; simp add: opt_defs transport_field_def into_uint32_def uint_lt2p [of n, simplified])+

lemma transport_roundtrip: "into_object transport_field (transport_json t) zero_transport = Some t"
  using transport_optional(5) [where kvs = "[]"]
  by (simp add: transport_json_def into_object_def transport_optional zero_transport_def)

lemma reality_optional:
  "re_PublicKey a = [] \<Longrightarrow>
   store_fields reality_field (opt_string ''publicKey'' s @ kvs) a = store_fields reality_field kvs (a\<lparr>re_PublicKey := s\<rparr>)"
  "re_ShortID a = [] \<Longrightarrow>
   store_fields reality_field (opt_string ''shortId'' s @ kvs) a = store_fields reality_field kvs (a\<lparr>re_ShortID := s\<rparr>)"
  "re_SpiderX a = [] \<Longrightarrow>
   store_fields reality_field (opt_string ''spiderX'' s @ kvs) a = store_fields reality_field kvs (a\<lparr>re_SpiderX := s\<rparr>)"
  by (cases a; simp add: opt_defs reality_field_def)+

lemma reality_roundtrip: "into_object reality_field (reality_json t) zero_reality = Some t"
  using reality_optional(3) [where kvs = "[]"]
  by (simp add: reality_json_def into_object_def profile_keys reality_field_def into_bool_def reality_optional zero_reality_def)

text \<open>The profiles the round trip is about: numbers of the width of \<open>int\<close>, times of whole seconds,
  as the repository keeps them.\<close>

definition int64 :: "int \<Rightarrow> bool" where
  "int64 i \<longleftrightarrow> - (2 ^ 63) \<le> i \<and> i < 2 ^ 63"

definition whole_time :: "gotime \<Rightarrow> bool" where
  "whole_time t \<longleftrightarrow> time_ok t \<and> t mod second = 0"

definition printable :: "ServerProfile \<Rightarrow> bool" where
  "printable p \<longleftrightarrow> int64 (sp_Port p) \<and> int64 (sp_LastLatencyMS p) \<and> whole_time (sp_CreatedAt p) \<and>
     whole_time (sp_UpdatedAt p) \<and> (case sp_LastTestedAt p of None \<Rightarrow> True | Some t \<Rightarrow> whole_time t)"

lemma format_last: "FormatRFC3339 t \<noteq> [] \<and> last (FormatRFC3339 t) = CHR ''Z''"
  by (simp add: FormatRFC3339_def Let_def split: prod.split)

lemma time_roundtrip: "whole_time t \<Longrightarrow> ParseRFC3339 (FormatRFC3339Nano t) = Some t"
proof -
  assume t: "whole_time t"
  then have "FormatRFC3339Nano t = FormatRFC3339 t"
    using format_last [of t] append_butlast_last_id [of "FormatRFC3339 t"] by (simp add: FormatRFC3339Nano_def whole_time_def)
  moreover have "t div second * second = t" using t div_mult_mod_eq [of t second] by (simp add: whole_time_def)
  ultimately show ?thesis using t parse_format [of t] by (simp add: whole_time_def)
qed

lemma profile_strings:
  "sp_Username a = [] \<Longrightarrow>
   store_fields profile_field (opt_string ''username'' s @ kvs) a = store_fields profile_field kvs (a\<lparr>sp_Username := s\<rparr>)"
  "sp_Password a = [] \<Longrightarrow>
   store_fields profile_field (opt_string ''password'' s @ kvs) a = store_fields profile_field kvs (a\<lparr>sp_Password := s\<rparr>)"
  "sp_Cipher a = [] \<Longrightarrow>
   store_fields profile_field (opt_string ''cipher'' s @ kvs) a = store_fields profile_field kvs (a\<lparr>sp_Cipher := s\<rparr>)"
  "sp_UUID a = [] \<Longrightarrow>
   store_fields profile_field (opt_string ''uuid'' s @ kvs) a = store_fields profile_field kvs (a\<lparr>sp_UUID := s\<rparr>)"
  "sp_Flow a = [] \<Longrightarrow>
   store_fields profile_field (opt_string ''flow'' s @ kvs) a = store_fields profile_field kvs (a\<lparr>sp_Flow := s\<rparr>)"
  "sp_Security a = [] \<Longrightarrow>
   store_fields profile_field (opt_string ''security'' s @ kvs) a = store_fields profile_field kvs (a\<lparr>sp_Security := s\<rparr>)"
  "sp_PacketEncoding a = [] \<Longrightarrow>
   store_fields profile_field (opt_string ''packetEncoding'' s @ kvs) a = store_fields profile_field kvs (a\<lparr>sp_PacketEncoding := s\<rparr>)"
  "sp_Group a = [] \<Longrightarrow>
   store_fields profile_field (opt_string ''group'' s @ kvs) a = store_fields profile_field kvs (a\<lparr>sp_Group := s\<rparr>)"
  "sp_Tags a = [] \<Longrightarrow>
   store_fields profile_field (opt_strings ''tags'' ss @ kvs) a = store_fields profile_field kvs (a\<lparr>sp_Tags := ss\<rparr>)"
  "\<not> sp_GlobalPadding a \<Longrightarrow>
   store_fields profile_field (opt b ''globalPadding'' (JBool True) @ kvs) a = store_fields profile_field kvs (a\<lparr>sp_GlobalPadding := b\<rparr>)"
  "\<not> sp_AuthenticatedLength a \<Longrightarrow>
   store_fields profile_field (opt b ''authenticatedLength'' (JBool True) @ kvs) a =
     store_fields profile_field kvs (a\<lparr>sp_AuthenticatedLength := b\<rparr>)"
  by (cases a; simp add: opt_defs profile_field_def)+

lemma profile_pointers:
  "sp_Transport a = None \<Longrightarrow>
   store_fields profile_field (opt_pointer ''transport'' transport_json x @ kvs) a =
     store_fields profile_field kvs (a\<lparr>sp_Transport := x\<rparr>)"
  "sp_Reality a = None \<Longrightarrow>
   store_fields profile_field (opt_pointer ''reality'' reality_json y @ kvs) a = store_fields profile_field kvs (a\<lparr>sp_Reality := y\<rparr>)"
  "sp_LastTestedAt a = None \<Longrightarrow> (case z of None \<Rightarrow> True | Some t \<Rightarrow> whole_time t) \<Longrightarrow>
   store_fields profile_field (opt_pointer ''lastTestedAt'' time_json z @ kvs) a =
     store_fields profile_field kvs (a\<lparr>sp_LastTestedAt := z\<rparr>)"
proof -
  have n: "transport_json t \<noteq> JNull" "reality_json r \<noteq> JNull" for t r by (simp_all add: transport_json_def reality_json_def)
  show "sp_Transport a = None \<Longrightarrow>
    store_fields profile_field (opt_pointer ''transport'' transport_json x @ kvs) a =
      store_fields profile_field kvs (a\<lparr>sp_Transport := x\<rparr>)"
    by (cases x; cases a) (simp_all add: opt_pointer_def profile_keys profile_field_def into_pointer_def n transport_roundtrip)
  show "sp_Reality a = None \<Longrightarrow>
    store_fields profile_field (opt_pointer ''reality'' reality_json y @ kvs) a = store_fields profile_field kvs (a\<lparr>sp_Reality := y\<rparr>)"
    by (cases y; cases a) (simp_all add: opt_pointer_def profile_keys profile_field_def into_pointer_def n reality_roundtrip)
  show "sp_LastTestedAt a = None \<Longrightarrow> (case z of None \<Rightarrow> True | Some t \<Rightarrow> whole_time t) \<Longrightarrow>
    store_fields profile_field (opt_pointer ''lastTestedAt'' time_json z @ kvs) a =
      store_fields profile_field kvs (a\<lparr>sp_LastTestedAt := z\<rparr>)"
    by (cases z; cases a) (simp_all add: opt_pointer_def profile_keys profile_field_def into_pointer_def into_time_def
      time_json_def time_roundtrip)
qed

lemma profile_fixed:
  "profile_field ''id'' (JString s) a = Some (a\<lparr>sp_ID := s\<rparr>)" "profile_field ''name'' (JString s) a = Some (a\<lparr>sp_Name := s\<rparr>)"
  "profile_field ''protocol'' (JString s) a = Some (a\<lparr>sp_Protocol := s\<rparr>)"
  "profile_field ''address'' (JString s) a = Some (a\<lparr>sp_Address := s\<rparr>)"
  "int64 i \<Longrightarrow> profile_field ''port'' (JInt i) a = Some (a\<lparr>sp_Port := i\<rparr>)"
  "sp_TLS a = zero_TLS \<Longrightarrow> profile_field ''tls'' (tls_json t) a = Some (a\<lparr>sp_TLS := t\<rparr>)"
  "sp_SSH a = zero_SSH \<Longrightarrow> profile_field ''ssh'' (ssh_json u) a = Some (a\<lparr>sp_SSH := u\<rparr>)"
  "profile_field ''enabled'' (JBool b) a = Some (a\<lparr>sp_Enabled := b\<rparr>)"
  "profile_field ''favorite'' (JBool b) a = Some (a\<lparr>sp_Favorite := b\<rparr>)"
  "int64 i \<Longrightarrow> profile_field ''lastlatencyms'' (JInt i) a = Some (a\<lparr>sp_LastLatencyMS := i\<rparr>)"
  "whole_time w \<Longrightarrow> profile_field ''createdat'' (time_json w) a = Some (a\<lparr>sp_CreatedAt := w\<rparr>)"
  "whole_time w \<Longrightarrow> profile_field ''updatedat'' (time_json w) a = Some (a\<lparr>sp_UpdatedAt := w\<rparr>)"
  by (simp_all add: profile_field_def into_string_def into_int_def into_bool_def into_time_def time_json_def int64_def
    tls_roundtrip ssh_roundtrip time_roundtrip)

lemma profile_roundtrip:
  assumes "printable p"
  shows "into_profile (profile_json p) zero_profile = Some p"
proof -
  have "int64 (sp_Port p)" "int64 (sp_LastLatencyMS p)" "whole_time (sp_CreatedAt p)" "whole_time (sp_UpdatedAt p)"
    "case sp_LastTestedAt p of None \<Rightarrow> True | Some t \<Rightarrow> whole_time t"
    using assms by (simp_all add: printable_def)
  then show ?thesis
    by (simp add: into_profile_def into_object_def profile_json_def profile_members_def profile_keys profile_fixed
      profile_strings profile_pointers zero_profile_def)
qed

end
