(* ===== verification/Go_Base64.thy ===== *)
theory Go_Base64
  imports Go_Text
begin

text \<open>
  Go's \<open>encoding/base64\<close>: the standard and the URL alphabet, with and without padding.
  Byte strings are \<open>string\<close>s. Decoding skips carriage returns and line feeds and, like the
  non-strict encodings of the library, ignores the unused low bits of the last digit.
\<close>

datatype b64 = B64 (b64_url: bool) (b64_pad: bool)

abbreviation (input) StdEncoding :: b64 where "StdEncoding \<equiv> B64 False True"
abbreviation (input) URLEncoding :: b64 where "URLEncoding \<equiv> B64 True True"
abbreviation (input) RawStdEncoding :: b64 where "RawStdEncoding \<equiv> B64 False False"
abbreviation (input) RawURLEncoding :: b64 where "RawURLEncoding \<equiv> B64 True False"

definition b64_char :: "b64 \<Rightarrow> nat \<Rightarrow> char" where
  "b64_char enc n =
     (if n < 26 then char_of (65 + n)
      else if n < 52 then char_of (71 + n)
      else if n < 62 then char_of (n - 4)
      else if n = 62 then (if b64_url enc then CHR ''-'' else CHR ''+'')
      else (if b64_url enc then CHR ''_'' else CHR ''/''))"

definition b64_val :: "b64 \<Rightarrow> char \<Rightarrow> nat option" where
  "b64_val enc c =
     (let n = of_char c :: nat
      in if 65 \<le> n \<and> n \<le> 90 then Some (n - 65)
         else if 97 \<le> n \<and> n \<le> 122 then Some (n - 71)
         else if 48 \<le> n \<and> n \<le> 57 then Some (n + 4)
         else if c = (if b64_url enc then CHR ''-'' else CHR ''+'') then Some 62
         else if c = (if b64_url enc then CHR ''_'' else CHR ''/'') then Some 63
         else None)"

definition b64_padding :: "b64 \<Rightarrow> nat \<Rightarrow> string" where
  "b64_padding enc n = (if b64_pad enc then replicate n CHR ''='' else [])"

fun b64_encode :: "b64 \<Rightarrow> string \<Rightarrow> string" where
  "b64_encode enc [] = []"
| "b64_encode enc [x] =
     b64_char enc (of_char x div 4) # b64_char enc ((of_char x mod 4) * 16) # b64_padding enc 2"
| "b64_encode enc [x, y] =
     b64_char enc (of_char x div 4) # b64_char enc ((of_char x mod 4) * 16 + of_char y div 16) #
     b64_char enc ((of_char y mod 16) * 4) # b64_padding enc 1"
| "b64_encode enc (x # y # z # rest) =
     b64_char enc (of_char x div 4) # b64_char enc ((of_char x mod 4) * 16 + of_char y div 16) #
     b64_char enc ((of_char y mod 16) * 4 + of_char z div 64) # b64_char enc (of_char z mod 64) #
     b64_encode enc rest"

definition quantum1 :: "nat \<Rightarrow> nat \<Rightarrow> string" where
  "quantum1 a b = [char_of (a * 4 + b div 16)]"

definition quantum2 :: "nat \<Rightarrow> nat \<Rightarrow> nat \<Rightarrow> string" where
  "quantum2 a b c = [char_of (a * 4 + b div 16), char_of ((b mod 16) * 16 + c div 4)]"

definition quantum3 :: "nat \<Rightarrow> nat \<Rightarrow> nat \<Rightarrow> nat \<Rightarrow> string" where
  "quantum3 a b c d =
     [char_of (a * 4 + b div 16), char_of ((b mod 16) * 16 + c div 4), char_of ((c mod 4) * 64 + d)]"

definition final1 :: "b64 \<Rightarrow> char \<Rightarrow> char \<Rightarrow> string option" where
  "final1 enc a b =
     (case (b64_val enc a, b64_val enc b) of (Some x, Some y) \<Rightarrow> Some (quantum1 x y) | _ \<Rightarrow> None)"

definition final2 :: "b64 \<Rightarrow> char \<Rightarrow> char \<Rightarrow> char \<Rightarrow> string option" where
  "final2 enc a b c =
     (case (b64_val enc a, b64_val enc b, b64_val enc c) of
        (Some x, Some y, Some z) \<Rightarrow> Some (quantum2 x y z) | _ \<Rightarrow> None)"

definition full3 :: "b64 \<Rightarrow> char \<Rightarrow> char \<Rightarrow> char \<Rightarrow> char \<Rightarrow> string option" where
  "full3 enc a b c d =
     (case (b64_val enc a, b64_val enc b, b64_val enc c, b64_val enc d) of
        (Some x, Some y, Some z, Some w) \<Rightarrow> Some (quantum3 x y z w) | _ \<Rightarrow> None)"

fun b64_quanta :: "b64 \<Rightarrow> string \<Rightarrow> string option" where
  "b64_quanta enc [] = Some []"
| "b64_quanta enc [a] = None"
| "b64_quanta enc [a, b] = (if b64_pad enc then None else final1 enc a b)"
| "b64_quanta enc [a, b, c] = (if b64_pad enc then None else final2 enc a b c)"
| "b64_quanta enc (a # b # c # d # rest) =
     (if b64_pad enc \<and> d = CHR ''='' \<and> rest = [] then
        (if c = CHR ''='' then final1 enc a b else final2 enc a b c)
      else (case full3 enc a b c d of
              None \<Rightarrow> None
            | Some q \<Rightarrow> map_option (\<lambda>tl. q @ tl) (b64_quanta enc rest)))"

definition b64_decode :: "b64 \<Rightarrow> string \<Rightarrow> string option" where
  "b64_decode enc s = b64_quanta enc (filter (\<lambda>c. c \<noteq> CHR 0x0D \<and> c \<noteq> CHR 0x0A) s)"

section \<open>Round trip\<close>

lemma b64_val_char: "n < 64 \<Longrightarrow> b64_val enc (b64_char enc n) = Some n"
  by (auto simp: b64_char_def b64_val_def Let_def)

lemma b64_val_other [simp]:
  "b64_val enc CHR ''='' = None" "b64_val enc CHR 0x0D = None" "b64_val enc CHR 0x0A = None"
  by (simp_all add: b64_val_def Let_def)

lemma b64_digit:
  assumes "n < 64"
  shows "b64_val enc (b64_char enc n) = Some n" "b64_char enc n \<noteq> CHR ''=''"
    "b64_char enc n \<noteq> CHR 0x0D" "b64_char enc n \<noteq> CHR 0x0A"
  using b64_val_char [OF assms, of enc] by (metis b64_val_other option.distinct(1))+

lemma byte_div [simp]:
  "(of_char c :: nat) div 4 < 64" "(of_char c :: nat) div 16 < 16" "(of_char c :: nat) div 64 < 4"
  by (rule less_mult_imp_div_less; simp)+

lemma byte_digits:
  "(of_char c :: nat) mod 4 * 16 + of_char d div 16 < 64"
  "(of_char c :: nat) mod 4 * 16 < 64" "(of_char c :: nat) mod 16 * 4 < 64"
  "(of_char c :: nat) mod 16 * 4 + of_char d div 64 < 64" "(of_char c :: nat) mod 64 < 64"
proof -
  have m: "(of_char c :: nat) mod 4 < 4" "(of_char c :: nat) mod 16 < 16" by simp_all
  show "(of_char c :: nat) mod 4 * 16 + of_char d div 16 < 64" using m(1) byte_div(2) [of d] by linarith
  show "(of_char c :: nat) mod 4 * 16 < 64" using m(1) by linarith
  show "(of_char c :: nat) mod 16 * 4 < 64" using m(2) by linarith
  show "(of_char c :: nat) mod 16 * 4 + of_char d div 64 < 64" using m(2) byte_div(3) [of d] by linarith
qed simp

lemma join_digits:
  "(of_char c :: nat) div 16 div 16 = 0" "(of_char c :: nat) div 64 div 4 = 0"
  "(of_char c :: nat) div 16 mod 16 = of_char c div 16" "(of_char c :: nat) div 64 mod 4 = of_char c div 64"
  using byte_div [of c] by (metis div_less mod_less)+

lemma b64_encode_clean: "filter (\<lambda>c. c \<noteq> CHR 0x0D \<and> c \<noteq> CHR 0x0A) (b64_encode enc s) = b64_encode enc s"
  by (induction enc s rule: b64_encode.induct)
    (simp_all add: b64_digit byte_digits b64_padding_def)

lemma b64_roundtrip: "b64_decode enc (b64_encode enc s) = Some s"
proof -
  have "b64_quanta enc (b64_encode enc s) = Some s"
  proof (induction enc s rule: b64_encode.induct)
    case (2 enc x)
    then show ?case
      by (cases "b64_pad enc") (simp_all add: b64_digit byte_digits b64_padding_def final1_def quantum1_def
        numeral_2_eq_2)
  next
    case (3 enc x y)
    then show ?case
      by (cases "b64_pad enc") (simp_all add: b64_digit byte_digits b64_padding_def final2_def quantum2_def
        join_digits)
  next
    case (4 enc x y z rest)
    then show ?case
      by (simp add: b64_digit byte_digits full3_def quantum3_def join_digits)
  qed simp
  then show ?thesis by (simp add: b64_decode_def b64_encode_clean)
qed

end
