(* ===== verification/Go_URL.thy ===== *)
theory Go_URL
  imports Go_Text "HOL-Library.AList" "HOL-Library.List_Lexorder"
begin

text \<open>
  The parts of Go's \<open>net/url\<close> and \<open>net\<close> the share links use: percent escaping in its modes,
  parsing a URL with an authority, user information, query strings and printing. Validity of a
  bracketed IP literal (\<open>netip.ParseAddr\<close>) is an argument. The path of a URL is only checked,
  since no caller reads it.
\<close>

section \<open>Escaping\<close>

datatype emode = EncPath | EncHost | EncZone | EncUserPassword | EncQuery | EncFragment

definition alnum :: "char \<Rightarrow> bool" where
  "alnum c =
     (let n = of_char c :: nat
      in (48 \<le> n \<and> n \<le> 57) \<or> (65 \<le> n \<and> n \<le> 90) \<or> (97 \<le> n \<and> n \<le> 122))"

definition shouldEscape :: "emode \<Rightarrow> char \<Rightarrow> bool" where
  "shouldEscape m c =
     (if alnum c then False
      else if (m = EncHost \<or> m = EncZone) \<and> c \<in> set (''!$&()*+,;=:[]<>'' @ [CHR 0x27, CHR 0x22]) then False
      else if c \<in> set ''-_.~'' then False
      else if c \<in> set ''$&+,/:;=?@'' then
        (case m of
           EncPath \<Rightarrow> c = CHR ''?''
         | EncUserPassword \<Rightarrow> c \<in> set ''@/?:''
         | EncFragment \<Rightarrow> False
         | _ \<Rightarrow> True)
      else if m = EncFragment \<and> c \<in> set ''!()*'' then False
      else True)"

definition upper_hex :: "nat \<Rightarrow> char" where
  "upper_hex n = (if n < 10 then char_of (n + 48) else char_of (n + 55))"

definition unhex :: "char \<Rightarrow> nat option" where
  "unhex c =
     (let n = of_char c :: nat
      in if 48 \<le> n \<and> n \<le> 57 then Some (n - 48)
         else if 97 \<le> n \<and> n \<le> 102 then Some (n - 87)
         else if 65 \<le> n \<and> n \<le> 70 then Some (n - 55)
         else None)"

definition escape_char :: "emode \<Rightarrow> char \<Rightarrow> string" where
  "escape_char m c =
     (if c = CHR '' '' \<and> m = EncQuery then ''+''
      else if shouldEscape m c then
        [CHR ''%'', upper_hex (of_char c div 16), upper_hex (of_char c mod 16)]
      else [c])"

definition escape :: "emode \<Rightarrow> string \<Rightarrow> string" where
  "escape m s = concat (map (escape_char m) s)"

text \<open>One byte of an escaped text: an escape, a plus sign of a query, or a plain byte. In a host
  only bytes outside ASCII and the percent sign may be escaped.\<close>

definition unescape_hex :: "emode \<Rightarrow> char \<Rightarrow> char \<Rightarrow> char option" where
  "unescape_hex m a b =
     (case (unhex a, unhex b) of
        (Some x, Some y) \<Rightarrow>
          (let c = char_of (16 * x + y)
           in if m = EncHost \<and> x < 8 \<and> (a \<noteq> CHR ''2'' \<or> b \<noteq> CHR ''5'') then None
              else if m = EncZone \<and> (a \<noteq> CHR ''2'' \<or> b \<noteq> CHR ''5'') \<and> c \<noteq> CHR '' '' \<and> shouldEscape EncHost c then None
              else Some c)
      | _ \<Rightarrow> None)"

fun unescape :: "emode \<Rightarrow> string \<Rightarrow> string option" where
  "unescape m [] = Some []"
| "unescape m (c # s) =
     (if c = CHR ''%'' then
        (case s of
           a # b # t \<Rightarrow>
             (case unescape_hex m a b of None \<Rightarrow> None | Some d \<Rightarrow> map_option (Cons d) (unescape m t))
         | _ \<Rightarrow> None)
      else if c = CHR ''+'' \<and> m = EncQuery then map_option (Cons (CHR '' '')) (unescape m s)
      else if (m = EncHost \<or> m = EncZone) \<and> (of_char c :: nat) < 128 \<and> shouldEscape m c then None
      else map_option (Cons c) (unescape m s))"

lemma unhex_upper: "n < 16 \<Longrightarrow> unhex (upper_hex n) = Some n"
proof -
  assume "n < 16"
  then consider "n < 10" | "10 \<le> n" "n < 16" by linarith
  then show ?thesis by cases (auto simp: unhex_def upper_hex_def Let_def)
qed

lemma char_nibbles: "char_of (16 * (of_char c div 16) + of_char c mod 16 :: nat) = c"
  by (simp add: mult_div_mod_eq)

lemma nibble_less: "of_char c div 16 < (16 :: nat)" "of_char c mod 16 < (16 :: nat)"
  using nat_of_char_less_256 [of c] by (auto simp: less_mult_imp_div_less)

lemma unescape_escaped_char:
  assumes "m \<noteq> EncHost" "m \<noteq> EncZone"
  shows "unescape m (escape_char m c @ s) = map_option (Cons c) (unescape m s)"
proof -
  have plus: "shouldEscape EncQuery (CHR ''+'')" by code_simp
  have percent: "shouldEscape m (CHR ''%'')" by (simp add: shouldEscape_def alnum_def)
  have h: "unescape_hex m (upper_hex (of_char c div 16)) (upper_hex (of_char c mod 16)) = Some c"
    using assms by (simp add: unescape_hex_def unhex_upper nibble_less char_nibbles Let_def)
  show ?thesis
    using assms h plus percent by (auto simp: escape_char_def)
qed

lemma unescape_escape_append:
  "m \<noteq> EncHost \<Longrightarrow> m \<noteq> EncZone \<Longrightarrow> unescape m (escape m s @ t) = map_option (append s) (unescape m t)"
  by (induction s; cases "unescape m t") (simp_all add: escape_def unescape_escaped_char)

lemma unescape_escape [simp]: "m \<noteq> EncHost \<Longrightarrow> m \<noteq> EncZone \<Longrightarrow> unescape m (escape m s) = Some s"
  using unescape_escape_append [of m s "[]"] by simp

text \<open>A query unescape undoes a fragment escape of text without a plus sign.\<close>

lemma unescape_query_fragment:
  "CHR ''+'' \<notin> set s \<Longrightarrow> unescape EncQuery (escape EncFragment s) = Some s"
proof (induction s)
  case (Cons c s)
  have percent: "shouldEscape EncFragment (CHR ''%'')" by (simp add: shouldEscape_def alnum_def)
  have h: "unescape_hex EncQuery (upper_hex (of_char c div 16)) (upper_hex (of_char c mod 16)) = Some c"
    by (simp add: unescape_hex_def unhex_upper nibble_less char_nibbles Let_def)
  show ?case
    using Cons h percent by (auto simp: escape_def escape_char_def)
qed (simp add: escape_def)

lemma cut_absent: "c \<notin> set s \<Longrightarrow> cut_byte c s = None" "c \<notin> set s \<Longrightarrow> cut_last_byte c s = None"
  by simp_all

section \<open>Authorities\<close>

text \<open>A user information: the user name and the password, if one is set.\<close>

type_synonym Userinfo = "string \<times> string option"

record URL =
  url_User :: "Userinfo option"
  url_Host :: string
  url_RawQuery :: string

definition Username :: "Userinfo option \<Rightarrow> string" where
  "Username u = (case u of None \<Rightarrow> '''' | Some (n, pw) \<Rightarrow> n)"

definition digits_only :: "string \<Rightarrow> bool" where
  "digits_only s = list_all (\<lambda>c. 48 \<le> (of_char c :: nat) \<and> of_char c \<le> (57 :: nat)) s"

definition validOptionalPort :: "string \<Rightarrow> bool" where
  "validOptionalPort p = (case p of [] \<Rightarrow> True | c # s \<Rightarrow> c = CHR '':'' \<and> digits_only s)"

definition validUserinfo :: "string \<Rightarrow> bool" where
  "validUserinfo s = list_all (\<lambda>c. alnum c \<or> c \<in> set (''-._:~!$&()*+,;=%@'' @ [CHR 0x27])) s"

text \<open>A bracketed literal is an IPv6 address with an optional zone; any other host has at most
  one colon, in front of the port.\<close>

definition parse_literal :: "(string \<Rightarrow> bool) \<Rightarrow> string \<Rightarrow> string option" where
  "parse_literal ip_ok host =
     (case cut_last_byte (CHR '']'') host of
        None \<Rightarrow> None
      | Some (a, colonPort) \<Rightarrow>
          (let name = tl a
           in if \<not> validOptionalPort colonPort then None
              else (case (case Index name ''%25'' of
                            None \<Rightarrow> unescape EncHost name
                          | Some i \<Rightarrow>
                              (case (unescape EncHost (take i name), unescape EncZone (drop i name)) of
                                 (Some x, Some y) \<Rightarrow> Some (x @ y) | _ \<Rightarrow> None)) of
                      None \<Rightarrow> None
                    | Some h \<Rightarrow> if ip_ok h then Some (''['' @ h @ '']'' @ colonPort) else None)))"

definition parseHost :: "(string \<Rightarrow> bool) \<Rightarrow> string \<Rightarrow> string option" where
  "parseHost ip_ok host =
     (case cut_last_byte (CHR ''['') host of
        Some (a, b) \<Rightarrow> if a \<noteq> [] then None else parse_literal ip_ok host
      | None \<Rightarrow>
          (case cut_byte (CHR '':'') host of
             None \<Rightarrow> unescape EncHost host
           | Some (a, b) \<Rightarrow> if digits_only b then unescape EncHost host else None))"

definition parseUserinfo :: "string \<Rightarrow> Userinfo option" where
  "parseUserinfo s =
     (if \<not> validUserinfo s then None
      else case cut_byte (CHR '':'') s of
             None \<Rightarrow> map_option (\<lambda>n. (n, None)) (unescape EncUserPassword s)
           | Some (a, b) \<Rightarrow>
               (case (unescape EncUserPassword a, unescape EncUserPassword b) of
                  (Some n, Some pw) \<Rightarrow> Some (n, Some pw) | _ \<Rightarrow> None))"

definition parseAuthority :: "(string \<Rightarrow> bool) \<Rightarrow> string \<Rightarrow> (Userinfo option \<times> string) option" where
  "parseAuthority ip_ok s =
     (case cut_last_byte (CHR ''@'') s of
        None \<Rightarrow> map_option (Pair None) (parseHost ip_ok s)
      | Some (u, h) \<Rightarrow>
          (case parseHost ip_ok h of
             None \<Rightarrow> None
           | Some h' \<Rightarrow> map_option (\<lambda>ui. (Some ui, h')) (parseUserinfo u)))"

text \<open>\<open>url.Parse\<close> of a scheme, two slashes and a text without a fragment.\<close>

definition cut_query :: "string \<Rightarrow> string \<times> string" where
  "cut_query s = (case cut_byte (CHR ''?'') s of None \<Rightarrow> (s, '''') | Some x \<Rightarrow> x)"

definition cut_path :: "string \<Rightarrow> string \<times> string" where
  "cut_path s = (case cut_byte (CHR ''/'') s of None \<Rightarrow> (s, '''') | Some (a, b) \<Rightarrow> (a, CHR ''/'' # b))"

definition control_byte :: "char \<Rightarrow> bool" where
  "control_byte c = ((of_char c :: nat) < 32 \<or> c = CHR 0x7F)"

definition parse_after_scheme :: "(string \<Rightarrow> bool) \<Rightarrow> string \<Rightarrow> URL option" where
  "parse_after_scheme ip_ok s =
     (if list_ex control_byte s then None
      else (let (rest, query) = cut_query s; (authority, path) = cut_path rest
            in case (parseAuthority ip_ok authority, unescape EncPath path) of
                 (Some (ui, h), Some _) \<Rightarrow> Some \<lparr>url_User = ui, url_Host = h, url_RawQuery = query\<rparr>
               | _ \<Rightarrow> None))"

definition splitHostPort :: "string \<Rightarrow> string \<times> string" where
  "splitHostPort hostPort =
     (let (host, port) =
            (case cut_last_byte (CHR '':'') hostPort of
               Some (a, b) \<Rightarrow> if validOptionalPort (CHR '':'' # b) then (a, b) else (hostPort, '''')
             | None \<Rightarrow> (hostPort, ''''))
      in if host \<noteq> [] \<and> hd host = CHR ''['' \<and> last host = CHR '']''
         then (butlast (tl host), port) else (host, port))"

definition Hostname :: "URL \<Rightarrow> string" where
  "Hostname u = fst (splitHostPort (url_Host u))"

definition Port :: "URL \<Rightarrow> string" where
  "Port u = snd (splitHostPort (url_Host u))"

definition JoinHostPort :: "string \<Rightarrow> string \<Rightarrow> string" where
  "JoinHostPort host port =
     (if CHR '':'' \<in> set host \<or> CHR ''%'' \<in> set host then ''['' @ host @ '']:'' @ port else host @ '':'' @ port)"

section \<open>Queries\<close>

type_synonym Values = "(string \<times> string) list"

definition query_pair :: "string \<Rightarrow> (string \<times> string) option" where
  "query_pair s =
     (if CHR '';'' \<in> set s \<or> s = [] then None
      else (let (k, v) = (case cut_byte (CHR ''='') s of None \<Rightarrow> (s, '''') | Some x \<Rightarrow> x)
            in case (unescape EncQuery k, unescape EncQuery v) of
                 (Some k', Some v') \<Rightarrow> Some (k', v') | _ \<Rightarrow> None))"

definition ParseQuery :: "string \<Rightarrow> Values" where
  "ParseQuery s = List.map_filter query_pair (split_byte (CHR ''&'') s)"

definition values_Get :: "Values \<Rightarrow> string \<Rightarrow> string" where
  "values_Get q k = (case map_of q k of None \<Rightarrow> '''' | Some v \<Rightarrow> v)"

text \<open>\<open>Values\<close> built with \<open>Set\<close> hold one value per key; \<open>Encode\<close> sorts them by key.\<close>

definition values_Set :: "string \<Rightarrow> string \<Rightarrow> Values \<Rightarrow> Values" where
  "values_Set k v q = AList.update k v q"

definition Encode :: "Values \<Rightarrow> string" where
  "Encode q =
     join_with ''&'' (map (\<lambda>(k, v). escape EncQuery k @ ''='' @ escape EncQuery v)
       (sort_key (\<lambda>(k, v). map (of_char :: char \<Rightarrow> nat) k) q))"

section \<open>Printing\<close>

definition userinfo_String :: "Userinfo \<Rightarrow> string" where
  "userinfo_String u =
     (case u of
        (n, None) \<Rightarrow> escape EncUserPassword n
      | (n, Some pw) \<Rightarrow> escape EncUserPassword n @ '':'' @ escape EncUserPassword pw)"

definition url_String :: "string \<Rightarrow> URL \<Rightarrow> string \<Rightarrow> string" where
  "url_String scheme u frag =
     scheme @ '':'' @
     (if url_Host u \<noteq> '''' \<or> url_User u \<noteq> None then ''//'' else '''') @
     (case url_User u of None \<Rightarrow> '''' | Some ui \<Rightarrow> userinfo_String ui @ ''@'') @
     escape EncHost (url_Host u) @
     (if url_RawQuery u \<noteq> '''' then ''?'' @ url_RawQuery u else '''') @
     (if frag \<noteq> '''' then ''#'' @ escape EncFragment frag else '''')"

section \<open>What escaping leaves\<close>

definition unreserved :: "char \<Rightarrow> bool" where
  "unreserved c = (alnum c \<or> c \<in> set ''-_.~'')"

lemma upper_hex_alnum: "n < 16 \<Longrightarrow> alnum (upper_hex n)"
proof -
  assume "n < 16"
  then consider "n < 10" | "10 \<le> n" "n < 16" by linarith
  then show ?thesis by cases (auto simp: alnum_def upper_hex_def Let_def)
qed

lemma escape_char_set:
  "set (escape_char m c) \<subseteq> {x. alnum x \<or> x = CHR ''%'' \<or> (x = CHR ''+'' \<and> m = EncQuery) \<or> (x = c \<and> \<not> shouldEscape m c)}"
  using upper_hex_alnum [OF nibble_less(1)] upper_hex_alnum [OF nibble_less(2)] by (auto simp: escape_char_def)

lemma escape_set:
  assumes "x \<in> set (escape m s)"
  shows "alnum x \<or> x = CHR ''%'' \<or> (x = CHR ''+'' \<and> m = EncQuery) \<or> \<not> shouldEscape m x"
  using assms escape_char_set [of m] by (fastforce simp: escape_def)

lemma escape_query_set: "x \<in> set (escape EncQuery s) \<Longrightarrow> unreserved x \<or> x \<in> set ''%+''"
  using escape_set [of x EncQuery s] by (auto simp: shouldEscape_def unreserved_def split: if_splits)

lemma escape_user_set: "x \<in> set (escape EncUserPassword s) \<Longrightarrow> unreserved x \<or> x \<in> set ''%$&+,;=''"
  using escape_set [of x EncUserPassword s] by (auto simp: shouldEscape_def unreserved_def split: if_splits)

lemma escape_id: "(\<And>c. c \<in> set s \<Longrightarrow> \<not> shouldEscape m c) \<Longrightarrow> CHR '' '' \<notin> set s \<Longrightarrow> escape m s = s"
  by (induction s) (auto simp: escape_def escape_char_def)

lemma unescape_id: "(\<And>c. c \<in> set s \<Longrightarrow> \<not> shouldEscape m c) \<Longrightarrow> m \<noteq> EncQuery \<Longrightarrow> unescape m s = Some s"
proof (induction s)
  case (Cons c s)
  have "shouldEscape m (CHR ''%'')" by (simp add: shouldEscape_def alnum_def)
  then have "c \<noteq> CHR ''%''" using Cons.prems by auto
  then show ?case using Cons by auto
qed simp

text \<open>Bytes that are not unreserved.\<close>

lemma not_unreserved:
  "\<not> unreserved (CHR ''%'')" "\<not> unreserved (CHR ''/'')" "\<not> unreserved (CHR ''?'')" "\<not> unreserved (CHR ''#'')"
  "\<not> unreserved (CHR ''@'')" "\<not> unreserved (CHR '':'')" "\<not> unreserved (CHR ''['')" "\<not> unreserved (CHR '']'')"
  "\<not> unreserved (CHR ''&'')" "\<not> unreserved (CHR ''='')" "\<not> unreserved (CHR '';'')" "\<not> unreserved (CHR '' '')"
  by code_simp+

lemma unreserved_not_control: "unreserved c \<Longrightarrow> \<not> control_byte c"
proof -
  assume "unreserved c"
  then consider "alnum c" | "c \<in> set ''-_.~''" by (auto simp: unreserved_def)
  then show ?thesis
  proof cases
    case 1
    then have "48 \<le> (of_char c :: nat)" "of_char c \<le> (122 :: nat)" unfolding alnum_def Let_def by linarith+
    moreover have "of_char (CHR 0x7F) = (127 :: nat)" by code_simp
    ultimately show ?thesis unfolding control_byte_def by fastforce
  next
    case 2
    have "list_all (\<lambda>c. \<not> control_byte c) ''-_.~''" by code_simp
    with 2 show ?thesis by (auto simp: list_all_iff)
  qed
qed

lemma unreserved_plain: "unreserved c \<Longrightarrow> \<not> shouldEscape m c"
  unfolding unreserved_def shouldEscape_def by (cases "alnum c") (simp_all only: if_True if_False if_cancel simp_thms)

section \<open>Printed URLs parse\<close>

text \<open>The hosts the round trips are about: names, and IPv6 literals without a zone.\<close>

definition plain_host :: "string \<Rightarrow> bool" where
  "plain_host h \<longleftrightarrow> h \<noteq> [] \<and> list_all unreserved h"

definition literal_host :: "(string \<Rightarrow> bool) \<Rightarrow> string \<Rightarrow> bool" where
  "literal_host ip_ok h \<longleftrightarrow> ip_ok h \<and> CHR '':'' \<in> set h \<and> list_all (\<lambda>c. unreserved c \<or> c = CHR '':'') h"

definition url_host :: "(string \<Rightarrow> bool) \<Rightarrow> string \<Rightarrow> bool" where
  "url_host ip_ok h \<longleftrightarrow> plain_host h \<or> literal_host ip_ok h"

lemma digits_only_unreserved: "digits_only s \<Longrightarrow> c \<in> set s \<Longrightarrow> unreserved c"
  by (auto simp: digits_only_def list_all_iff unreserved_def alnum_def Let_def)

lemma plain_join: "plain_host h \<Longrightarrow> JoinHostPort h port = h @ CHR '':'' # port"
  using not_unreserved by (auto simp: JoinHostPort_def plain_host_def list_all_iff)

lemma literal_join: "literal_host ip_ok h \<Longrightarrow> JoinHostPort h port = CHR ''['' # h @ CHR '']'' # CHR '':'' # port"
  by (simp add: JoinHostPort_def literal_host_def)

lemma host_char_plain: "unreserved c \<or> c \<in> set '':[]'' \<Longrightarrow> \<not> shouldEscape EncHost c"
proof -
  have "list_all (\<lambda>c. \<not> shouldEscape EncHost c) '':[]''" by code_simp
  then show "unreserved c \<or> c \<in> set '':[]'' \<Longrightarrow> ?thesis" using unreserved_plain by (auto simp: list_all_iff)
qed

lemma join_chars:
  assumes "url_host ip_ok h" "digits_only port" "c \<in> set (JoinHostPort h port)"
  shows "unreserved c \<or> c \<in> set '':[]''"
  using assms digits_only_unreserved [of port]
  by (auto simp: url_host_def plain_join literal_join plain_host_def literal_host_def list_all_iff)

lemma join_escape:
  assumes "url_host ip_ok h" "digits_only port"
  shows "escape EncHost (JoinHostPort h port) = JoinHostPort h port"
proof (rule escape_id)
  show "\<not> shouldEscape EncHost c" if "c \<in> set (JoinHostPort h port)" for c
    using join_chars [OF assms that] by (rule host_char_plain)
  show "CHR '' '' \<notin> set (JoinHostPort h port)"
    using join_chars [OF assms, of "CHR '' ''"] not_unreserved by auto
qed

lemma parseHost_join:
  assumes "url_host ip_ok h" "digits_only port"
  shows "parseHost ip_ok (JoinHostPort h port) = Some (JoinHostPort h port)"
  using assms(1) unfolding url_host_def
proof
  assume h: "plain_host h"
  have n: "CHR ''['' \<notin> set (h @ CHR '':'' # port)" "CHR '':'' \<notin> set h"
    using h assms(2) digits_only_unreserved [of port] not_unreserved by (auto simp: plain_host_def list_all_iff)
  have "unescape EncHost (h @ CHR '':'' # port) = Some (h @ CHR '':'' # port)"
    using join_chars [OF assms] by (intro unescape_id host_char_plain) (simp_all add: plain_join [OF h])
  then show ?thesis using n assms(2) by (simp add: parseHost_def plain_join [OF h] cut_absent)
next
  assume h: "literal_host ip_ok h"
  let ?s = "CHR ''['' # h @ CHR '']'' # CHR '':'' # port"
  have n: "CHR ''['' \<notin> set (h @ CHR '']'' # CHR '':'' # port)" "CHR '']'' \<notin> set (CHR '':'' # port)" "CHR ''%'' \<notin> set h"
    using h assms(2) digits_only_unreserved [of port] not_unreserved by (auto simp: literal_host_def list_all_iff)
  have "cut_last_byte (CHR ''['') ?s = Some ([], h @ CHR '']'' # CHR '':'' # port)"
    using cut_last_byte_append [OF n(1), of "[]"] by simp
  moreover have "cut_last_byte (CHR '']'') ?s = Some (CHR ''['' # h, CHR '':'' # port)"
    using cut_last_byte_append [OF n(2), of "CHR ''['' # h"] by simp
  moreover have "Index h ''%25'' = None"
  proof -
    have "\<not> Contains h ''%25''" using n(3) by (auto simp: Contains_iff)
    then show ?thesis by (simp add: Contains_def)
  qed
  moreover have "unescape EncHost h = Some h"
    using h by (intro unescape_id host_char_plain) (auto simp: literal_host_def list_all_iff)
  ultimately show ?thesis
    using h assms(2) by (simp add: parseHost_def literal_join [OF h] parse_literal_def validOptionalPort_def literal_host_def)
qed

lemma split_join_host:
  assumes "url_host ip_ok h" "digits_only port"
  shows "splitHostPort (JoinHostPort h port) = (h, port)"
  using assms(1) unfolding url_host_def
proof
  have c: "CHR '':'' \<notin> set port" using assms(2) digits_only_unreserved [of port] not_unreserved by auto
  {
    assume h: "plain_host h"
    then have "hd h \<noteq> CHR ''[''" using not_unreserved by (cases h) (auto simp: plain_host_def)
    then show ?thesis using c assms(2) by (simp add: splitHostPort_def plain_join [OF h] validOptionalPort_def)
  next
    assume h: "literal_host ip_ok h"
    have "cut_last_byte (CHR '':'') (CHR ''['' # h @ CHR '']'' # CHR '':'' # port) = Some (CHR ''['' # h @ [CHR '']''], port)"
      using cut_last_byte_append [OF c, of "CHR ''['' # h @ [CHR '']'']"] by simp
    then show ?thesis using assms(2) by (simp add: splitHostPort_def literal_join [OF h] validOptionalPort_def)
  }
qed

lemma alnum_or_reserved_not:
  "unreserved c \<or> c \<in> set ''%$&+,;='' \<Longrightarrow> c \<notin> set ''@/?:#[]'' \<and> \<not> control_byte c"
proof -
  have "list_all (\<lambda>c. c \<notin> set ''@/?:#[]'' \<and> \<not> control_byte c) ''%$&+,;=''" by code_simp
  then show "unreserved c \<or> c \<in> set ''%$&+,;='' \<Longrightarrow> ?thesis"
    using not_unreserved unreserved_not_control by (auto simp: list_all_iff)
qed

lemma valid_user_char: "unreserved c \<or> c \<in> set ''%$&+,;=:'' \<Longrightarrow> alnum c \<or> c \<in> set (''-._:~!$&()*+,;=%@'' @ [CHR 0x27])"
proof -
  have "list_all (\<lambda>c. c \<in> set (''-._:~!$&()*+,;=%@'' @ [CHR 0x27])) ''-_.~%$&+,;=:''" by code_simp
  then show "unreserved c \<or> c \<in> set ''%$&+,;=:'' \<Longrightarrow> ?thesis" unfolding list_all_iff unreserved_def by auto
qed

lemma userinfo_chars: "c \<in> set (userinfo_String ui) \<Longrightarrow> unreserved c \<or> c \<in> set ''%$&+,;=:''"
proof -
  assume "c \<in> set (userinfo_String ui)"
  then consider s where "c \<in> set (escape EncUserPassword s)" | "c = CHR '':''"
    by (auto simp: userinfo_String_def split: prod.splits option.splits)
  then show ?thesis using escape_user_set [of c] by cases auto
qed

lemma colon_not_user: "CHR '':'' \<notin> set (escape EncUserPassword s)"
  using escape_user_set [of "CHR '':''" s] not_unreserved by auto

lemma parseUserinfo_String: "parseUserinfo (userinfo_String ui) = Some ui"
proof -
  have v: "validUserinfo (userinfo_String ui)"
    using userinfo_chars [of _ ui] valid_user_char unfolding validUserinfo_def list_all_iff by blast
  have d: "cut_byte (CHR '':'') (escape EncUserPassword s @ CHR '':'' # t) = Some (escape EncUserPassword s, t)" for s t
    using colon_not_user by simp
  show ?thesis
  proof (cases ui)
    case (Pair n pw)
    then show ?thesis using v d by (cases pw) (simp_all add: parseUserinfo_def userinfo_String_def cut_absent colon_not_user)
  qed
qed

definition printed_authority :: "Userinfo option \<Rightarrow> string \<Rightarrow> string" where
  "printed_authority ui host = (case ui of None \<Rightarrow> '''' | Some u \<Rightarrow> userinfo_String u @ ''@'') @ host"

definition query_text :: "string \<Rightarrow> bool" where
  "query_text q \<longleftrightarrow> list_all (\<lambda>c. unreserved c \<or> c \<in> set ''%+&='') q"

lemma host_not: "unreserved c \<or> c \<in> set '':[]'' \<Longrightarrow> c \<notin> set ''@/?#'' \<and> \<not> control_byte c"
proof -
  have "list_all (\<lambda>c. c \<notin> set ''@/?#'' \<and> \<not> control_byte c) '':[]''" by code_simp
  then show "unreserved c \<or> c \<in> set '':[]'' \<Longrightarrow> ?thesis"
    using not_unreserved unreserved_not_control by (auto simp: list_all_iff)
qed

lemma user_not: "unreserved c \<or> c \<in> set ''%$&+,;=:'' \<Longrightarrow> c \<notin> set ''@/?#'' \<and> \<not> control_byte c"
proof -
  have "list_all (\<lambda>c. c \<notin> set ''@/?#'' \<and> \<not> control_byte c) ''%$&+,;=:''" by code_simp
  then show "unreserved c \<or> c \<in> set ''%$&+,;=:'' \<Longrightarrow> ?thesis"
    using not_unreserved unreserved_not_control by (auto simp: list_all_iff)
qed

lemma query_not: "unreserved c \<or> c \<in> set ''%+&='' \<Longrightarrow> c \<noteq> CHR ''#'' \<and> \<not> control_byte c"
  using alnum_or_reserved_not [of c] by auto

lemma printed_chars:
  assumes h: "url_host ip_ok h" and port: "digits_only port" and c: "c \<in> set (printed_authority ui (JoinHostPort h port))"
  shows "c \<notin> set ''/?#'' \<and> \<not> control_byte c"
proof -
  have at: "CHR ''@'' \<notin> set ''/?#'' \<and> \<not> control_byte (CHR ''@'')" by code_simp
  from c consider "c \<in> set (JoinHostPort h port)" | u where "c \<in> set (userinfo_String u)" | "c = CHR ''@''"
    by (auto simp: printed_authority_def split: option.splits)
  then show ?thesis
    using host_not [OF join_chars [OF h port]] user_not [OF userinfo_chars] at by cases auto
qed

lemma parse_printed_authority:
  assumes h: "url_host ip_ok h" and port: "digits_only port"
  shows "parseAuthority ip_ok (printed_authority ui (JoinHostPort h port)) = Some (ui, JoinHostPort h port)"
proof -
  have "CHR ''@'' \<notin> set (JoinHostPort h port)" using host_not [OF join_chars [OF h port], of "CHR ''@''"] by auto
  then show ?thesis
    using parseHost_join [OF h port] parseUserinfo_String
    by (cases ui) (simp_all add: printed_authority_def parseAuthority_def cut_absent)
qed

lemma parse_printed:
  assumes h: "url_host ip_ok h" and port: "digits_only port" and "query_text q"
  shows "parse_after_scheme ip_ok (printed_authority ui (JoinHostPort h port) @ (if q \<noteq> '''' then ''?'' @ q else '''')) =
    Some \<lparr>url_User = ui, url_Host = JoinHostPort h port, url_RawQuery = q\<rparr>"
proof -
  let ?a = "printed_authority ui (JoinHostPort h port)" let ?s = "?a @ (if q \<noteq> '''' then ''?'' @ q else '''')"
  have a: "CHR ''?'' \<notin> set ?a" "CHR ''/'' \<notin> set ?a" using printed_chars [OF h port] by auto
  have "\<not> control_byte c" if "c \<in> set ?s" for c
  proof -
    have "\<not> control_byte (CHR ''?'')" by code_simp
    then show ?thesis using that printed_chars [OF h port] assms(3) query_not by (auto simp: query_text_def list_all_iff split: if_splits)
  qed
  then have "\<not> list_ex control_byte ?s" by (auto simp: list_ex_iff)
  moreover have "cut_query ?s = (?a, q)" using a(1) by (auto simp: cut_query_def cut_absent)
  moreover have "cut_path ?a = (?a, '''')" using a(2) by (simp add: cut_path_def cut_absent)
  ultimately show ?thesis by (simp add: parse_after_scheme_def parse_printed_authority [OF h port])
qed

text \<open>Encoded values are read back.\<close>

lemma query_char_not: "c \<in> set (escape EncQuery s) \<Longrightarrow> c \<notin> set ''&=;''"
proof -
  have "list_all (\<lambda>c. c \<notin> set ''&=;'') ''%+''" by code_simp
  then show "c \<in> set (escape EncQuery s) \<Longrightarrow> ?thesis"
    using escape_query_set [of c s] not_unreserved by (auto simp: list_all_iff)
qed

definition encode_pair :: "string \<times> string \<Rightarrow> string" where
  "encode_pair = (\<lambda>(k, v). escape EncQuery k @ ''='' @ escape EncQuery v)"

lemma query_pair_encoded: "query_pair (encode_pair kv) = Some kv"
proof (cases kv)
  case (Pair k v)
  have "cut_byte (CHR ''='') (escape EncQuery k @ CHR ''='' # escape EncQuery v) = Some (escape EncQuery k, escape EncQuery v)"
    using query_char_not [of "CHR ''=''" k] by (intro cut_byte_append) auto
  moreover have "CHR '';'' \<notin> set (escape EncQuery k @ CHR ''='' # escape EncQuery v)"
    using query_char_not [of "CHR '';''"] by auto
  ultimately show ?thesis by (simp add: Pair encode_pair_def query_pair_def)
qed

definition sorted_values :: "Values \<Rightarrow> Values" where
  "sorted_values q = sort_key (\<lambda>(k, v). map (of_char :: char \<Rightarrow> nat) k) q"

lemma Encode_eq: "Encode q = join_with ''&'' (map encode_pair (sorted_values q))"
  by (simp add: Encode_def encode_pair_def sorted_values_def)

lemma ParseQuery_Encode: "ParseQuery (Encode q) = sorted_values q"
proof (cases "sorted_values q = []")
  case True
  then show ?thesis by (simp add: ParseQuery_def Encode_eq List.map_filter_def query_pair_def)
next
  case False
  have "CHR ''&'' \<notin> set (encode_pair kv)" for kv
    using query_char_not [of "CHR ''&''"] by (cases kv) (auto simp: encode_pair_def)
  then have "split_byte (CHR ''&'') (Encode q) = map encode_pair (sorted_values q)"
    unfolding Encode_eq using False by (intro split_join) auto
  then show ?thesis by (simp add: ParseQuery_def List.map_filter_def query_pair_encoded o_def)
qed

lemma map_of_sorted:
  assumes "distinct (map fst q)"
  shows "map_of (sorted_values q) = map_of q"
proof (rule map_of_eqI)
  show "set (map fst (sorted_values q)) = set (map fst q)" by (simp add: sorted_values_def)
  have "distinct (map fst (sorted_values q))"
    using assms by (simp add: sorted_values_def distinct_map)
  then show "\<forall>k \<in> set (map fst (sorted_values q)). map_of (sorted_values q) k = map_of q k"
    using assms by (auto simp: sorted_values_def)
qed

lemma Get_Encode: "distinct (map fst q) \<Longrightarrow> values_Get (ParseQuery (Encode q)) k = values_Get q k"
  by (simp add: values_Get_def ParseQuery_Encode map_of_sorted)

lemma Encode_text: "query_text (Encode q)"
proof -
  have "unreserved c \<or> c \<in> set ''%+&=''" if "c \<in> set (encode_pair kv)" for c kv
    using that escape_query_set [of c] by (cases kv) (auto simp: encode_pair_def)
  moreover have "set (join_with ''&'' ss) \<subseteq> \<Union> (set ` set ss) \<union> {CHR ''&''}" for ss
    by (induction "''&''" ss rule: join_with.induct) auto
  ultimately show ?thesis by (fastforce simp: query_text_def list_all_iff Encode_eq)
qed

lemma Encode_nonempty: "q \<noteq> [] \<Longrightarrow> Encode q \<noteq> ''''"
proof -
  assume "q \<noteq> []"
  then obtain kv kvs where "sorted_values q = kv # kvs"
    by (metis list.exhaust set_empty set_sort sorted_values_def)
  then show ?thesis by (cases kvs; cases kv) (auto simp: Encode_eq encode_pair_def)
qed

end
