(* ===== verification/Share_Links.thy ===== *)
theory Share_Links
  imports Omni_Models Go_Base64 Go_JSON Go_URL
begin

text \<open>
  Share links (\<open>core/server/links.go\<close>, \<open>linkgen.go\<close>): parsing the native link formats into
  profiles, and printing profiles as links. Two facts of Go's libraries are arguments: which
  texts are IPv6 addresses, and the decimal text of a JSON number that is not a small integer
  (none if it is out of the range of a float). Error texts leave out the wording library errors
  append.
\<close>

record LinkEnv =
  le_ip_ok :: "string \<Rightarrow> bool"
  le_float :: "string \<Rightarrow> string option"

section \<open>Pieces of a link\<close>

definition errUnsupportedLink :: "string \<Rightarrow> goerror" where
  "errUnsupportedLink scheme = GoError ErrUnsupportedLink (''server: unsupported link: '' @ Quote scheme)"

definition schemeOf :: "string \<Rightarrow> string" where
  "schemeOf link =
     (case Index link ''://'' of Some i \<Rightarrow> if 0 < i then take i link else ''unknown'' | None \<Rightarrow> ''unknown'')"

definition truthy :: "string \<Rightarrow> bool" where
  "truthy v = (ToLower (TrimSpace v) \<in> set [''1'', ''true'', ''yes'', ''on''])"

definition boolQuery :: "Values \<Rightarrow> string \<Rightarrow> bool" where
  "boolQuery q key = truthy (values_Get q key)"

definition allowInsecure :: "string \<Rightarrow> bool" where
  "allowInsecure v = truthy v"

definition newProfile ::
  "Protocol \<Rightarrow> string \<Rightarrow> string \<Rightarrow> int \<Rightarrow> ServerProfile \<Rightarrow> goerror + ServerProfile" where
  "newProfile protocol name address port extra =
     (let p = zero_profile\<lparr>sp_Name := TrimSpace name, sp_Protocol := protocol, sp_Address := TrimSpace address,
            sp_Port := port, sp_Username := sp_Username extra, sp_Password := sp_Password extra,
            sp_Cipher := sp_Cipher extra, sp_UUID := sp_UUID extra, sp_Flow := sp_Flow extra,
            sp_Security := sp_Security extra, sp_TLS := sp_TLS extra, sp_Transport := sp_Transport extra,
            sp_GlobalPadding := sp_GlobalPadding extra, sp_PacketEncoding := sp_PacketEncoding extra\<rparr>;
          p' = (if sp_Name p = '''' then p\<lparr>sp_Name := protocol @ '' @ '' @ sp_Address p @ '':'' @ Itoa (sp_Port p)\<rparr> else p)
      in case Validate p' of Some e \<Rightarrow> Inl (wrap (protocol @ '': '') e) | None \<Rightarrow> Inr p')"

definition transportFromNetwork :: "string \<Rightarrow> string \<Rightarrow> string \<Rightarrow> goerror + TransportConfig option" where
  "transportFromNetwork network host path =
     (let n = ToLower (TrimSpace network)
      in if n \<in> {'''', ''tcp''} then
           (if TrimSpace host = '''' \<and> TrimSpace path = '''' then Inr None
            else Inl (plain_error ''tcp links with host/path are malformed''))
         else if n \<in> {''ws'', ''websocket''} then
           Inr (Some \<lparr>tr_Type = TransportWS, tr_Path = path, tr_Host = host, tr_MaxEarlyData = 0,
                  tr_EarlyDataHeaderName = ''''\<rparr>)
         else if n \<in> {''grpc'', ''h2'', ''http'', ''httpupgrade'', ''quic''} then
           Inl (plain_error (network @ '' transport is not supported yet''))
         else Inl (plain_error (''unknown transport '' @ Quote network)))"

definition splitComma :: "string \<Rightarrow> string list" where
  "splitComma s = filter (\<lambda>p. p \<noteq> '''') (map TrimSpace (split_byte (CHR '','') s))"

definition tlsFromFields :: "bool \<Rightarrow> string \<Rightarrow> string \<Rightarrow> string \<Rightarrow> string \<Rightarrow> bool \<Rightarrow> TLSConfig" where
  "tlsFromFields enabled sni host fingerprint alpn insecure =
     (if \<not> enabled then zero_TLS
      else (let sn = TrimSpace sni
            in \<lparr>tls_Enabled = True, tls_AllowInsecure = insecure,
                tls_ServerName = (if sn = '''' then TrimSpace host else sn),
                tls_ALPN = (if alpn \<noteq> '''' then splitComma alpn else []), tls_Fingerprint = fingerprint\<rparr>))"

definition splitFragment :: "string \<Rightarrow> string \<times> string" where
  "splitFragment rest =
     (case cut_byte (CHR ''#'') rest of
        None \<Rightarrow> ('''', rest)
      | Some (r, frag) \<Rightarrow>
          (TrimSpace (case unescape EncQuery frag of Some d \<Rightarrow> d | None \<Rightarrow> frag), r))"

definition parsePort :: "string \<Rightarrow> goerror + int" where
  "parsePort s =
     (if TrimSpace s = '''' then Inl (plain_error ''missing port'')
      else case Atoi (TrimSpace s) of
             Some n \<Rightarrow> if 1 \<le> n \<and> n \<le> 65535 then Inr n else Inl (plain_error (''invalid port '' @ Quote s))
           | None \<Rightarrow> Inl (plain_error (''invalid port '' @ Quote s)))"

text \<open>The port of a JSON payload is any value; \<open>exact_float\<close> bounds the integers a float holds
  exactly.\<close>

definition exact_float :: int where
  "exact_float = 2 ^ 53"

definition portValue :: "LinkEnv \<Rightarrow> json \<Rightarrow> goerror + int" where
  "portValue env v =
     (case v of
        JInt i \<Rightarrow> if \<bar>i\<bar> \<le> exact_float then parsePort (Itoa i)
                 else parsePort (case le_float env (Itoa i) of Some t \<Rightarrow> t | None \<Rightarrow> ''0'')
      | JReal s \<Rightarrow> parsePort (case le_float env s of Some t \<Rightarrow> t | None \<Rightarrow> ''0'')
      | JString s \<Rightarrow> parsePort s
      | _ \<Rightarrow> parsePort ''0'')"

text \<open>\<open>Atoi\<close> of digits beyond the range of the type returns the largest value beside its error.\<close>

definition mustInt :: "string \<Rightarrow> int" where
  "mustInt s =
     (case Atoi s of
        Some n \<Rightarrow> n
      | None \<Rightarrow> if s \<noteq> [] \<and> digits_only s then 2 ^ 63 - 1 else 0)"

definition portOr :: "string \<Rightarrow> string \<Rightarrow> int" where
  "portOr port fallback = (if port = '''' then mustInt fallback else mustInt port)"

fun first_decoding :: "b64 list \<Rightarrow> string \<Rightarrow> string option" where
  "first_decoding [] s = None"
| "first_decoding (enc # encs) s =
     (case b64_decode enc s of Some b \<Rightarrow> Some b | None \<Rightarrow> first_decoding encs s)"

definition decodeBase64 :: "string \<Rightarrow> goerror + string" where
  "decodeBase64 s =
     (case first_decoding [RawStdEncoding, StdEncoding, RawURLEncoding, URLEncoding] (TrimSpace s) of
        Some b \<Rightarrow> Inr b
      | None \<Rightarrow> Inl (plain_error ''invalid base64''))"

definition split_pair :: "string \<Rightarrow> (string \<times> string) option" where
  "split_pair s =
     (case cut_byte (CHR '':'') s of
        Some (a, b) \<Rightarrow> if a = '''' \<or> b = '''' then None else Some (a, b)
      | None \<Rightarrow> None)"

section \<open>VMess\<close>

record vmess_json =
  vm_PS :: string
  vm_Add :: string
  vm_Port :: json
  vm_ID :: string
  vm_Security :: string
  vm_Network :: string
  vm_Host :: string
  vm_Path :: string
  vm_TLS :: string
  vm_SNI :: string
  vm_FP :: string
  vm_ALPN :: string
  vm_AllowInsecure :: bool
  vm_GlobalPadding :: bool
  vm_PacketEncoding :: string

definition zero_vmess :: vmess_json where
  "zero_vmess = \<lparr>vm_PS = '''', vm_Add = '''', vm_Port = JNull, vm_ID = '''', vm_Security = '''', vm_Network = '''',
     vm_Host = '''', vm_Path = '''', vm_TLS = '''', vm_SNI = '''', vm_FP = '''', vm_ALPN = '''',
     vm_AllowInsecure = False, vm_GlobalPadding = False, vm_PacketEncoding = ''''\<rparr>"

text \<open>A number stored in a field of type \<open>any\<close> becomes a float, which can be out of range.\<close>

definition floats_ok :: "LinkEnv \<Rightarrow> json \<Rightarrow> bool" where
  "floats_ok env v = (case v of JReal s \<Rightarrow> le_float env s \<noteq> None
     | JInt i \<Rightarrow> \<bar>i\<bar> \<le> exact_float \<or> le_float env (Itoa i) \<noteq> None | _ \<Rightarrow> True)"

definition vmess_field :: "LinkEnv \<Rightarrow> string \<Rightarrow> json \<Rightarrow> vmess_json \<Rightarrow> vmess_json option" where
  "vmess_field env k v vm =
     (if k = ''ps'' then into_string (\<lambda>x. vm_PS_update (\<lambda>_. x)) v vm
      else if k = ''add'' then into_string (\<lambda>x. vm_Add_update (\<lambda>_. x)) v vm
      else if k = ''port'' then (if floats_ok env v then Some (vm\<lparr>vm_Port := v\<rparr>) else None)
      else if k = ''id'' then into_string (\<lambda>x. vm_ID_update (\<lambda>_. x)) v vm
      else if k = ''scy'' then into_string (\<lambda>x. vm_Security_update (\<lambda>_. x)) v vm
      else if k = ''net'' then into_string (\<lambda>x. vm_Network_update (\<lambda>_. x)) v vm
      else if k = ''host'' then into_string (\<lambda>x. vm_Host_update (\<lambda>_. x)) v vm
      else if k = ''path'' then into_string (\<lambda>x. vm_Path_update (\<lambda>_. x)) v vm
      else if k = ''tls'' then into_string (\<lambda>x. vm_TLS_update (\<lambda>_. x)) v vm
      else if k = ''sni'' then into_string (\<lambda>x. vm_SNI_update (\<lambda>_. x)) v vm
      else if k = ''fp'' then into_string (\<lambda>x. vm_FP_update (\<lambda>_. x)) v vm
      else if k = ''alpn'' then into_string (\<lambda>x. vm_ALPN_update (\<lambda>_. x)) v vm
      else if k = ''allowinsecure'' then into_bool (\<lambda>x. vm_AllowInsecure_update (\<lambda>_. x)) v vm
      else if k = ''global_padding'' then into_bool (\<lambda>x. vm_GlobalPadding_update (\<lambda>_. x)) v vm
      else if k = ''packetencoding'' then into_string (\<lambda>x. vm_PacketEncoding_update (\<lambda>_. x)) v vm
      else Some vm)"

definition vmess_profile :: "LinkEnv \<Rightarrow> vmess_json \<Rightarrow> goerror + ServerProfile" where
  "vmess_profile env vm =
     (if TrimSpace (vm_Add vm) = '''' \<or> TrimSpace (vm_ID vm) = '''' then Inl (plain_error ''vmess: missing address or uuid'')
      else case portValue env (vm_Port vm) of
             Inl e \<Rightarrow> Inl e
           | Inr port \<Rightarrow>
               if vm_TLS vm = ''reality'' then Inl (plain_error ''vmess: reality is not supported yet'')
               else (case transportFromNetwork (vm_Network vm) (vm_Host vm) (vm_Path vm) of
                       Inl e \<Rightarrow> Inl e
                     | Inr transport \<Rightarrow>
                         newProfile ProtocolVMess (vm_PS vm) (vm_Add vm) port
                           (zero_profile\<lparr>sp_UUID := TrimSpace (vm_ID vm), sp_Transport := transport,
                              sp_TLS := tlsFromFields (vm_TLS vm = ''tls'') (vm_SNI vm) (vm_Host vm) (vm_FP vm) (vm_ALPN vm)
                                (vm_AllowInsecure vm),
                              sp_GlobalPadding := vm_GlobalPadding vm, sp_PacketEncoding := vm_PacketEncoding vm,
                              sp_Security := vm_Security vm\<rparr>)))"

text \<open>The query fields the URL formats share.\<close>

definition query_transport :: "Values \<Rightarrow> goerror + TransportConfig option" where
  "query_transport q = transportFromNetwork (values_Get q ''type'') (values_Get q ''host'') (values_Get q ''path'')"

definition query_tls :: "bool \<Rightarrow> string \<Rightarrow> Values \<Rightarrow> TLSConfig" where
  "query_tls enabled host q =
     tlsFromFields enabled (values_Get q ''sni'') host (values_Get q ''fp'') (values_Get q ''alpn'')
       (allowInsecure (values_Get q ''allowInsecure''))"

definition parse_error :: "string \<Rightarrow> goerror" where
  "parse_error scheme = plain_error (scheme @ '': parse'')"

definition parseVMessSIP002 :: "LinkEnv \<Rightarrow> string \<Rightarrow> goerror + ServerProfile" where
  "parseVMessSIP002 env link =
     (let (name, rest) = splitFragment (TrimPrefix link ''vmess://'')
      in case parse_after_scheme (le_ip_ok env) rest of
           None \<Rightarrow> Inl (parse_error ''vmess'')
         | Some u \<Rightarrow>
             if TrimSpace (url_Host u) = '''' \<or> TrimSpace (Username (url_User u)) = '''' then
               Inl (plain_error ''vmess: missing host or uuid'')
             else (let q = ParseQuery (url_RawQuery u); sec = TrimSpace (values_Get q ''encryption'')
                   in if values_Get q ''security'' = ''reality'' then Inl (plain_error ''vmess: reality is not supported yet'')
                      else (case query_transport q of
                              Inl e \<Rightarrow> Inl e
                            | Inr transport \<Rightarrow>
                                newProfile ProtocolVMess name (Hostname u) (portOr (Port u) ''443'')
                                  (zero_profile\<lparr>sp_UUID := Username (url_User u),
                                     sp_Security := (if sec = '''' then ''auto'' else sec),
                                     sp_Transport := transport,
                                     sp_TLS := query_tls (values_Get q ''security'' = ''tls'') (values_Get q ''host'') q,
                                     sp_GlobalPadding := boolQuery q ''global_padding'',
                                     sp_AuthenticatedLength := boolQuery q ''authenticated_length'',
                                     sp_PacketEncoding := values_Get q ''packetEncoding''\<rparr>))))"

definition parseVMess :: "LinkEnv \<Rightarrow> string \<Rightarrow> goerror + ServerProfile" where
  "parseVMess env link =
     (let payload = TrimPrefix link ''vmess://''
      in if Contains payload ''@'' then parseVMessSIP002 env link
         else (case decodeBase64 (TrimSpace payload) of
                 Inl e \<Rightarrow> Inl (wrap ''vmess: invalid base64 payload: '' e)
               | Inr raw \<Rightarrow>
                   (case (case json_parse raw of
                            None \<Rightarrow> None | Some j \<Rightarrow> into_object (vmess_field env) j zero_vmess) of
                      None \<Rightarrow> Inl (plain_error ''vmess: payload is not JSON'')
                    | Some vm \<Rightarrow> vmess_profile env vm)))"

section \<open>The other formats\<close>

definition parseVLess :: "LinkEnv \<Rightarrow> string \<Rightarrow> goerror + ServerProfile" where
  "parseVLess env link =
     (let (name, rest) = splitFragment (TrimPrefix link ''vless://'')
      in case parse_after_scheme (le_ip_ok env) rest of
           None \<Rightarrow> Inl (parse_error ''vless'')
         | Some u \<Rightarrow>
             if TrimSpace (url_Host u) = '''' \<or> TrimSpace (Username (url_User u)) = '''' then
               Inl (plain_error ''vless: missing host or uuid'')
             else (let q = ParseQuery (url_RawQuery u); enc = values_Get q ''encryption''
                   in if enc \<noteq> '''' \<and> enc \<noteq> ''none'' \<and> enc \<noteq> ''auto'' then
                        Inl (plain_error (''vless: unsupported encryption '' @ Quote enc @ '' (only none)''))
                      else if values_Get q ''security'' = ''reality'' then Inl (plain_error ''vless: reality is not supported yet'')
                      else (case query_transport q of
                              Inl e \<Rightarrow> Inl e
                            | Inr transport \<Rightarrow>
                                newProfile ProtocolVLESS name (Hostname u) (portOr (Port u) ''443'')
                                  (zero_profile\<lparr>sp_UUID := Username (url_User u), sp_Flow := values_Get q ''flow'',
                                     sp_Transport := transport,
                                     sp_TLS := query_tls (values_Get q ''security'' = ''tls'') (values_Get q ''host'') q,
                                     sp_PacketEncoding := values_Get q ''packetEncoding''\<rparr>))))"

definition parseTrojan :: "LinkEnv \<Rightarrow> string \<Rightarrow> goerror + ServerProfile" where
  "parseTrojan env link =
     (let (name, rest) = splitFragment (TrimPrefix link ''trojan://'')
      in case parse_after_scheme (le_ip_ok env) rest of
           None \<Rightarrow> Inl (parse_error ''trojan'')
         | Some u \<Rightarrow>
             if TrimSpace (url_Host u) = '''' \<or> url_User u = None \<or> Username (url_User u) = '''' then
               Inl (plain_error ''trojan: missing host or password'')
             else (let q = ParseQuery (url_RawQuery u)
                   in case query_transport q of
                        Inl e \<Rightarrow> Inl e
                      | Inr transport \<Rightarrow>
                          newProfile ProtocolTrojan name (Hostname u) (portOr (Port u) ''443'')
                            (zero_profile\<lparr>sp_Password := Username (url_User u), sp_Transport := transport,
                               sp_TLS := query_tls True (Hostname u) q\<rparr>)))"

definition parseUserPass :: "LinkEnv \<Rightarrow> string \<Rightarrow> Protocol \<Rightarrow> goerror + ServerProfile" where
  "parseUserPass env link protocol =
     (let prefix = (if protocol = ProtocolHTTP then ''http://''
                    else if HasPrefix link ''socks://'' then ''socks://'' else ''socks5://'');
          (name, rest) = splitFragment (TrimPrefix link prefix)
      in case parse_after_scheme (le_ip_ok env) rest of
           None \<Rightarrow> Inl (parse_error protocol)
         | Some u \<Rightarrow>
             if TrimSpace (url_Host u) = '''' then Inl (plain_error (protocol @ '': missing host''))
             else newProfile protocol name (Hostname u) (portOr (Port u) ''1080'')
                    (zero_profile\<lparr>sp_Address := Hostname u,
                       sp_Username := Username (url_User u),
                       sp_Password := (case url_User u of Some (n, Some pw) \<Rightarrow> pw | _ \<Rightarrow> '''')\<rparr>))"

definition ss_profile :: "string \<Rightarrow> string \<Rightarrow> int \<Rightarrow> string \<times> string \<Rightarrow> goerror + ServerProfile" where
  "ss_profile name host port mp =
     newProfile ProtocolShadowsocks name host port (zero_profile\<lparr>sp_Cipher := fst mp, sp_Password := snd mp\<rparr>)"

definition parseShadowsocksFull :: "string \<Rightarrow> string \<Rightarrow> goerror + ServerProfile" where
  "parseShadowsocksFull name full =
     (case cut_byte (CHR ''@'') full of
        None \<Rightarrow> Inl (plain_error ''ss: expected method:password@host:port'')
      | Some (host, rest) \<Rightarrow>
          (case split_pair host of
             None \<Rightarrow> Inl (plain_error ''ss: expected method:password'')
           | Some mp \<Rightarrow>
               (case cut_byte (CHR '':'') rest of
                  None \<Rightarrow> Inl (plain_error ''ss: missing host:port'')
                | Some (addr, port) \<Rightarrow>
                    (case parsePort port of Inl e \<Rightarrow> Inl e | Inr n \<Rightarrow> ss_profile name addr n mp))))"

definition parseShadowsocks :: "string \<Rightarrow> goerror + ServerProfile" where
  "parseShadowsocks link =
     (let (name, rest) = splitFragment (TrimPrefix link ''ss://''); (rest', query) = cut_query rest
      in case cut_last_byte (CHR ''@'') rest' of
           None \<Rightarrow>
             (case decodeBase64 rest' of
                Inl e \<Rightarrow> Inl (wrap ''ss: invalid base64 payload: '' e)
              | Inr full \<Rightarrow> parseShadowsocksFull name full)
         | Some (userInfo, hp) \<Rightarrow>
             (case decodeBase64 userInfo of
                Inl e \<Rightarrow> Inl (wrap ''ss: invalid method:password encoding: '' e)
              | Inr methodPass \<Rightarrow>
                  (case cut_byte (CHR '':'') hp of
                     None \<Rightarrow> Inl (plain_error ''ss: missing host:port'')
                   | Some (host, port) \<Rightarrow>
                       (case parsePort port of
                          Inl e \<Rightarrow> Inl e
                        | Inr n \<Rightarrow>
                            (case split_pair methodPass of
                               None \<Rightarrow> Inl (plain_error ''ss: expected method:password'')
                             | Some mp \<Rightarrow>
                                 if Contains query ''plugin='' then Inl (plain_error ''ss: plugins are not supported yet'')
                                 else ss_profile name host n mp)))))"

definition ParseLink :: "LinkEnv \<Rightarrow> string \<Rightarrow> goerror + ServerProfile" where
  "ParseLink env link =
     (let t = TrimSpace link
      in if HasPrefix t ''vmess://'' then parseVMess env t
         else if HasPrefix t ''vless://'' then parseVLess env t
         else if HasPrefix t ''ss://'' then parseShadowsocks t
         else if HasPrefix t ''trojan://'' then parseTrojan env t
         else if HasPrefix t ''socks5://'' \<or> HasPrefix t ''socks://'' then parseUserPass env t ProtocolSOCKS5
         else if HasPrefix t ''http://'' then parseUserPass env t ProtocolHTTP
         else Inl (errUnsupportedLink (schemeOf t)))"

section \<open>Printing links\<close>

definition set_if :: "bool \<Rightarrow> string \<Rightarrow> string \<Rightarrow> Values \<Rightarrow> Values" where
  "set_if b k v q = (if b then values_Set k v q else q)"

definition streamQuery :: "ServerProfile \<Rightarrow> goerror + Values" where
  "streamQuery p =
     (let t = sp_TLS p;
          q1 = values_Set ''security'' (if tls_Enabled t then ''tls'' else ''none'') [];
          q2 = set_if (tls_ServerName t \<noteq> '''') ''sni'' (tls_ServerName t) q1;
          q3 = set_if (tls_ALPN t \<noteq> []) ''alpn'' (join_with '','' (tls_ALPN t)) q2;
          q4 = set_if (tls_Fingerprint t \<noteq> '''') ''fp'' (tls_Fingerprint t) q3;
          q5 = set_if (tls_AllowInsecure t) ''allowInsecure'' ''1'' q4;
          pe = set_if (sp_PacketEncoding p \<noteq> '''') ''packetEncoding'' (sp_PacketEncoding p)
      in case sp_Transport p of
           None \<Rightarrow> Inr (pe q5)
         | Some tr \<Rightarrow>
             if tr_Type tr = TransportTCP then Inr (pe q5)
             else if tr_Type tr = TransportWS then
               (let q6 = values_Set ''type'' ''ws'' q5;
                    q7 = set_if (tr_Path tr \<noteq> '''') ''path'' (tr_Path tr) q6;
                    q8 = set_if (tr_Host tr \<noteq> '''') ''host'' (tr_Host tr) q7
                in Inr (pe q8))
             else Inl (plain_error (''server: cannot export '' @ tr_Type tr @ '' transport as a share link'')))"

definition hostPort :: "ServerProfile \<Rightarrow> string" where
  "hostPort p = JoinHostPort (sp_Address p) (Itoa (sp_Port p))"

definition linkVLESS :: "ServerProfile \<Rightarrow> goerror + string" where
  "linkVLESS p =
     (case streamQuery p of
        Inl e \<Rightarrow> Inl e
      | Inr q \<Rightarrow>
          (let q1 = values_Set ''encryption'' ''none'' q;
               q2 = set_if (sp_Flow p \<noteq> '''') ''flow'' (sp_Flow p) q1
           in Inr (url_String ''vless'' \<lparr>url_User = Some (sp_UUID p, None), url_Host = hostPort p, url_RawQuery = Encode q2\<rparr>
                (sp_Name p))))"

definition linkVMess :: "ServerProfile \<Rightarrow> goerror + string" where
  "linkVMess p =
     (case streamQuery p of
        Inl e \<Rightarrow> Inl e
      | Inr q \<Rightarrow>
          (let q1 = values_Set ''encryption'' (if sp_Security p = '''' then ''auto'' else sp_Security p) q;
               q2 = set_if (sp_GlobalPadding p) ''global_padding'' ''1'' q1;
               q3 = set_if (sp_AuthenticatedLength p) ''authenticated_length'' ''1'' q2
           in Inr (url_String ''vmess'' \<lparr>url_User = Some (sp_UUID p, None), url_Host = hostPort p, url_RawQuery = Encode q3\<rparr>
                (sp_Name p))))"

definition linkShadowsocks :: "ServerProfile \<Rightarrow> goerror + string" where
  "linkShadowsocks p =
     (let userInfo = b64_encode RawURLEncoding (sp_Cipher p @ '':'' @ sp_Password p)
      in Inr (url_String ''ss'' \<lparr>url_User = Some (userInfo, None), url_Host = hostPort p, url_RawQuery = ''''\<rparr> (sp_Name p)))"

definition linkTrojan :: "ServerProfile \<Rightarrow> goerror + string" where
  "linkTrojan p =
     (case streamQuery p of
        Inl e \<Rightarrow> Inl e
      | Inr q \<Rightarrow>
          Inr (url_String ''trojan'' \<lparr>url_User = Some (sp_Password p, Some ''''), url_Host = hostPort p, url_RawQuery = Encode q\<rparr>
            (sp_Name p)))"

definition linkUserPass :: "ServerProfile \<Rightarrow> goerror + string" where
  "linkUserPass p =
     (let scheme = (if sp_Protocol p = ProtocolHTTP then ''http'' else ''socks5'');
          user = (if sp_Username p \<noteq> '''' then
                    Some (sp_Username p, if sp_Password p \<noteq> '''' then Some (sp_Password p) else None)
                  else None)
      in Inr (url_String scheme \<lparr>url_User = user, url_Host = hostPort p, url_RawQuery = ''''\<rparr> (sp_Name p)))"

definition Link :: "ServerProfile \<Rightarrow> goerror + string" where
  "Link p =
     (if sp_Protocol p = ProtocolVLESS then linkVLESS p
      else if sp_Protocol p = ProtocolVMess then linkVMess p
      else if sp_Protocol p = ProtocolShadowsocks then linkShadowsocks p
      else if sp_Protocol p = ProtocolTrojan then linkTrojan p
      else if sp_Protocol p = ProtocolSOCKS5 \<or> sp_Protocol p = ProtocolHTTP then linkUserPass p
      else Inl (plain_error (''server: cannot export '' @ sp_Protocol p @ '' as a share link'')))"

end
