(* ===== verification/Secrets.thy ===== *)
theory Secrets
  imports Omni_Prelude Go_Text Go_Base64
begin

text \<open>
  Secure storage (\<open>core/secret\<close>): the \<open>Store\<close> interface and its contract as a locale, the
  in-memory store, the at-rest data key, and sealing. A value of the Go interface is a record
  of its methods over an explicit state. AES-GCM is a parameter: a pair of functions of key,
  nonce and text.
\<close>

section \<open>The interface\<close>

record 's SecretOps =
  so_Get :: "string \<Rightarrow> 's \<Rightarrow> goerror + string"
  so_Set :: "string \<Rightarrow> string \<Rightarrow> 's \<Rightarrow> goerror option \<times> 's"
  so_Delete :: "string \<Rightarrow> 's \<Rightarrow> goerror option \<times> 's"

definition errSecretNotFound :: goerror where
  "errSecretNotFound = GoError ErrSecretNotFound ''secret: not found''"

section \<open>The in-memory store\<close>

type_synonym InMemory = "string \<rightharpoonup> string"

definition NewInMemory :: InMemory where
  "NewInMemory = Map.empty"

definition mem_Get :: "string \<Rightarrow> InMemory \<Rightarrow> goerror + string" where
  "mem_Get key m = (case m key of None \<Rightarrow> Inl errSecretNotFound | Some v \<Rightarrow> Inr v)"

definition mem_Set :: "string \<Rightarrow> string \<Rightarrow> InMemory \<Rightarrow> goerror option \<times> InMemory" where
  "mem_Set key v m = (None, m(key \<mapsto> v))"

definition mem_Delete :: "string \<Rightarrow> InMemory \<Rightarrow> goerror option \<times> InMemory" where
  "mem_Delete key m = (None, m(key := None))"

definition mem_ops :: "InMemory SecretOps" where
  "mem_ops = \<lparr>so_Get = mem_Get, so_Set = mem_Set, so_Delete = mem_Delete\<rparr>"

section \<open>The keyring\<close>

text \<open>The third-party keyring is a parameter: its three functions, by service and key; its own
  not-found error is recognised by \<open>is_missing\<close>.\<close>

record 's KeyringLib =
  kl_Get :: "string \<Rightarrow> string \<Rightarrow> 's \<Rightarrow> goerror + string"
  kl_Set :: "string \<Rightarrow> string \<Rightarrow> string \<Rightarrow> 's \<Rightarrow> goerror option \<times> 's"
  kl_Delete :: "string \<Rightarrow> string \<Rightarrow> 's \<Rightarrow> goerror option \<times> 's"
  kl_is_missing :: "goerror \<Rightarrow> bool"

definition NewKeyring :: "string \<Rightarrow> string" where
  "NewKeyring service = (if service = '''' then ''omniproxy'' else service)"

definition keyring_Get :: "'s KeyringLib \<Rightarrow> string \<Rightarrow> string \<Rightarrow> 's \<Rightarrow> goerror + string" where
  "keyring_Get lib service key s =
     (case kl_Get lib service key s of
        Inl e \<Rightarrow> if kl_is_missing lib e then Inl errSecretNotFound else Inl e
      | Inr v \<Rightarrow> Inr v)"

definition keyring_ops :: "'s KeyringLib \<Rightarrow> string \<Rightarrow> 's SecretOps" where
  "keyring_ops lib service =
     \<lparr>so_Get = keyring_Get lib service, so_Set = kl_Set lib service, so_Delete = kl_Delete lib service\<rparr>"

section \<open>The data key\<close>

definition DataKeyName :: string where
  "DataKeyName = ''omniproxy.atrest.key''"

text \<open>\<open>NewDataKey\<close> with the random source as an argument: its error or 32 bytes.\<close>

definition NewDataKey :: "goerror + string \<Rightarrow> goerror + string" where
  "NewDataKey rnd =
     (case rnd of Inl e \<Rightarrow> Inl (wrap ''secret: generate data key: '' e) | Inr k \<Rightarrow> Inr k)"

definition create_key ::
  "'s SecretOps \<Rightarrow> goerror + string \<Rightarrow> string \<Rightarrow> 's \<Rightarrow> (goerror + string) \<times> 's" where
  "create_key ops rnd name s =
     (case NewDataKey rnd of
        Inl e \<Rightarrow> (Inl e, s)
      | Inr key \<Rightarrow>
          (case so_Set ops name (b64_encode StdEncoding key) s of
             (Some e, s') \<Rightarrow> (Inl (wrap ''secret: persist data key: '' e), s')
           | (None, s') \<Rightarrow> (Inr key, s')))"

definition valid_key :: "string \<Rightarrow> string option" where
  "valid_key raw =
     (case b64_decode StdEncoding raw of
        Some key \<Rightarrow> if length key = 32 then Some key else None
      | None \<Rightarrow> None)"

definition GetOrCreateDataKey ::
  "'s SecretOps \<Rightarrow> goerror + string \<Rightarrow> string \<Rightarrow> 's \<Rightarrow> (goerror + string) \<times> 's" where
  "GetOrCreateDataKey ops rnd name0 s =
     (let name = (if name0 = '''' then DataKeyName else name0)
      in case so_Get ops name s of
           Inr raw \<Rightarrow>
             (case valid_key raw of
                Some key \<Rightarrow> (Inr key, s)
              | None \<Rightarrow>
                  (Inl (plain_error ''secret: read data key: %!w(<nil>)''), snd (so_Delete ops name s)))
         | Inl e \<Rightarrow>
             (if err_is e \<noteq> ErrSecretNotFound then (Inl (wrap ''secret: read data key: '' e), s)
              else create_key ops rnd name s))"

section \<open>Sealing\<close>

record AEAD =
  gcm_Seal :: "string \<Rightarrow> string \<Rightarrow> string \<Rightarrow> string"
  gcm_Open :: "string \<Rightarrow> string \<Rightarrow> string \<Rightarrow> string option"

definition errCorrupt :: goerror where
  "errCorrupt = GoError ErrCorrupt ''secret: data corrupt or key mismatch''"

definition NonceSize :: nat where "NonceSize = 12"

definition newGCM :: "string \<Rightarrow> goerror option" where
  "newGCM key =
     (if length key \<in> {16, 24, 32} then None
      else Some (plain_error (''secret: cipher: crypto/aes: invalid key size '' @ Itoa (int (length key)))))"

definition Seal :: "AEAD \<Rightarrow> goerror + string \<Rightarrow> string \<Rightarrow> string \<Rightarrow> goerror + string" where
  "Seal aead rnd key plaintext =
     (case newGCM key of
        Some e \<Rightarrow> Inl e
      | None \<Rightarrow>
          (case rnd of
             Inl e \<Rightarrow> Inl (wrap ''secret: nonce: '' e)
           | Inr nonce \<Rightarrow> Inr (nonce @ gcm_Seal aead key nonce plaintext)))"

definition Open :: "AEAD \<Rightarrow> string \<Rightarrow> string \<Rightarrow> goerror + string" where
  "Open aead key data =
     (case newGCM key of
        Some e \<Rightarrow> Inl e
      | None \<Rightarrow>
          (if length data < NonceSize then Inl errCorrupt
           else (case gcm_Open aead key (take NonceSize data) (drop NonceSize data) of
                   None \<Rightarrow> Inl errCorrupt
                 | Some plaintext \<Rightarrow> Inr plaintext)))"

section \<open>The contract and its clients\<close>

locale secret_store =
  fixes ops :: "'s SecretOps"
  assumes get_set: "so_Set ops k v s = (None, s') \<Longrightarrow>
      so_Get ops k' s' = (if k' = k then Inr v else so_Get ops k' s)"
    and get_delete: "so_Delete ops k s = (None, s') \<Longrightarrow>
      so_Get ops k' s' = (if k' = k then Inl errSecretNotFound else so_Get ops k' s)"
begin

lemma data_key_stable_aux:
  assumes "GetOrCreateDataKey ops rnd name s = (Inr key, s')" "\<And>k. rnd = Inr k \<Longrightarrow> length k = 32"
  shows "GetOrCreateDataKey ops rnd' name s' = (Inr key, s')" "length key = 32"
proof -
  let ?n = "if name = '''' then DataKeyName else name"
  have "so_Get ops ?n s' = Inr raw \<longrightarrow> valid_key raw = Some key \<longrightarrow> GetOrCreateDataKey ops rnd' name s' = (Inr key, s')" for raw
    by (simp add: GetOrCreateDataKey_def Let_def)
  moreover have "\<exists>raw. so_Get ops ?n s' = Inr raw \<and> valid_key raw = Some key"
  proof (cases "so_Get ops ?n s")
    case (Inr raw)
    with assms(1) show ?thesis
      by (cases "valid_key raw") (auto simp: GetOrCreateDataKey_def Let_def)
  next
    case (Inl e)
    with assms(1) have c: "create_key ops rnd ?n s = (Inr key, s')"
      by (auto simp: GetOrCreateDataKey_def Let_def split: if_splits)
    then have "so_Set ops ?n (b64_encode StdEncoding key) s = (None, s')" "rnd = Inr key"
      by (auto simp: create_key_def NewDataKey_def split: sum.splits prod.splits option.splits)
    with assms(2) show ?thesis by (simp add: get_set valid_key_def b64_roundtrip)
  qed
  ultimately show "GetOrCreateDataKey ops rnd' name s' = (Inr key, s')" by blast
  show "length key = 32"
    using \<open>\<exists>raw. so_Get ops ?n s' = Inr raw \<and> valid_key raw = Some key\<close>
    by (auto simp: valid_key_def split: option.splits if_splits)
qed

end

interpretation mem: secret_store mem_ops
  by unfold_locales (auto simp: mem_ops_def mem_Set_def mem_Get_def mem_Delete_def)

section \<open>Properties\<close>

text \<open>The at-rest data key is stable: once a call has returned a key, every later call on
  the resulting store returns the same 32 bytes, whatever the random source yields, and does
  not change the store.\<close>

theorem data_key_stable:
  assumes "GetOrCreateDataKey mem_ops rnd name m = (Inr key, m')" "\<And>k. rnd = Inr k \<Longrightarrow> length k = 32"
  shows "GetOrCreateDataKey mem_ops rnd' name m' = (Inr key, m') \<and> length key = 32"
  using mem.data_key_stable_aux [OF assms] by blast

theorem data_key_stable_witness:
  "\<exists>m'. GetOrCreateDataKey mem_ops (Inr (replicate 32 CHR ''k'')) '''' NewInMemory =
      (Inr (replicate 32 CHR ''k''), m') \<and>
    GetOrCreateDataKey mem_ops (Inl (plain_error ''no entropy'')) '''' m' =
      (Inr (replicate 32 CHR ''k''), m')"
proof -
  let ?k = "replicate 32 CHR ''k''"
  obtain m' where m': "GetOrCreateDataKey mem_ops (Inr ?k) '''' NewInMemory = (Inr ?k, m')"
    by (simp add: GetOrCreateDataKey_def mem_ops_def mem_Get_def NewInMemory_def
      errSecretNotFound_def create_key_def NewDataKey_def mem_Set_def)
  with data_key_stable [OF m', of "Inl (plain_error ''no entropy'')"] show ?thesis by simp
qed

text \<open>A stored data key that does not decode to 32 bytes is deleted and the call fails (with
  the text of a nil error) instead of creating a new key; only the next call creates one.\<close>

theorem invalid_data_key_fails_once:
  assumes "m DataKeyName = Some raw" "valid_key raw = None" "length k = 32"
  shows "GetOrCreateDataKey mem_ops (Inr k) '''' m =
      (Inl (plain_error ''secret: read data key: %!w(<nil>)''), m(DataKeyName := None)) \<and>
    fst (GetOrCreateDataKey mem_ops (Inr k) '''' (m(DataKeyName := None))) = Inr k"
  using assms
  by (simp add: GetOrCreateDataKey_def Let_def mem_ops_def mem_Get_def mem_Delete_def mem_Set_def
    errSecretNotFound_def create_key_def NewDataKey_def)

theorem invalid_data_key_fails_once_witness:
  "fst (GetOrCreateDataKey mem_ops (Inr (replicate 32 CHR ''k'')) '''' [DataKeyName \<mapsto> ''garbage'']) =
     Inl (plain_error ''secret: read data key: %!w(<nil>)'')"
proof -
  have "valid_key ''garbage'' = None" by code_simp
  with invalid_data_key_fails_once [of "[DataKeyName \<mapsto> ''garbage'']" "''garbage''" "replicate 32 CHR ''k''"]
  show ?thesis by simp
qed

text \<open>With an AEAD that opens what it sealed, data sealed under a 32-byte key with a nonce
  of the right size opens to the original plaintext; data shorter than a nonce, and data the
  AEAD refuses, are reported as corrupt.\<close>

theorem seal_open_roundtrip:
  assumes "\<And>k n p. length k = 32 \<Longrightarrow> length n = NonceSize \<Longrightarrow>
      gcm_Open aead k n (gcm_Seal aead k n p) = Some p"
    and "length key = 32" "length nonce = NonceSize"
  shows "\<exists>c. Seal aead (Inr nonce) key p = Inr c \<and> Open aead key c = Inr p \<and>
    (\<forall>d. length d < NonceSize \<longrightarrow> Open aead key d = Inl errCorrupt) \<and>
    (\<forall>d. gcm_Open aead key (take NonceSize d) (drop NonceSize d) = None \<longrightarrow>
       Open aead key d = Inl errCorrupt)"
  using assms by (auto simp: Seal_def Open_def newGCM_def)

definition demo_aead :: AEAD where
  "demo_aead = \<lparr>gcm_Seal = (\<lambda>k n p. p @ k),
     gcm_Open = (\<lambda>k n c. if drop (length c - length k) c = k
                            then Some (take (length c - length k) c) else None)\<rparr>"

lemma demo_aead_correct: "gcm_Open demo_aead k n (gcm_Seal demo_aead k n p) = Some p"
  by (simp add: demo_aead_def)

theorem seal_open_roundtrip_witness:
  "\<exists>c. Seal demo_aead (Inr (replicate 12 CHR ''n'')) (replicate 32 CHR ''k'') ''data'' = Inr c \<and>
     Open demo_aead (replicate 32 CHR ''k'') c = Inr ''data''"
  using seal_open_roundtrip [of demo_aead "replicate 32 CHR ''k''" "replicate 12 CHR ''n''" "''data''"]
    demo_aead_correct by (auto simp: NonceSize_def)

end
