(* ===== verification/Event_Ring.thy ===== *)
theory Event_Ring
  imports Omni_Models "HOL-Library.Multiset"
begin

text \<open>
  The bounded event ring the transports poll (\<open>core/internal/ring/ring.go\<close>) and the event
  bus (\<open>core/api/events.go\<close>), with the contract of a bounded buffer as a locale that the
  log ring satisfies too.
\<close>

section \<open>Bounded buffers\<close>

locale bounded_fifo =
  fixes push :: "'e \<Rightarrow> 'b \<Rightarrow> 'b"
    and items :: "'b \<Rightarrow> 'v list"
    and cap :: "'b \<Rightarrow> nat"
    and ok :: "'b \<Rightarrow> bool"
    and view :: "'e \<Rightarrow> 'v"
  assumes push_items: "ok b \<Longrightarrow> items (push x b) = last_n (cap b) (items b @ [view x])"
    and push_cap: "ok b \<Longrightarrow> cap (push x b) = cap b"
    and push_ok: "ok b \<Longrightarrow> ok (push x b)"
    and ok_bound: "ok b \<Longrightarrow> length (items b) \<le> cap b"
begin

lemma fold_push:
  assumes "ok b"
  shows "ok (fold push xs b)" "cap (fold push xs b) = cap b"
    and "items (fold push xs b) = last_n (cap b) (items b @ map view xs)"
proof -
  have "ok (fold push xs b) \<and> cap (fold push xs b) = cap b \<and>
    items (fold push xs b) = last_n (cap b) (items b @ map view xs)"
    using assms
  proof (induction xs arbitrary: b)
    case Nil
    then show ?case using ok_bound by simp
  next
    case (Cons x xs)
    then have "ok (push x b)" "cap (push x b) = cap b"
      "items (push x b) = last_n (cap b) (items b @ [view x])"
      by (simp_all add: push_ok push_cap push_items)
    with Cons.IH [of "push x b"] show ?case
      using last_n_last_n_append [of "cap b" "items b @ [view x]" "map view xs"] by simp
  qed
  then show "ok (fold push xs b)" "cap (fold push xs b) = cap b"
    "items (fold push xs b) = last_n (cap b) (items b @ map view xs)" by simp_all
qed

lemma never_over: "ok b \<Longrightarrow> length (items (fold push xs b)) \<le> cap b"
  using fold_push ok_bound by metis

lemma last_kept:
  assumes "ok b" "0 < cap b"
  shows "last (items (push x b)) = view x"
  using assms by (simp add: push_items last_n_def)

end

section \<open>The event ring\<close>

record 'e EventRing =
  er_events :: "'e list"
  er_cap :: int

definition New :: "int \<Rightarrow> 'e EventRing" where
  "New cap = (let cap' = (if cap \<le> 0 then 512 else cap) in \<lparr>er_events = [], er_cap = cap'\<rparr>)"

definition Push :: "'e \<Rightarrow> 'e EventRing \<Rightarrow> 'e EventRing" where
  "Push e r =
     (let evs = er_events r @ [e];
          r' = r\<lparr>er_events := evs\<rparr>
      in if int (length evs) > er_cap r'
         then r'\<lparr>er_events := drop (length evs - nat (er_cap r')) evs\<rparr> else r')"

definition Drain :: "'e EventRing \<Rightarrow> 'e list \<times> 'e EventRing" where
  "Drain r = (er_events r, r\<lparr>er_events := []\<rparr>)"

definition ring_ok :: "'e EventRing \<Rightarrow> bool" where
  "ring_ok r \<longleftrightarrow> 0 < er_cap r \<and> int (length (er_events r)) \<le> er_cap r"

interpretation er: bounded_fifo Push er_events "\<lambda>r. nat (er_cap r)" ring_ok id
proof
  fix b :: "'e EventRing" and x
  assume ok: "ring_ok b"
  then show "er_events (Push x b) = last_n (nat (er_cap b)) (er_events b @ [id x])"
    by (auto simp: Push_def Let_def last_n_def ring_ok_def)
  show "nat (er_cap (Push x b)) = nat (er_cap b)"
    by (simp add: Push_def Let_def)
  from ok show "ring_ok (Push x b)"
    by (auto simp: Push_def Let_def ring_ok_def)
  from ok show "length (er_events b) \<le> nat (er_cap b)"
    unfolding ring_ok_def by linarith
qed

definition cap_of :: "int \<Rightarrow> nat" where
  "cap_of cap = (if cap \<le> 0 then 512 else nat cap)"

lemma New_ok [simp]: "ring_ok (New cap)" "er_events (New cap) = []"
  by (simp_all add: New_def ring_ok_def Let_def)

datatype 'e ring_op = RPush 'e | RDrain

fun ring_run :: "'e ring_op list \<Rightarrow> 'e EventRing \<Rightarrow> 'e list list \<times> 'e EventRing" where
  "ring_run [] r = ([], r)"
| "ring_run (RPush e # ops) r = ring_run ops (Push e r)"
| "ring_run (RDrain # ops) r =
     (fst (Drain r) # fst (ring_run ops (snd (Drain r))), snd (ring_run ops (snd (Drain r))))"

text \<open>The specification: an unbounded queue, of which a drain hands out the last \<open>n\<close>.\<close>

fun spec_run :: "nat \<Rightarrow> 'e ring_op list \<Rightarrow> 'e list \<Rightarrow> 'e list list \<times> 'e list" where
  "spec_run n [] q = ([], q)"
| "spec_run n (RPush e # ops) q = spec_run n ops (q @ [e])"
| "spec_run n (RDrain # ops) q =
     (last_n n q # fst (spec_run n ops []), snd (spec_run n ops []))"

lemma ring_run_spec:
  assumes "ring_ok r" "er_events r = last_n (nat (er_cap r)) q"
  shows "fst (ring_run ops r) = fst (spec_run (nat (er_cap r)) ops q) \<and>
    er_events (snd (ring_run ops r)) = last_n (nat (er_cap r)) (snd (spec_run (nat (er_cap r)) ops q))"
  using assms
proof (induction ops r arbitrary: q rule: ring_run.induct)
  case (2 e ops r)
  have "er_events (Push e r) = last_n (nat (er_cap r)) (q @ [e])"
    using er.push_items [OF 2(2), of e] 2(3) by (simp add: last_n_last_n_append)
  moreover have "ring_ok (Push e r)" "nat (er_cap (Push e r)) = nat (er_cap r)"
    using er.push_ok [OF 2(2)] er.push_cap [OF 2(2)] by simp_all
  ultimately show ?case using 2(1) [of "q @ [e]"] by simp
next
  case (3 ops r)
  have "ring_ok (snd (Drain r))" using 3(3) by (simp add: Drain_def ring_ok_def)
  moreover have "0 < er_cap r" using 3(3) by (simp add: ring_ok_def)
  ultimately show ?case
    using 3(1) [of "[]"] 3(4) by (simp add: Drain_def)
qed simp

section \<open>The event bus\<close>

text \<open>Sinks are values of a type \<open>'k\<close>; a handle is the number of its subscription.
  \<open>Publish\<close> copies the sinks under the mutex, in the order the map is traversed, and then
  calls them one after the other: its result is the list of those calls.\<close>

record 'k EventBus =
  eb_next :: "64 word"
  eb_subs :: "(64 word \<times> 'k) list"

definition NewEventBus :: "'k EventBus" where
  "NewEventBus = \<lparr>eb_next = 0, eb_subs = []\<rparr>"

definition Subscribe :: "'k option \<Rightarrow> 'k EventBus \<Rightarrow> 64 word option \<times> 'k EventBus" where
  "Subscribe sink b =
     (case sink of
        None \<Rightarrow> (None, b)
      | Some k \<Rightarrow>
          (let i = eb_next b + 1
           in (Some i, b\<lparr>eb_next := i, eb_subs := (i, k) # filter (\<lambda>p. fst p \<noteq> i) (eb_subs b)\<rparr>)))"

definition Unsubscribe :: "64 word option \<Rightarrow> 'k EventBus \<Rightarrow> 'k EventBus" where
  "Unsubscribe sub b =
     (case sub of
        None \<Rightarrow> b
      | Some i \<Rightarrow> b\<lparr>eb_subs := filter (\<lambda>p. fst p \<noteq> i) (eb_subs b)\<rparr>)"

definition Publish :: "((64 word \<times> 'k) list \<Rightarrow> (64 word \<times> 'k) list) \<Rightarrow> 'e \<Rightarrow> 'k EventBus \<Rightarrow> ('k \<times> 'e) list"
where
  "Publish order e b = map (\<lambda>p. (snd p, e)) (order (eb_subs b))"

definition bus_ok :: "'k EventBus \<Rightarrow> bool" where
  "bus_ok b \<longleftrightarrow> distinct (map fst (eb_subs b)) \<and> list_all (\<lambda>p. fst p \<le> eb_next b) (eb_subs b)"

lemma bus_ok_new: "bus_ok NewEventBus"
  by (simp add: bus_ok_def NewEventBus_def)

lemma subscribe_fresh:
  assumes "bus_ok b" "eb_next b \<noteq> - 1" "Subscribe (Some k) b = (i, b')"
  shows "bus_ok b'" "\<exists>j. i = Some j \<and> j \<notin> fst ` set (eb_subs b) \<and> eb_subs b' = (j, k) # eb_subs b"
proof -
  have less: "eb_next b < eb_next b + 1"
    using assms(2) inc_less_eq_self_iff_eq [of "eb_next b"] by (simp add: not_le)
  then have fresh: "fst p \<noteq> eb_next b + 1" if "p \<in> set (eb_subs b)" for p
    using assms(1) that by (auto simp: bus_ok_def list_all_iff)
  then have "filter (\<lambda>p. fst p \<noteq> eb_next b + 1) (eb_subs b) = eb_subs b"
    by (simp add: filter_id_conv)
  then have b': "i = Some (eb_next b + 1)" "b' = b\<lparr>eb_next := eb_next b + 1, eb_subs := (eb_next b + 1, k) # eb_subs b\<rparr>"
    using assms(3) by (auto simp: Subscribe_def Let_def)
  show "bus_ok b'"
    using assms(1) less fresh b' by (force simp: bus_ok_def list_all_iff)
  show "\<exists>j. i = Some j \<and> j \<notin> fst ` set (eb_subs b) \<and> eb_subs b' = (j, k) # eb_subs b"
    using b' fresh by force
qed

section \<open>Properties\<close>

text \<open>The event ring behind the polling transports refines an unbounded queue of which a
  drain hands out the most recent \<open>cap\<close> events (512 for a non-positive capacity): for every
  interleaving of pushes and drains the batches are exactly the queue's, so events are never
  reordered or duplicated and only the oldest ones are lost, and the buffer never exceeds its
  capacity.\<close>

theorem event_ring_refines_queue:
  fixes ops :: "'e ring_op list"
  shows "fst (ring_run ops (New cap)) = fst (spec_run (cap_of cap) ops []) \<and>
    er_events (snd (ring_run ops (New cap))) = last_n (cap_of cap) (snd (spec_run (cap_of cap) ops []))"
proof -
  have "nat (er_cap (New cap :: 'e EventRing)) = cap_of cap" by (simp add: New_def cap_of_def Let_def)
  then show ?thesis using ring_run_spec [of "New cap" "[]" ops] by simp
qed

text \<open>A subscription gets an unused handle, from then on every published event reaches its
  sink exactly once in addition to the sinks subscribed before, in whatever order the map of
  subscriptions is traversed, and unsubscribing the handle restores the deliveries of the bus
  before.\<close>

theorem bus_subscription_lifecycle:
  assumes "bus_ok b" "eb_next b \<noteq> - 1" "Subscribe (Some k) b = (i, b')"
    and "\<And>xs. mset (order xs) = mset xs"
  shows "bus_ok b' \<and> i \<noteq> None \<and>
    mset (Publish order e b') = add_mset (k, e) (mset (Publish order e b)) \<and>
    mset (Publish order e (Unsubscribe i b')) = mset (Publish order e b)"
proof -
  have pub: "mset (Publish order e c) = image_mset (\<lambda>p. (snd p, e)) (mset (eb_subs c))" for c
    using assms(4) by (simp add: Publish_def)
  obtain j where j: "i = Some j" "j \<notin> fst ` set (eb_subs b)" "eb_subs b' = (j, k) # eb_subs b"
    using subscribe_fresh(2) [OF assms(1-3)] by blast
  then have "eb_subs (Unsubscribe i b') = eb_subs b"
    by (auto simp: Unsubscribe_def filter_id_conv)
  with j pub subscribe_fresh(1) [OF assms(1-3)] show ?thesis by simp
qed

theorem bus_subscription_lifecycle_witness:
  "mset (Publish rev ''e'' (snd (Subscribe (Some ''k'') (snd (Subscribe (Some ''a'') NewEventBus))))) =
     {#(''k'', ''e''), (''a'', ''e'')#}"
proof -
  let ?b = "snd (Subscribe (Some ''a'') NewEventBus)"
  have "bus_ok ?b" "eb_next ?b \<noteq> - 1" "mset (Publish rev ''e'' ?b) = {#(''a'', ''e'')#}"
    by (simp_all add: Subscribe_def NewEventBus_def bus_ok_def Publish_def)
  with bus_subscription_lifecycle [of ?b "''k''" "fst (Subscribe (Some ''k'') ?b)"
      "snd (Subscribe (Some ''k'') ?b)" rev "''e''"]
  show ?thesis by simp
qed

end
