(* ===== verification/Logging.thy ===== *)
theory Logging
  imports Go_Text Omni_Models Event_Ring "HOL-Library.AList"
begin

text \<open>
  The logger (\<open>core/log\<close>): escape sequences, the redactor, the ring buffer behind
  incremental pulls, and the single function every entry goes through.

  The redactor's regular expression is the case-insensitive alternation of the quoted
  secrets; the model keeps the list of alternatives and matches them leftmost-first, as the
  Go engine does, with ASCII case folding. The order of the alternatives is the traversal
  order of a Go map, an argument of the model. A context value is a string, a
  \<open>map[string]any\<close>, a \<open>[]any\<close> or a value of another type, which the code leaves
  alone. Sinks are values of a type \<open>'k\<close>; the result of \<open>log\<close> lists the calls of
  \<open>Sink.Write\<close> in order.
\<close>

section \<open>Escape sequences\<close>

abbreviation (input) ESC :: char where "ESC \<equiv> CHR 0x1B"
abbreviation (input) BEL :: char where "BEL \<equiv> CHR 0x07"

fun skip_csi :: "string \<Rightarrow> string" where
  "skip_csi [] = []"
| "skip_csi (c # cs) =
     (if 0x40 \<le> (of_char c :: nat) \<and> (of_char c :: nat) \<le> 0x7e then cs else skip_csi cs)"

fun skip_osc :: "string \<Rightarrow> string" where
  "skip_osc [] = []"
| "skip_osc (c # cs) =
     (if c = BEL then cs
      else if c = ESC \<and> cs \<noteq> [] \<and> hd cs = CHR 0x5C then tl cs
      else skip_osc cs)"

lemma length_skip [termination_simp]:
  "length (skip_csi s) \<le> length s" "length (skip_osc s) \<le> length s"
  by (induction s) auto

fun strip_loop :: "string \<Rightarrow> string" where
  "strip_loop [] = []"
| "strip_loop [c] = (if c \<noteq> ESC then [c] else [])"
| "strip_loop (c # n # rest) =
     (if c \<noteq> ESC then c # strip_loop (n # rest)
      else if n = CHR ''['' then strip_loop (skip_csi rest)
      else if n = CHR '']'' then strip_loop (skip_osc rest)
      else strip_loop rest)"

definition stripANSI :: "string \<Rightarrow> string" where
  "stripANSI s = (if ESC \<notin> set s then s else strip_loop s)"

lemma strip_loop_no_esc: "ESC \<notin> set (strip_loop s)"
  by (induction s rule: strip_loop.induct) auto

lemma strip_loop_keep: "c \<noteq> ESC \<Longrightarrow> strip_loop (c # cs) = c # strip_loop cs"
  by (cases cs) auto

lemma strip_loop_prefix: "ESC \<notin> set p \<Longrightarrow> strip_loop (p @ s) = p @ strip_loop s"
  by (induction p) (auto simp: strip_loop_keep)

lemma stripANSI_loop: "stripANSI s = strip_loop s"
  using strip_loop_prefix [of s "[]"] by (auto simp: stripANSI_def)

definition csi_final :: "char \<Rightarrow> bool" where
  "csi_final c \<longleftrightarrow> 0x40 \<le> (of_char c :: nat) \<and> (of_char c :: nat) \<le> 0x7e"

lemma skip_csi_seq: "list_all (\<lambda>c. \<not> csi_final c) ps \<Longrightarrow> csi_final f \<Longrightarrow> skip_csi (ps @ f # s) = s"
  by (induction ps) (auto simp: csi_final_def)

section \<open>Redaction\<close>

definition redactionMarker :: string where
  "redactionMarker = ''[REDACTED]''"

record Redactor =
  rd_secrets :: "(string \<times> string) list"
  rd_re :: "string list"

definition NewRedactor :: Redactor where
  "NewRedactor = \<lparr>rd_secrets = [], rd_re = []\<rparr>"

definition compile :: "(string list \<Rightarrow> string list) \<Rightarrow> (string \<times> string) list \<Rightarrow> string list" where
  "compile order secrets = order (map snd secrets)"

definition register :: "string \<Rightarrow> (string \<times> string) list \<Rightarrow> (string \<times> string) list" where
  "register s secrets =
     (let t = TrimSpace s in if length t < 3 then secrets else AList.update (ToLower t) t secrets)"

definition Add :: "(string list \<Rightarrow> string list) \<Rightarrow> string list \<Rightarrow> Redactor \<Rightarrow> Redactor" where
  "Add order secrets r =
     (let m = fold register secrets (rd_secrets r)
      in r\<lparr>rd_secrets := m, rd_re := compile order m\<rparr>)"

definition matches_ci :: "string \<Rightarrow> string \<Rightarrow> bool" where
  "matches_ci p s = (length p \<le> length s \<and> ToLower (take (length p) s) = ToLower p)"

function redact_tokens :: "string list \<Rightarrow> string \<Rightarrow> char option list" where
  "redact_tokens alts s =
     (case s of
        [] \<Rightarrow> []
      | c # cs \<Rightarrow>
          (case find (\<lambda>p. p \<noteq> [] \<and> matches_ci p s) alts of
             Some p \<Rightarrow> None # redact_tokens alts (drop (length p) s)
           | None \<Rightarrow> Some c # redact_tokens alts cs))"
  by pat_completeness auto
termination
  by (relation "measure (\<lambda>(alts, s). length s)") (auto simp: find_Some_iff)

declare redact_tokens.simps [simp del]

definition render :: "char option list \<Rightarrow> string" where
  "render ts = concat (map (\<lambda>t. case t of None \<Rightarrow> redactionMarker | Some c \<Rightarrow> [c]) ts)"

definition Redact :: "Redactor \<Rightarrow> string \<Rightarrow> string" where
  "Redact r s = render (redact_tokens (rd_re r) s)"

lemma redact_tokens_Nil [simp]: "redact_tokens alts [] = []"
  by (subst redact_tokens.simps) simp

lemma redact_tokens_keep:
  "find (\<lambda>p. p \<noteq> [] \<and> matches_ci p (c # cs)) alts = None \<Longrightarrow>
     redact_tokens alts (c # cs) = Some c # redact_tokens alts cs"
  by (subst redact_tokens.simps) simp

lemma redact_tokens_mark:
  "find (\<lambda>p. p \<noteq> [] \<and> matches_ci p (c # cs)) alts = Some p \<Longrightarrow>
     redact_tokens alts (c # cs) = None # redact_tokens alts (drop (length p) (c # cs))"
  by (subst redact_tokens.simps) simp

text \<open>A run of kept bytes is a segment of the input, and no alternative matches where a byte
  is kept.\<close>

lemma kept_prefix:
  "redact_tokens alts s = map Some w @ ys \<Longrightarrow> take (length w) s = w \<and> length w \<le> length s"
proof (induction w arbitrary: s)
  case (Cons c w)
  obtain d cs where s: "s = d # cs" using Cons.prems by (cases s) auto
  have none: "find (\<lambda>p. p \<noteq> [] \<and> matches_ci p (d # cs)) alts = None"
    using Cons.prems by (cases "find (\<lambda>p. p \<noteq> [] \<and> matches_ci p (d # cs)) alts")
      (auto simp: s redact_tokens_mark)
  with Cons s show ?case by (simp add: redact_tokens_keep)
qed simp

lemma kept_run:
  "redact_tokens alts s = xs @ map Some w @ ys \<Longrightarrow>
   \<exists>t. redact_tokens alts t = map Some w @ ys"
proof (induction xs arbitrary: s)
  case (Cons x xs)
  obtain d cs where s: "s = d # cs" using Cons.prems by (cases s) auto
  show ?case
  proof (cases "find (\<lambda>p. p \<noteq> [] \<and> matches_ci p (d # cs)) alts")
    case None
    with Cons s show ?thesis by (auto simp: redact_tokens_keep)
  next
    case (Some p)
    with Cons s show ?thesis by (auto simp: redact_tokens_mark)
  qed
qed auto

lemma no_kept_secret:
  assumes "redact_tokens alts s = xs @ map Some w @ ys" "p \<in> set alts" "p \<noteq> []"
  shows "ToLower w \<noteq> ToLower p"
proof
  assume eq: "ToLower w = ToLower p"
  obtain t where t: "redact_tokens alts t = map Some w @ ys" using kept_run [OF assms(1)] by blast
  have len: "length w = length p" using eq by (metis ToLower_def length_map)
  with assms(3) obtain c w' where w: "w = c # w'" by (cases w) auto
  obtain d cs where d: "t = d # cs" using t w by (cases t) auto
  have "matches_ci p t"
    using kept_prefix [OF t] eq len by (simp add: matches_ci_def)
  then have "find (\<lambda>p. p \<noteq> [] \<and> matches_ci p (d # cs)) alts \<noteq> None"
    using assms(2,3) d by (auto simp: find_None_iff)
  with t w d show False by (auto simp: redact_tokens_mark)
qed


lemma untouched:
  "(\<forall>i. \<forall>p \<in> set alts. \<not> matches_ci p (drop i m)) \<Longrightarrow> redact_tokens alts m = map Some m"
proof (induction m)
  case (Cons c cs)
  have "find (\<lambda>p. p \<noteq> [] \<and> matches_ci p (c # cs)) alts = None"
    using Cons.prems [rule_format, of _ 0] by (auto simp: find_None_iff)
  moreover have "\<forall>i. \<forall>p \<in> set alts. \<not> matches_ci p (drop i cs)"
    using Cons.prems [rule_format, of _ "Suc i" for i] by simp
  ultimately show ?case using Cons.IH by (simp add: redact_tokens_keep)
qed simp

lemma render_plain [simp]: "render (map Some m) = m"
  by (induction m) (simp_all add: render_def)

text \<open>Registration: a registered secret stays an alternative, up to the case of its letters.\<close>

definition secrets_ok :: "(string \<times> string) list \<Rightarrow> bool" where
  "secrets_ok m \<longleftrightarrow> distinct (map fst m) \<and> (\<forall>(k, v) \<in> set m. k = ToLower v \<and> 3 \<le> length v)"

lemma set_update: "distinct (map fst m) \<Longrightarrow>
  set (AList.update k v m) = insert (k, v) {p \<in> set m. fst p \<noteq> k}"
  by (induction m) (auto simp: image_iff)

lemma register_ok: "secrets_ok m \<Longrightarrow> secrets_ok (register s m)"
  by (auto simp: register_def secrets_ok_def Let_def distinct_update set_update)

lemma register_keys: "secrets_ok m \<Longrightarrow> fst ` set m \<subseteq> fst ` set (register s m)"
  by (auto simp: register_def secrets_ok_def Let_def set_update image_iff)

lemma register_new:
  "secrets_ok m \<Longrightarrow> 3 \<le> length (TrimSpace s) \<Longrightarrow> ToLower (TrimSpace s) \<in> fst ` set (register s m)"
  by (auto simp: register_def secrets_ok_def Let_def set_update image_iff)

lemma fold_register_ok: "secrets_ok m \<Longrightarrow> secrets_ok (fold register ss m)"
  by (induction ss arbitrary: m) (simp_all add: register_ok)

lemma fold_register_keys: "secrets_ok m \<Longrightarrow> fst ` set m \<subseteq> fst ` set (fold register ss m)"
proof (induction ss arbitrary: m)
  case (Cons x ss)
  have "fst ` set m \<subseteq> fst ` set (register x m)" by (rule register_keys [OF Cons.prems])
  also have "\<dots> \<subseteq> fst ` set (fold register ss (register x m))"
    by (rule Cons.IH [OF register_ok [OF Cons.prems]])
  finally show ?case by simp
qed simp

lemma fold_register_new:
  "secrets_ok m \<Longrightarrow> s \<in> set ss \<Longrightarrow> 3 \<le> length (TrimSpace s) \<Longrightarrow>
     ToLower (TrimSpace s) \<in> fst ` set (fold register ss m)"
proof (induction ss arbitrary: m)
  case (Cons x ss)
  note ok = register_ok [OF Cons.prems(1), of x]
  show ?case
  proof (cases "s = x")
    case True
    then show ?thesis
      using register_new [OF Cons.prems(1,3)] fold_register_keys [OF ok, of ss] by (simp add: subsetD)
  next
    case False
    then show ?thesis using Cons.IH [OF ok] Cons.prems(2,3) by simp
  qed
qed simp

definition add_all :: "(string list \<Rightarrow> string list) \<Rightarrow> string list list \<Rightarrow> Redactor \<Rightarrow> Redactor" where
  "add_all order calls r = fold (Add order) calls r"

lemma Add_secrets [simp]: "rd_secrets (Add order ss r) = fold register ss (rd_secrets r)"
  by (simp add: Add_def Let_def)

lemma add_all_secrets: "rd_secrets (fold (Add order) calls r) = fold register (concat calls) (rd_secrets r)"
  by (induction calls arbitrary: r) simp_all

lemma add_all_re:
  "calls \<noteq> [] \<Longrightarrow> rd_re (fold (Add order) calls r) = order (map snd (rd_secrets (fold (Add order) calls r)))"
proof (induction calls arbitrary: r rule: rev_induct)
  case (snoc ss calls)
  then show ?case by (simp add: Add_def Let_def compile_def)
qed simp

lemma registered_alternative:
  assumes "\<And>xs. set (order xs) = set xs" "ss \<in> set calls" "s \<in> set ss" "3 \<le> length (TrimSpace s)"
  shows "\<exists>p \<in> set (rd_re (add_all order calls NewRedactor)). ToLower p = ToLower (TrimSpace s) \<and> p \<noteq> []"
proof -
  let ?m = "rd_secrets (fold (Add order) calls NewRedactor)"
  have "?m = fold register (concat calls) []"
    by (simp add: add_all_secrets NewRedactor_def)
  moreover have "secrets_ok []" by (simp add: secrets_ok_def)
  ultimately have ok: "secrets_ok ?m" and key: "ToLower (TrimSpace s) \<in> fst ` set ?m"
    using fold_register_ok [of "[]"] fold_register_new [of "[]" s "concat calls"] assms(2-) by auto
  then obtain v where v: "(ToLower (TrimSpace s), v) \<in> set ?m" by auto
  then have "ToLower v = ToLower (TrimSpace s)" "3 \<le> length v"
    using ok by (auto simp: secrets_ok_def)
  moreover have "v \<in> set (rd_re (fold (Add order) calls NewRedactor))"
    using add_all_re [of calls order NewRedactor] assms(1,2) v by (cases calls) force+
  ultimately show ?thesis unfolding add_all_def by force
qed


section \<open>The log ring\<close>

datatype jvalue =
    JStr string
  | JMap "(string \<times> jvalue) list"
  | JArr "jvalue list"
  | JOther string

record LogEntry =
  le_Seq :: "64 word"
  le_Timestamp :: gotime
  le_Level :: LogLevel
  le_Component :: string
  le_Message :: string
  le_Context :: "(string \<times> jvalue) list"

record RingBuffer =
  rb_entries :: "LogEntry list"
  rb_max :: int
  rb_seq :: "64 word"

definition NewRingBuffer :: "int \<Rightarrow> RingBuffer" where
  "NewRingBuffer m = \<lparr>rb_entries = [], rb_max = (if m < 1 then 1 else m), rb_seq = 0\<rparr>"

definition rb_Append :: "LogEntry \<Rightarrow> RingBuffer \<Rightarrow> 64 word \<times> RingBuffer" where
  "rb_Append e rb =
     (let seq = rb_seq rb + 1;
          entries = rb_entries rb @ [e\<lparr>le_Seq := seq\<rparr>];
          kept = (if int (length entries) > rb_max rb
                  then drop (length entries - nat (rb_max rb)) entries else entries)
      in (seq, rb\<lparr>rb_seq := seq, rb_entries := kept\<rparr>))"

fun since_loop :: "int \<Rightarrow> 64 word \<Rightarrow> LogEntry list \<Rightarrow> LogEntry list \<Rightarrow> LogEntry list" where
  "since_loop limit after [] out = out"
| "since_loop limit after (e # es) out =
     (if le_Seq e \<le> after then since_loop limit after es out
      else if int (length (out @ [e])) \<ge> limit then out @ [e]
      else since_loop limit after es (out @ [e]))"

definition Since :: "64 word \<Rightarrow> int \<Rightarrow> RingBuffer \<Rightarrow> LogEntry list" where
  "Since after limit rb =
     (let l = (if limit \<le> 0 \<or> limit > rb_max rb then rb_max rb else limit)
      in since_loop l after (rb_entries rb) [])"

lemma since_loop_eq:
  "int (length out) < limit \<Longrightarrow>
   since_loop limit after es out =
     out @ take (nat limit - length out) (filter (\<lambda>e. after < le_Seq e) es)"
proof (induction limit after es out rule: since_loop.induct)
  case (2 limit after e es out)
  then have "nat limit - length out = Suc (nat limit - Suc (length out))" by linarith
  with 2 show ?case by (auto simp: not_le)
qed simp

definition rb_ok :: "RingBuffer \<Rightarrow> bool" where
  "rb_ok rb \<longleftrightarrow>
     1 \<le> rb_max rb \<and> int (length (rb_entries rb)) \<le> rb_max rb \<and>
     map (unat \<circ> le_Seq) (rb_entries rb) =
       [Suc (unat (rb_seq rb)) - length (rb_entries rb) ..< Suc (unat (rb_seq rb))]"

lemma rb_ok_new: "rb_ok (NewRingBuffer m)"
  by (simp add: rb_ok_def NewRingBuffer_def)

lemma unat_inc: "x \<noteq> - 1 \<Longrightarrow> unat (x + 1) = Suc (unat (x :: 64 word))"
  by (metis Suc_eq_plus1 add.commute unat_plus_simple unatSuc unsigned_1 add_eq_0_iff)


lemma filter_upt_gt: "filter (\<lambda>n. k < n) [a ..< b] = [max (Suc k) a ..< b]"
proof (induction b)
  case (Suc b)
  then show ?case by (cases "a \<le> b") (auto simp: max_def)
qed simp

lemma rb_Append_entries:
  assumes "1 \<le> rb_max rb" "int (length (rb_entries rb)) \<le> rb_max rb"
  shows "rb_entries (snd (rb_Append e rb)) =
    last_n (nat (rb_max rb)) (rb_entries rb @ [e\<lparr>le_Seq := rb_seq rb + 1\<rparr>])"
  using assms by (auto simp: rb_Append_def Let_def last_n_def)

lemma rb_Append_sel [simp]:
  "rb_max (snd (rb_Append e rb)) = rb_max rb" "rb_seq (snd (rb_Append e rb)) = rb_seq rb + 1"
  "fst (rb_Append e rb) = rb_seq rb + 1"
  by (simp_all add: rb_Append_def Let_def)

lemma last_n_upt: "k \<le> n \<Longrightarrow> last_n m [n - k ..< n] = [n - min m k ..< n]"
  by (auto simp: last_n_def min_def)

lemma rb_Append_ok:
  assumes "rb_ok rb" "rb_seq rb \<noteq> - 1"
  shows "rb_ok (snd (rb_Append e rb))"
proof -
  let ?n = "Suc (unat (rb_seq rb))" and ?k = "length (rb_entries rb)"
  note ok = assms(1) [unfolded rb_ok_def]
  have k: "?k \<le> ?n"
  proof -
    have "length (map (unat \<circ> le_Seq) (rb_entries rb)) = length [?n - ?k ..< ?n]"
      using ok by (simp only:)
    then have "?k = ?n - (?n - ?k)" by (simp only: length_map length_upt)
    then show ?thesis by linarith
  qed
  have seq: "unat (rb_seq rb + 1) = ?n" using assms(2) by (rule unat_inc)
  have ents: "rb_entries (snd (rb_Append e rb)) =
      last_n (nat (rb_max rb)) (rb_entries rb @ [e\<lparr>le_Seq := rb_seq rb + 1\<rparr>])"
    using ok by (intro rb_Append_entries) simp_all
  have "map (unat \<circ> le_Seq) (rb_entries rb @ [e\<lparr>le_Seq := rb_seq rb + 1\<rparr>]) =
      [Suc ?n - Suc ?k ..< Suc ?n]"
    using ok seq k by simp
  then have "map (unat \<circ> le_Seq) (rb_entries (snd (rb_Append e rb))) =
      [Suc ?n - min (nat (rb_max rb)) (Suc ?k) ..< Suc ?n]"
    using last_n_upt [of "Suc ?k" "Suc ?n" "nat (rb_max rb)"] k by (simp add: ents map_last_n)
  moreover have "length (rb_entries (snd (rb_Append e rb))) = min (nat (rb_max rb)) (Suc ?k)"
    by (simp add: ents)
  moreover have "int (min (nat (rb_max rb)) (Suc ?k)) \<le> rb_max rb" using ok by linarith
  ultimately show ?thesis
    using ok by (simp add: rb_ok_def seq)
qed

definition forget_seq :: "LogEntry \<Rightarrow> LogEntry" where
  "forget_seq e = e\<lparr>le_Seq := 0\<rparr>"

interpretation lr: bounded_fifo "\<lambda>e rb. snd (rb_Append e rb)" "\<lambda>rb. map forget_seq (rb_entries rb)"
  "\<lambda>rb. nat (rb_max rb)" "\<lambda>rb. 1 \<le> rb_max rb \<and> int (length (rb_entries rb)) \<le> rb_max rb" forget_seq
  by unfold_locales (auto simp: rb_Append_entries map_last_n forget_seq_def le_nat_iff)

lemma Since_window:
  assumes "rb_ok rb"
  shows "map (unat \<circ> le_Seq) (Since after limit rb) =
    take (nat (if limit \<le> 0 \<or> limit > rb_max rb then rb_max rb else limit))
      [max (Suc (unat after)) (Suc (unat (rb_seq rb)) - length (rb_entries rb)) ..< Suc (unat (rb_seq rb))]"
proof -
  let ?l = "if limit \<le> 0 \<or> limit > rb_max rb then rb_max rb else limit"
  let ?a = "Suc (unat (rb_seq rb)) - length (rb_entries rb)" and ?b = "Suc (unat (rb_seq rb))"
  note ok = assms [unfolded rb_ok_def]
  have "Since after limit rb = take (nat ?l) (filter (\<lambda>e. after < le_Seq e) (rb_entries rb))"
    using ok by (simp add: Since_def since_loop_eq)
  moreover have "map (unat \<circ> le_Seq) (filter (\<lambda>e. after < le_Seq e) (rb_entries rb)) =
      filter (\<lambda>n. unat after < n) [?a ..< ?b]"
    by (simp only: conjunct2 [OF conjunct2 [OF ok], symmetric] filter_map)
      (simp add: comp_def word_less_nat_alt)
  moreover have "filter (\<lambda>n. unat after < n) [?a ..< ?b] = [max (Suc (unat after)) ?a ..< ?b]"
    by (rule filter_upt_gt)
  ultimately show ?thesis by (simp add: take_map [symmetric])
qed


section \<open>The logger\<close>

record 'k Logger =
  lg_level :: LogLevel
  lg_redactor :: Redactor
  lg_ring :: RingBuffer
  lg_sinks :: "'k list"

definition normalizeLevel :: "LogLevel \<Rightarrow> LogLevel" where
  "normalizeLevel l = (if level_Valid l then l else LevelInfo)"

definition NewLogger :: "'k \<Rightarrow> LogLevel \<Rightarrow> 'k list \<Rightarrow> 'k Logger" where
  "NewLogger console level sinks =
     \<lparr>lg_level = normalizeLevel level, lg_redactor = NewRedactor, lg_ring = NewRingBuffer 1000,
      lg_sinks = (if sinks = [] then [console] else sinks)\<rparr>"

definition NewNopLogger :: "'k Logger" where
  "NewNopLogger =
     \<lparr>lg_level = LevelTrace, lg_redactor = NewRedactor, lg_ring = NewRingBuffer 1000, lg_sinks = []\<rparr>"

definition SetLevel :: "LogLevel \<Rightarrow> 'k Logger \<Rightarrow> 'k Logger" where
  "SetLevel lv l = l\<lparr>lg_level := normalizeLevel lv\<rparr>"

definition AddSink :: "'k \<Rightarrow> 'k Logger \<Rightarrow> 'k Logger" where
  "AddSink s l = l\<lparr>lg_sinks := lg_sinks l @ [s]\<rparr>"

definition LogsAfter :: "64 word \<Rightarrow> int \<Rightarrow> 'k Logger \<Rightarrow> LogEntry list" where
  "LogsAfter after limit l = Since after limit (lg_ring l)"

primrec redactValue :: "Redactor \<Rightarrow> jvalue \<Rightarrow> jvalue" where
  "redactValue r (JStr s) = JStr (Redact r s)"
| "redactValue r (JMap kvs) = JMap (map (map_prod id (redactValue r)) kvs)"
| "redactValue r (JArr vs) = JArr (map (redactValue r) vs)"
| "redactValue r (JOther x) = JOther x"

definition log_entry ::
  "gotime \<Rightarrow> LogLevel \<Rightarrow> string \<Rightarrow> string \<Rightarrow> (string \<times> jvalue) list \<Rightarrow> Redactor \<Rightarrow> LogEntry" where
  "log_entry now lv component message ctx r =
     \<lparr>le_Seq = 0, le_Timestamp = now, le_Level = lv, le_Component = component,
      le_Message = Redact r (stripANSI message),
      le_Context = (if length ctx > 0 then map (map_prod id (redactValue r)) ctx else ctx)\<rparr>"

definition log ::
  "gotime \<Rightarrow> LogLevel \<Rightarrow> string \<Rightarrow> string \<Rightarrow> (string \<times> jvalue) list \<Rightarrow> 'k Logger \<Rightarrow>
   ('k \<times> LogEntry) list \<times> 'k Logger"
where
  "log now lv component message ctx l =
     (if Rank lv < Rank (lg_level l) then ([], l)
      else
        (let entry = log_entry now lv component message ctx (lg_redactor l);
             (seq, ring) = rb_Append entry (lg_ring l);
             entry' = entry\<lparr>le_Seq := seq\<rparr>
         in (map (\<lambda>s. (s, entry')) (lg_sinks l), l\<lparr>lg_ring := ring\<rparr>)))"

fun leaves :: "jvalue \<Rightarrow> string list" where
  "leaves (JStr s) = [s]"
| "leaves (JMap kvs) = concat (map (\<lambda>kv. leaves (snd kv)) kvs)"
| "leaves (JArr vs) = concat (map leaves vs)"
| "leaves (JOther x) = []"

lemma leaves_redact: "leaves (redactValue r v) = map (Redact r) (leaves v)"
proof (induction v)
  case (JMap kvs)
  then show ?case by (simp add: map_concat comp_def) (metis (no_types, lifting) map_eq_conv snds.intros surjective_pairing snd_map_prod)
next
  case (JArr vs)
  then show ?case by (simp add: map_concat comp_def cong: map_cong)
qed simp_all


definition append_all :: "LogEntry list \<Rightarrow> RingBuffer \<Rightarrow> RingBuffer" where
  "append_all es rb = fold (\<lambda>e rb. snd (rb_Append e rb)) es rb"

lemma append_all_ok:
  "rb_ok rb \<Longrightarrow> unat (rb_seq rb) + length es < 2 ^ 64 \<Longrightarrow>
   rb_ok (append_all es rb) \<and> unat (rb_seq (append_all es rb)) = unat (rb_seq rb) + length es \<and>
   rb_max (append_all es rb) = rb_max rb"
proof (induction es arbitrary: rb)
  case (Cons e es)
  have ne: "rb_seq rb \<noteq> - 1"
  proof
    assume "rb_seq rb = - 1"
    then have "unat (rb_seq rb) = 2 ^ 64 - 1" by (simp add: unsigned_minus_1_eq_mask mask_eq_exp_minus_1)
    with Cons.prems(2) show False by simp
  qed
  with Cons.IH [OF rb_Append_ok [OF Cons.prems(1) ne]] Cons.prems(2) unat_inc [OF ne]
  show ?case by (simp add: append_all_def)
qed (simp add: append_all_def)

section \<open>Properties\<close>

text \<open>No escape character survives \<open>stripANSI\<close>, text without one is unchanged, and a
  control sequence (ESC, a bracket, parameter bytes, a final byte) disappears while the text
  before it is kept and the text after it is treated the same way.\<close>

theorem stripANSI_correct:
  assumes "ESC \<notin> set p" "list_all (\<lambda>c. \<not> csi_final c) ps" "csi_final f"
  shows "ESC \<notin> set (stripANSI s) \<and> stripANSI p = p \<and>
    stripANSI (p @ ESC # CHR ''['' # ps @ f # s) = p @ stripANSI s"
  using strip_loop_no_esc strip_loop_prefix [OF assms(1)] strip_loop_prefix [OF assms(1), of "[]"]
    skip_csi_seq [OF assms(2,3), of s]
  by (simp add: stripANSI_loop)

theorem stripANSI_correct_witness:
  "stripANSI (''INFO '' @ ESC # CHR ''['' # ''31'' @ CHR ''m'' # ''up'') = ''INFO '' @ stripANSI ''up''"
proof -
  have "ESC \<notin> set ''INFO ''" "list_all (\<lambda>c. \<not> csi_final c) ''31''" "csi_final CHR ''m''"
    by code_simp+
  from stripANSI_correct [OF this, of "''up''"] show ?thesis by blast
qed



text \<open>The order of the alternatives matters. With two registered secrets of which one is a
  prefix of the other there is a traversal order of the map under which the longer secret's
  tail stays in the redacted message.\<close>

theorem prefix_secret_leaks_tail:
  "\<exists>order. (\<forall>xs. mset (order xs) = mset xs) \<and>
     Redact (Add order [''hunter2'', ''hunter2-prod-key''] NewRedactor) ''key hunter2-prod-key''
       = ''key [REDACTED]-prod-key''"
proof -
  have "Redact (Add id [''hunter2'', ''hunter2-prod-key''] NewRedactor) ''key hunter2-prod-key''
       = ''key [REDACTED]-prod-key''"
    by code_simp
  then show ?thesis by (intro exI [of _ id]) simp
qed

text \<open>C40: incremental pulls of the log are exact. After any number of appends below the range
  of the 64-bit sequence number, a pull after a given sequence number returns, oldest first
  and without gaps, the entries that follow that number and are still buffered, up to the
  limit (the capacity for a limit out of range).\<close>

theorem log_pull_exact:
  assumes "length es < 2 ^ 64"
  shows "map (unat \<circ> le_Seq) (Since after limit (append_all es (NewRingBuffer m))) =
    take (nat (if limit \<le> 0 \<or> limit > max 1 m then max 1 m else limit))
      [max (Suc (unat after)) (Suc (length es) - length (rb_entries (append_all es (NewRingBuffer m))))
         ..< Suc (length es)] \<and>
    map forget_seq (rb_entries (append_all es (NewRingBuffer m))) = last_n (nat (max 1 m)) (map forget_seq es)"
proof -
  have sel: "rb_max (NewRingBuffer m) = max 1 m" "rb_seq (NewRingBuffer m) = 0"
      "rb_entries (NewRingBuffer m) = []"
    by (auto simp: NewRingBuffer_def)
  have "rb_ok (append_all es (NewRingBuffer m)) \<and>
      unat (rb_seq (append_all es (NewRingBuffer m))) = length es \<and>
      rb_max (append_all es (NewRingBuffer m)) = max 1 m"
    using append_all_ok [OF rb_ok_new, of m es] assms sel by simp
  moreover have "map forget_seq (rb_entries (append_all es (NewRingBuffer m))) =
      last_n (nat (max 1 m)) (map forget_seq es)"
    using lr.fold_push(3) [of "NewRingBuffer m" es] sel by (simp add: append_all_def)
  ultimately show ?thesis using Since_window [of "append_all es (NewRingBuffer m)" after limit] by simp
qed

definition demo_entry :: LogEntry where
  "demo_entry = log_entry 0 ''info'' ''core'' ''hello'' [] NewRedactor"

theorem log_pull_exact_witness:
  "map (unat \<circ> le_Seq) (Since 3 10 (append_all (replicate 5 demo_entry) (NewRingBuffer 4))) = [4, 5]"
proof -
  have "length (rb_entries (append_all (replicate 5 demo_entry) (NewRingBuffer 4))) = 4"
    by (simp add: numeral_eq_Suc append_all_def rb_Append_def NewRingBuffer_def Let_def)
  with log_pull_exact [of "replicate 5 demo_entry" 3 10 4] show ?thesis
    by (simp add: upt_rec)
qed

text \<open>C31: every logged entry is filtered and redacted at one point. Below the level nothing is
  written anywhere; otherwise every sink, in order, and the ring receive one and the same
  entry, whose sequence number is the ring's next one, whose message is the redacted message
  without escape sequences and in whose context every string at any depth is redacted.\<close>

theorem log_single_choke_point:
  assumes "log now lv component message ctx l = (writes, l')"
    and "1 \<le> rb_max (lg_ring l)" "int (length (rb_entries (lg_ring l))) \<le> rb_max (lg_ring l)"
  shows "if Rank lv < Rank (lg_level l) then writes = [] \<and> l' = l
    else \<exists>e. writes = map (\<lambda>s. (s, e)) (lg_sinks l) \<and> last (rb_entries (lg_ring l')) = e \<and>
      le_Seq e = rb_seq (lg_ring l) + 1 \<and> le_Level e = lv \<and>
      le_Message e = Redact (lg_redactor l) (stripANSI message) \<and>
      leaves (JMap (le_Context e)) = map (Redact (lg_redactor l)) (leaves (JMap ctx)) \<and>
      lg_sinks l' = lg_sinks l \<and> lg_level l' = lg_level l \<and> lg_redactor l' = lg_redactor l"
proof -
  let ?e = "log_entry now lv component message ctx (lg_redactor l)"
  have last: "last (rb_entries (snd (rb_Append ?e (lg_ring l)))) = ?e\<lparr>le_Seq := rb_seq (lg_ring l) + 1\<rparr>"
    using assms(2,3) by (simp add: rb_Append_entries last_n_def)
  have "leaves (JMap (le_Context ?e)) = map (Redact (lg_redactor l)) (leaves (JMap ctx))"
    using leaves_redact [of "lg_redactor l" "JMap ctx"] by (cases ctx) (simp_all add: log_entry_def)
  then show ?thesis
    using assms(1) last by (auto simp: log_def log_entry_def Let_def split: prod.splits)
      (metis fst_conv rb_Append_sel(3))+
qed

theorem log_single_choke_point_witness:
  "\<exists>writes l'. log 7 ''warn'' ''vpn'' ''x'' [] (NewLogger ''console'' ''info'' [''a'', ''b'']) = (writes, l') \<and>
     map fst writes = [''a'', ''b''] \<and> length (rb_entries (lg_ring l')) = 1"
proof -
  let ?l = "NewLogger ''console'' ''info'' [''a'', ''b'']"
  obtain writes l' where step: "log 7 ''warn'' ''vpn'' ''x'' [] ?l = (writes, l')" by fastforce
  have pre: "1 \<le> rb_max (lg_ring ?l)" "int (length (rb_entries (lg_ring ?l))) \<le> rb_max (lg_ring ?l)"
    "lg_sinks ?l = [''a'', ''b'']" "\<not> Rank ''warn'' < Rank (lg_level ?l)"
    by (simp_all add: NewLogger_def NewRingBuffer_def Rank_def normalizeLevel_def level_Valid_def)
  have "length (rb_entries (lg_ring (snd (log 7 ''warn'' ''vpn'' ''x'' [] ?l)))) = 1"
    using pre(4) by (simp add: log_def rb_Append_def Let_def NewLogger_def NewRingBuffer_def)
  with log_single_choke_point [OF step pre(1,2)] pre(3,4) step show ?thesis by auto
qed

end
