(* ===== verification/Server_Repository.thy ===== *)
theory Server_Repository
  imports Server_Rows Secrets Logging "HOL-Library.Multiset"
    "HOL-Library.Product_Lexorder" "HOL-Library.List_Lexorder"
begin

text \<open>
  The server repository (\<open>core/store/server_repository.go\<close>, \<open>querySecretRefs\<close> of
  \<open>rows.go\<close>): profiles in an SQL table, credentials in the secret store. The SQL engine is a
  parameter, a record with one function per statement the code executes; what the statements
  mean is the contract \<open>sql_table\<close>. The theory shows that the repository implements a map from
  identifiers to profiles, that no credential reaches the table, and that the credentials of
  every profile handed out are redacted.
\<close>

section \<open>The SQL statements\<close>

text \<open>A condition of the \<open>WHERE\<close> clause of \<open>List\<close>: the search disjunction with its \<open>LIKE\<close>
  pattern, or a column compared with a value.\<close>

datatype cond = CSearch string | CEq string sql_value

record 'd SqlOps =
  db_row :: "string \<Rightarrow> 'd \<Rightarrow> goerror + row option"
  db_refs :: "string \<Rightarrow> 'd \<Rightarrow> goerror + string option"
  db_upsert :: "row \<Rightarrow> row \<Rightarrow> 'd \<Rightarrow> goerror option \<times> 'd"
  db_delete :: "string \<Rightarrow> 'd \<Rightarrow> (goerror + nat) \<times> 'd"
  db_query :: "cond list \<Rightarrow> string \<times> string \<Rightarrow> 'd \<Rightarrow> goerror + row list \<times> goerror option"

section \<open>Credential fields\<close>

definition errServerNotFound :: goerror where
  "errServerNotFound = GoError ErrServerNotFound ''store: server not found''"

abbreviation (input) RefPassword :: string where "RefPassword \<equiv> ''password''"
abbreviation (input) RefUUID :: string where "RefUUID \<equiv> ''uuid''"
abbreviation (input) RefSSHPrivateKey :: string where "RefSSHPrivateKey \<equiv> ''ssh.privatekey''"

definition SecretStoreKey :: "string \<Rightarrow> string \<Rightarrow> string" where
  "SecretStoreKey serverID ref = ''omniproxy.server.'' @ serverID @ ''.'' @ ref"

definition SecretRefsFor :: "ServerProfile \<Rightarrow> string list" where
  "SecretRefsFor p =
     (if sp_Password p \<noteq> '''' then [RefPassword] else []) @
     (if sp_UUID p \<noteq> '''' then [RefUUID] else []) @
     (if ssh_PrivateKey (sp_SSH p) \<noteq> '''' then [RefSSHPrivateKey] else [])"

definition SecretValueFor :: "ServerProfile \<Rightarrow> string \<Rightarrow> string" where
  "SecretValueFor p ref =
     (if ref = RefPassword then sp_Password p
      else if ref = RefUUID then sp_UUID p
      else if ref = RefSSHPrivateKey then ssh_PrivateKey (sp_SSH p)
      else '''')"

definition SetSecretValue :: "string \<Rightarrow> string \<Rightarrow> ServerProfile \<Rightarrow> ServerProfile" where
  "SetSecretValue ref v p =
     (if ref = RefPassword then p\<lparr>sp_Password := v\<rparr>
      else if ref = RefUUID then p\<lparr>sp_UUID := v\<rparr>
      else if ref = RefSSHPrivateKey then p\<lparr>sp_SSH := (sp_SSH p)\<lparr>ssh_PrivateKey := v\<rparr>\<rparr>
      else p)"

fun containsRef :: "string list \<Rightarrow> string \<Rightarrow> bool" where
  "containsRef [] want = False"
| "containsRef (r # rs) want = (r = want \<or> containsRef rs want)"

definition sanitize :: "ServerProfile \<Rightarrow> ServerProfile" where
  "sanitize p = p\<lparr>sp_Password := '''', sp_UUID := '''', sp_SSH := (sp_SSH p)\<lparr>ssh_PrivateKey := ''''\<rparr>\<rparr>"

section \<open>The repository\<close>

text \<open>The state of the repository is the database, the secret store and the logger's redactor
  (none when no redactor is set). What it gets from outside: the two stores' operations and the
  order in which Go traverses the redactor's map.\<close>

record ('d, 'k) RepoEnv =
  re_sql :: "'d SqlOps"
  re_sec :: "'k SecretOps"
  re_order :: "string list \<Rightarrow> string list"

record ('d, 'k) Repo =
  rp_db :: 'd
  rp_secrets :: 'k
  rp_redact :: "Redactor option"

definition NewSQLiteServerRepository :: "'d \<Rightarrow> 'k \<Rightarrow> ('d, 'k) Repo" where
  "NewSQLiteServerRepository db secrets = \<lparr>rp_db = db, rp_secrets = secrets, rp_redact = None\<rparr>"

definition SetRedactor :: "Redactor option \<Rightarrow> ('d, 'k) Repo \<Rightarrow> ('d, 'k) Repo" where
  "SetRedactor red st = st\<lparr>rp_redact := red\<rparr>"

definition redact_values :: "ServerProfile \<Rightarrow> string list" where
  "redact_values p =
     [sp_Password p, sp_UUID p, ssh_PrivateKey (sp_SSH p), ssh_HostKey (sp_SSH p)] @
     (case sp_Reality p of None \<Rightarrow> [] | Some x \<Rightarrow> [re_PublicKey x, re_ShortID x, re_SpiderX x]) @
     (case sp_Transport p of None \<Rightarrow> [] | Some t \<Rightarrow> [tr_Host t, tr_Path t])"

definition registerRedact :: "('d, 'k) RepoEnv \<Rightarrow> ServerProfile \<Rightarrow> ('d, 'k) Repo \<Rightarrow> ('d, 'k) Repo" where
  "registerRedact env p st =
     st\<lparr>rp_redact := map_option (Add (re_order env) (redact_values p)) (rp_redact st)\<rparr>"

fun store_secrets :: "'k SecretOps \<Rightarrow> ServerProfile \<Rightarrow> string list \<Rightarrow> 'k \<Rightarrow> goerror option \<times> 'k" where
  "store_secrets ops p [] s = (None, s)"
| "store_secrets ops p (ref # refs) s =
     (case so_Set ops (SecretStoreKey (sp_ID p) ref) (SecretValueFor p ref) s of
        (Some e, s') \<Rightarrow> (Some (wrap (''store: store secret '' @ ref @ '': '') e), s')
      | (None, s') \<Rightarrow> store_secrets ops p refs s')"

definition persist :: "('d, 'k) RepoEnv \<Rightarrow> ServerProfile \<Rightarrow> ('d, 'k) Repo \<Rightarrow> goerror option \<times> ('d, 'k) Repo" where
  "persist env p st =
     (let refs = SecretRefsFor p
      in case store_secrets (re_sec env) p refs (rp_secrets st) of
           (Some e, s) \<Rightarrow> (Some e, st\<lparr>rp_secrets := s\<rparr>)
         | (None, s) \<Rightarrow>
             (let vals = serverValues (sanitize p) refs
              in case db_upsert (re_sql env) vals (tl vals) (rp_db st) of
                   (Some e, d) \<Rightarrow> (Some (wrap ''store: upsert server: '' e), st\<lparr>rp_secrets := s, rp_db := d\<rparr>)
                 | (None, d) \<Rightarrow> (None, registerRedact env p (st\<lparr>rp_secrets := s, rp_db := d\<rparr>))))"

fun restore_loop :: "'k SecretOps \<Rightarrow> 'k \<Rightarrow> string list \<Rightarrow> ServerProfile \<Rightarrow> goerror + ServerProfile" where
  "restore_loop ops s [] p = Inr p"
| "restore_loop ops s (ref # refs) p =
     (case so_Get ops (SecretStoreKey (sp_ID p) ref) s of
        Inl e \<Rightarrow> if err_is e = ErrSecretNotFound then restore_loop ops s refs p else Inl e
      | Inr v \<Rightarrow> restore_loop ops s refs (SetSecretValue ref v p))"

definition restoreSecrets :: "('d, 'k) RepoEnv \<Rightarrow> ('d, 'k) Repo \<Rightarrow> serverRow \<Rightarrow> goerror + ServerProfile" where
  "restoreSecrets env st row = restore_loop (re_sec env) (rp_secrets st) (sr_secretRef row) (sr_profile row)"

text \<open>The first lines of \<open>Update\<close> and \<open>Get\<close>: read and scan the row of an identifier.\<close>

definition read_row :: "('d, 'k) RepoEnv \<Rightarrow> string \<Rightarrow> ('d, 'k) Repo \<Rightarrow> goerror + serverRow" where
  "read_row env sid st =
     (case db_row (re_sql env) sid (rp_db st) of
        Inl e \<Rightarrow> Inl e
      | Inr None \<Rightarrow> Inl errServerNotFound
      | Inr (Some r) \<Rightarrow> scanServer r)"

definition repo_Create ::
  "('d, 'k) RepoEnv \<Rightarrow> byte list \<Rightarrow> gotime \<Rightarrow> gotime \<Rightarrow> ServerProfile \<Rightarrow> ('d, 'k) Repo \<Rightarrow>
   (goerror + string) \<times> ('d, 'k) Repo" where
  "repo_Create env rnd nowC nowU p st =
     (case Validate p of
        Some e \<Rightarrow> (Inl e, st)
      | None \<Rightarrow>
          (let cp = p\<lparr>sp_ID := (if sp_ID p = '''' then NewID rnd else sp_ID p),
                      sp_CreatedAt := (if sp_CreatedAt p = 0 then nowC else sp_CreatedAt p),
                      sp_UpdatedAt := (if sp_UpdatedAt p = 0 then nowU else sp_UpdatedAt p)\<rparr>
           in case persist env cp st of
                (Some e, st') \<Rightarrow> (Inl e, st')
              | (None, st') \<Rightarrow> (Inr (sp_ID cp), st')))"

fun drop_secrets :: "'k SecretOps \<Rightarrow> string \<Rightarrow> string list \<Rightarrow> 'k \<Rightarrow> 'k" where
  "drop_secrets ops sid [] s = s"
| "drop_secrets ops sid (ref # refs) s = drop_secrets ops sid refs (snd (so_Delete ops (SecretStoreKey sid ref) s))"

definition repo_Update ::
  "('d, 'k) RepoEnv \<Rightarrow> gotime \<Rightarrow> ServerProfile \<Rightarrow> ('d, 'k) Repo \<Rightarrow> goerror option \<times> ('d, 'k) Repo" where
  "repo_Update env now p st =
     (case Validate p of
        Some e \<Rightarrow> (Some e, st)
      | None \<Rightarrow>
          (case read_row env (sp_ID p) st of
             Inl e \<Rightarrow> (Some e, st)
           | Inr row \<Rightarrow>
               (let stale = filter (\<lambda>ref. \<not> containsRef (SecretRefsFor p) ref) (sr_secretRef row);
                    s = drop_secrets (re_sec env) (sp_ID p) stale (rp_secrets st)
                in persist env (p\<lparr>sp_CreatedAt := sp_CreatedAt (sr_profile row), sp_UpdatedAt := now\<rparr>)
                     (st\<lparr>rp_secrets := s\<rparr>))))"

definition repo_Get ::
  "('d, 'k) RepoEnv \<Rightarrow> string \<Rightarrow> ('d, 'k) Repo \<Rightarrow> (goerror + ServerProfile) \<times> ('d, 'k) Repo" where
  "repo_Get env sid st =
     (case read_row env sid st of
        Inl e \<Rightarrow> (Inl e, st)
      | Inr row \<Rightarrow>
          (case restoreSecrets env st row of
             Inl e \<Rightarrow> (Inl e, st)
           | Inr p \<Rightarrow> (Inr p, registerRedact env p st)))"

definition querySecretRefs :: "('d, 'k) RepoEnv \<Rightarrow> string \<Rightarrow> ('d, 'k) Repo \<Rightarrow> goerror + string list" where
  "querySecretRefs env sid st =
     (case db_refs (re_sql env) sid (rp_db st) of
        Inl e \<Rightarrow> Inl e
      | Inr None \<Rightarrow> Inl errServerNotFound
      | Inr (Some raw) \<Rightarrow>
          (case strings_column raw of None \<Rightarrow> Inl (column_error ''secret_refs'' sid) | Some refs \<Rightarrow> Inr refs))"

definition repo_Delete ::
  "('d, 'k) RepoEnv \<Rightarrow> string \<Rightarrow> ('d, 'k) Repo \<Rightarrow> goerror option \<times> ('d, 'k) Repo" where
  "repo_Delete env sid st =
     (case querySecretRefs env sid st of
        Inl e \<Rightarrow> (Some e, st)
      | Inr refs \<Rightarrow>
          (case db_delete (re_sql env) sid (rp_db st) of
             (Inl e, d) \<Rightarrow> (Some e, st\<lparr>rp_db := d\<rparr>)
           | (Inr n, d) \<Rightarrow>
               if n = 0 then (Some errServerNotFound, st\<lparr>rp_db := d\<rparr>)
               else (None, st\<lparr>rp_db := d, rp_secrets := drop_secrets (re_sec env) sid refs (rp_secrets st)\<rparr>)))"

section \<open>Listing\<close>

abbreviation (input) SortCreated :: string where "SortCreated \<equiv> ''created''"
abbreviation (input) SortUpdated :: string where "SortUpdated \<equiv> ''updated''"
abbreviation (input) SortName :: string where "SortName \<equiv> ''name''"
abbreviation (input) SortLatency :: string where "SortLatency \<equiv> ''latency''"
abbreviation (input) SortProtocol :: string where "SortProtocol \<equiv> ''protocol''"

record Query =
  qu_Search :: string
  qu_Group :: string
  qu_Protocol :: string
  qu_Enabled :: "bool option"
  qu_Favorite :: "bool option"
  qu_Sort :: string
  qu_Order :: string

definition zero_query :: Query where
  "zero_query = \<lparr>qu_Search = '''', qu_Group = '''', qu_Protocol = '''', qu_Enabled = None, qu_Favorite = None,
     qu_Sort = '''', qu_Order = ''''\<rparr>"

text \<open>The column and the direction of the \<open>ORDER BY\<close> clause (ties are ordered by \<open>created_at ASC\<close>).\<close>

definition orderBy :: "string \<Rightarrow> string \<Rightarrow> string \<times> string" where
  "orderBy srt ord =
     (let s = ToLower srt; d = ToLower ord;
          col = (if s = SortUpdated then ''updated_at''
                 else if s = SortName then ''name COLLATE NOCASE''
                 else if s = SortLatency then ''CASE WHEN last_latency_ms > 0 THEN last_latency_ms ELSE NULL END''
                 else if s = SortProtocol then ''protocol''
                 else ''created_at'');
          dir = (if d \<noteq> ''asc'' \<and> d \<noteq> ''desc'' then
                   (if s \<in> {SortUpdated, SortLatency} then ''desc'' else ''asc'')
                 else d)
      in (col, ToUpper dir))"

definition list_where :: "Query \<Rightarrow> cond list" where
  "list_where q =
     (let s = TrimSpace (qu_Search q)
      in (if s \<noteq> '''' then [CSearch (''%'' @ ToLower s @ ''%'')] else []) @
         (if qu_Group q \<noteq> '''' then [CEq ''group_name'' (SText (qu_Group q))] else []) @
         (if qu_Protocol q \<noteq> '''' then [CEq ''protocol'' (SText (qu_Protocol q))] else []) @
         (case qu_Enabled q of None \<Rightarrow> [] | Some b \<Rightarrow> [CEq ''enabled'' (SInt (boolInt b))]) @
         (case qu_Favorite q of None \<Rightarrow> [] | Some b \<Rightarrow> [CEq ''favorite'' (SInt (boolInt b))]))"

text \<open>A query yields rows and the error, if any, that ended the iteration over them. The result is
  the pair the code returns: a list (nil is empty) and an error.\<close>

fun list_loop ::
  "('d, 'k) RepoEnv \<Rightarrow> goerror option \<Rightarrow> row list \<Rightarrow> ServerProfile list \<Rightarrow> ('d, 'k) Repo \<Rightarrow>
   (ServerProfile list \<times> goerror option) \<times> ('d, 'k) Repo" where
  "list_loop env rerr [] out st = ((out, rerr), st)"
| "list_loop env rerr (r # rs) out st =
     (case scanServer r of
        Inl e \<Rightarrow> (([], Some e), st)
      | Inr row \<Rightarrow>
          (case restoreSecrets env st row of
             Inl e \<Rightarrow> (([], Some e), st)
           | Inr p \<Rightarrow> list_loop env rerr rs (out @ [p]) (registerRedact env p st)))"

definition repo_List ::
  "('d, 'k) RepoEnv \<Rightarrow> Query \<Rightarrow> ('d, 'k) Repo \<Rightarrow> (ServerProfile list \<times> goerror option) \<times> ('d, 'k) Repo" where
  "repo_List env q st =
     (case db_query (re_sql env) (list_where q) (orderBy (qu_Sort q) (qu_Order q)) (rp_db st) of
        Inl e \<Rightarrow> (([], Some e), st)
      | Inr (rows, rerr) \<Rightarrow> list_loop env rerr rows [] st)"

section \<open>What the statements mean\<close>

text \<open>A table is a list of rows with distinct keys in the first column.\<close>

definition row_key :: "row \<Rightarrow> string" where
  "row_key r = scan_string (r ! 0)"

definition find_row :: "string \<Rightarrow> row list \<Rightarrow> row option" where
  "find_row k rows = find (\<lambda>r. row_key r = k) rows"

definition upsert_rows :: "row \<Rightarrow> row \<Rightarrow> row list \<Rightarrow> row list" where
  "upsert_rows v u rows =
     (if find_row (row_key v) rows = None then rows @ [v]
      else map (\<lambda>r. if row_key r = row_key v then hd r # u else r) rows)"

definition delete_rows :: "string \<Rightarrow> row list \<Rightarrow> row list" where
  "delete_rows k rows = filter (\<lambda>r. row_key r \<noteq> k) rows"

text \<open>\<open>LIKE\<close> with its two wildcards; both sides are in lower case here.\<close>

fun like :: "string \<Rightarrow> string \<Rightarrow> bool" where
  "like [] s = (s = [])"
| "like (c # pat) s =
     (if c = CHR ''%'' then like pat s \<or> (case s of [] \<Rightarrow> False | _ # t \<Rightarrow> like (c # pat) t)
      else (case s of [] \<Rightarrow> False | d # t \<Rightarrow> (c = CHR ''_'' \<or> c = d) \<and> like pat t))"

fun index_of :: "string \<Rightarrow> string list \<Rightarrow> nat" where
  "index_of c [] = 0"
| "index_of c (d # ds) = (if c = d then 0 else Suc (index_of c ds))"

definition column :: "string \<Rightarrow> row \<Rightarrow> sql_value" where
  "column c r = r ! index_of c serverColumnList"

lemma column_index:
  "index_of ''id'' serverColumnList = 0" "index_of ''name'' serverColumnList = Suc 0"
  "index_of ''protocol'' serverColumnList = 2" "index_of ''address'' serverColumnList = 3"
  "index_of ''username'' serverColumnList = 5" "index_of ''enabled'' serverColumnList = 31"
  "index_of ''group_name'' serverColumnList = 33" "index_of ''favorite'' serverColumnList = 34"
  "index_of ''last_latency_ms'' serverColumnList = 35" "index_of ''created_at'' serverColumnList = 37"
  "index_of ''updated_at'' serverColumnList = 38" "index_of ''secret_refs'' serverColumnList = 39"
  by code_simp+

definition search_columns :: "string list" where
  "search_columns = [''name'', ''address'', ''username'', ''group_name'', ''protocol'']"

definition row_matches :: "row \<Rightarrow> cond \<Rightarrow> bool" where
  "row_matches r c =
     (case c of
        CSearch pat \<Rightarrow> list_ex (\<lambda>k. like pat (ToLower (scan_string (column k r)))) search_columns
      | CEq k v \<Rightarrow> column k r = v)"

text \<open>The pattern's underscore stands for one character, which is one byte in ASCII text only; the
  contract below is about patterns without it.\<close>

definition bytewise :: "cond \<Rightarrow> bool" where
  "bytewise c = (case c of CSearch pat \<Rightarrow> CHR ''_'' \<notin> set pat | CEq k v \<Rightarrow> True)"

text \<open>Sort keys: null comes before numbers, numbers before text; text is compared by bytes.\<close>

datatype sql_key = KNull | KInt int | KText string

definition key_code :: "sql_key \<Rightarrow> nat \<times> int \<times> nat list" where
  "key_code k =
     (case k of KNull \<Rightarrow> (0, 0, []) | KInt i \<Rightarrow> (1, i, []) | KText s \<Rightarrow> (2, 0, map of_char s))"

lemma key_code_inj: "key_code a = key_code b \<Longrightarrow> a = b"
  by (auto simp: key_code_def split: sql_key.splits dest: map_injective [OF _ injI])

instantiation sql_key :: linorder
begin

definition less_eq_sql_key :: "sql_key \<Rightarrow> sql_key \<Rightarrow> bool" where
  "less_eq_sql_key a b \<longleftrightarrow> key_code a \<le> key_code b"

definition less_sql_key :: "sql_key \<Rightarrow> sql_key \<Rightarrow> bool" where
  "less_sql_key a b \<longleftrightarrow> key_code a < key_code b"

instance
  by standard (auto simp: less_eq_sql_key_def less_sql_key_def intro: key_code_inj)

end

definition order_key :: "string \<Rightarrow> row \<Rightarrow> sql_key" where
  "order_key col r =
     (if col = ''updated_at'' then KText (scan_string (column ''updated_at'' r))
      else if col = ''name COLLATE NOCASE'' then KText (ToLower (scan_string (column ''name'' r)))
      else if col = ''CASE WHEN last_latency_ms > 0 THEN last_latency_ms ELSE NULL END'' then
        (case column ''last_latency_ms'' r of SInt i \<Rightarrow> if 0 < i then KInt i else KNull | SText s \<Rightarrow> KText s)
      else if col = ''protocol'' then KText (scan_string (column ''protocol'' r))
      else KText (scan_string (column ''created_at'' r)))"

definition row_before :: "string \<times> string \<Rightarrow> row \<Rightarrow> row \<Rightarrow> bool" where
  "row_before ord r r' =
     (let a = order_key (fst ord) r; b = order_key (fst ord) r'
      in if a = b then order_key ''created_at'' r \<le> order_key ''created_at'' r'
         else if snd ord = ''ASC'' then a < b else b < a)"

lemma row_before_trans: "row_before ord a b \<Longrightarrow> row_before ord b c \<Longrightarrow> row_before ord a c"
  by (auto simp: row_before_def Let_def split: if_splits dest: less_trans order_trans)

lemma row_before_total: "row_before ord a b \<or> row_before ord b a"
  by (auto simp: row_before_def Let_def)

locale sql_table =
  fixes ops :: "'d SqlOps" and tbl :: "'d \<Rightarrow> row list"
  assumes sel_row: "db_row ops k d = Inr r \<Longrightarrow> r = find_row k (tbl d)"
    and sel_refs: "db_refs ops k d = Inr x \<Longrightarrow>
      x = map_option (\<lambda>r. scan_string (column ''secret_refs'' r)) (find_row k (tbl d))"
    and upsert_ok: "db_upsert ops v u d = (None, d') \<Longrightarrow> tbl d' = upsert_rows v u (tbl d)"
    and upsert_failed: "db_upsert ops v u d = (Some e, d') \<Longrightarrow> tbl d' = tbl d"
    and delete_ok: "db_delete ops k d = (Inr n, d') \<Longrightarrow>
      tbl d' = delete_rows k (tbl d) \<and> n = length (tbl d) - length (delete_rows k (tbl d))"
    and delete_failed: "db_delete ops k d = (Inl e, d') \<Longrightarrow> tbl d' = tbl d"
    and query: "db_query ops cs ord d = Inr (rows, None) \<Longrightarrow> list_all bytewise cs \<Longrightarrow>
      mset rows = mset (filter (\<lambda>r. list_all (row_matches r) cs) (tbl d)) \<and> sorted_wrt (row_before ord) rows"

text \<open>An engine that keeps the table as a list and never fails.\<close>

fun insert_row :: "string \<times> string \<Rightarrow> row \<Rightarrow> row list \<Rightarrow> row list" where
  "insert_row ord r [] = [r]"
| "insert_row ord r (x # xs) = (if row_before ord r x then r # x # xs else x # insert_row ord r xs)"

definition table_ops :: "row list SqlOps" where
  "table_ops =
     \<lparr>db_row = (\<lambda>k d. Inr (find_row k d)),
      db_refs = (\<lambda>k d. Inr (map_option (\<lambda>r. scan_string (column ''secret_refs'' r)) (find_row k d))),
      db_upsert = (\<lambda>v u d. (None, upsert_rows v u d)),
      db_delete = (\<lambda>k d. (Inr (length d - length (delete_rows k d)), delete_rows k d)),
      db_query = (\<lambda>cs ord d. Inr (foldr (insert_row ord) (filter (\<lambda>r. list_all (row_matches r) cs) d) [], None))\<rparr>"

lemma insert_row_mset: "mset (insert_row ord r xs) = add_mset r (mset xs)"
  by (induction xs) auto

lemma insert_row_sorted: "sorted_wrt (row_before ord) xs \<Longrightarrow> sorted_wrt (row_before ord) (insert_row ord r xs)"
proof (induction xs)
  case (Cons x xs)
  have "set (insert_row ord r xs) = insert r (set xs)"
    using insert_row_mset [of ord r xs] by (metis set_mset_add_mset_insert set_mset_mset)
  with Cons show ?case
    using row_before_total [of ord r x] row_before_trans [of ord r x] by auto
qed simp

interpretation tab: sql_table table_ops "\<lambda>d. d"
proof
  fix cs ord d rows
  assume "db_query table_ops cs ord d = Inr (rows, None)"
  then have r: "rows = foldr (insert_row ord) (filter (\<lambda>r. list_all (row_matches r) cs) d) []"
    by (simp add: table_ops_def)
  have "mset (foldr (insert_row ord) xs []) = mset xs \<and> sorted_wrt (row_before ord) (foldr (insert_row ord) xs [])" for xs
    by (induction xs) (simp_all add: insert_row_mset insert_row_sorted)
  with r show "mset rows = mset (filter (\<lambda>r. list_all (row_matches r) cs) d) \<and> sorted_wrt (row_before ord) rows"
    by blast
qed (simp_all add: table_ops_def)

section \<open>Secrets\<close>

lemma SecretRefsFor_set:
  "set (SecretRefsFor p) \<subseteq> {RefPassword, RefUUID, RefSSHPrivateKey}"
  by (auto simp: SecretRefsFor_def)

lemma containsRef_iff: "containsRef rs r \<longleftrightarrow> r \<in> set rs"
  by (induction rs) auto

text \<open>The keys of the secret store are distinct for distinct profiles and references, and differ
  from the name of the data key.\<close>

lemma SecretStoreKey_inj:
  assumes "SecretStoreKey a r = SecretStoreKey b q"
    and "r \<in> {RefPassword, RefUUID, RefSSHPrivateKey}" "q \<in> {RefPassword, RefUUID, RefSSHPrivateKey}"
  shows "a = b \<and> r = q"
proof -
  have eq: "rev r @ CHR ''.'' # rev a = rev q @ CHR ''.'' # rev b"
  proof -
    have "a @ CHR ''.'' # r = b @ CHR ''.'' # q" using assms(1) by (simp add: SecretStoreKey_def)
    then have "rev (a @ CHR ''.'' # r) = rev (b @ CHR ''.'' # q)" by simp
    then show ?thesis by simp
  qed
  show ?thesis using assms(2,3) eq by auto
qed

lemma SecretStoreKey_not_data_key: "SecretStoreKey a r \<noteq> DataKeyName"
  by (simp add: SecretStoreKey_def DataKeyName_def)

text \<open>A secret store whose failed writes and deletions leave the other keys alone.\<close>

locale secret_vault = secret_store ops for ops :: "'k SecretOps" +
  assumes set_failed: "so_Set ops k v s = (Some e, s') \<Longrightarrow> k' \<noteq> k \<Longrightarrow> so_Get ops k' s' = so_Get ops k' s"
    and delete_failed: "so_Delete ops k s = (Some e, s') \<Longrightarrow> k' \<noteq> k \<Longrightarrow> so_Get ops k' s' = so_Get ops k' s"
begin

lemma set_frame: "k' \<noteq> k \<Longrightarrow> so_Get ops k' (snd (so_Set ops k v s)) = so_Get ops k' s"
  using get_set [of k v s] set_failed [of k v s] by (cases "so_Set ops k v s"; cases "fst (so_Set ops k v s)") auto

lemma delete_frame: "k' \<noteq> k \<Longrightarrow> so_Get ops k' (snd (so_Delete ops k s)) = so_Get ops k' s"
  using get_delete [of k s] delete_failed [of k s] by (cases "so_Delete ops k s"; cases "fst (so_Delete ops k s)") auto

lemma store_secrets_frame:
  "(\<And>ref. ref \<in> set refs \<Longrightarrow> k \<noteq> SecretStoreKey (sp_ID p) ref) \<Longrightarrow>
   so_Get ops k (snd (store_secrets ops p refs s)) = so_Get ops k s"
proof (induction refs arbitrary: s)
  case (Cons r refs)
  then show ?case
    using set_frame [of k "SecretStoreKey (sp_ID p) r" "SecretValueFor p r" s]
    by (auto split: prod.split option.split)
qed simp

lemma drop_secrets_frame:
  "(\<And>ref. ref \<in> set refs \<Longrightarrow> k \<noteq> SecretStoreKey sid ref) \<Longrightarrow>
   so_Get ops k (drop_secrets ops sid refs s) = so_Get ops k s"
  by (induction refs arbitrary: s) (simp_all add: delete_frame)

lemma store_secrets_ok:
  assumes "store_secrets ops p refs s = (None, s')" "distinct refs"
    and "set refs \<subseteq> {RefPassword, RefUUID, RefSSHPrivateKey}" "ref \<in> set refs"
  shows "so_Get ops (SecretStoreKey (sp_ID p) ref) s' = Inr (SecretValueFor p ref)"
  using assms
proof (induction refs arbitrary: s)
  case (Cons r refs)
  obtain s1 where s1: "so_Set ops (SecretStoreKey (sp_ID p) r) (SecretValueFor p r) s = (None, s1)"
    "store_secrets ops p refs s1 = (None, s')"
    using Cons.prems(1) by (auto split: prod.splits option.splits)
  show ?case
  proof (cases "ref = r")
    case True
    have "SecretStoreKey (sp_ID p) r \<noteq> SecretStoreKey (sp_ID p) q" if "q \<in> set refs" for q
      using that Cons.prems(2,3) SecretStoreKey_inj [of "sp_ID p" r "sp_ID p" q] by auto
    then have "so_Get ops (SecretStoreKey (sp_ID p) r) (snd (store_secrets ops p refs s1)) =
        so_Get ops (SecretStoreKey (sp_ID p) r) s1"
      by (intro store_secrets_frame) blast
    then show ?thesis using True s1 get_set [OF s1(1)] by simp
  next
    case False
    then show ?thesis using Cons s1(2) by simp
  qed
qed simp

end

interpretation memv: secret_vault mem_ops
  by unfold_locales (simp_all add: mem_ops_def mem_Set_def mem_Delete_def)

lemma distinct_SecretRefsFor [simp]: "distinct (SecretRefsFor p)"
  by (simp add: SecretRefsFor_def)

text \<open>Restoring the secrets of a sanitized profile gives the profile back.\<close>

definition credentials_from :: "ServerProfile \<Rightarrow> ServerProfile \<Rightarrow> ServerProfile" where
  "credentials_from p q =
     q\<lparr>sp_Password := sp_Password p, sp_UUID := sp_UUID p, sp_SSH := (sp_SSH q)\<lparr>ssh_PrivateKey := ssh_PrivateKey (sp_SSH p)\<rparr>\<rparr>"

lemma SetSecretValue_ID [simp]: "sp_ID (SetSecretValue ref v q) = sp_ID q"
  by (simp add: SetSecretValue_def)

lemma restore_loop_fold:
  assumes "\<And>ref. ref \<in> set refs \<Longrightarrow> so_Get ops (SecretStoreKey (sp_ID q) ref) s = Inr (SecretValueFor p ref)"
  shows "restore_loop ops s refs q = Inr (fold (\<lambda>ref. SetSecretValue ref (SecretValueFor p ref)) refs q)"
  using assms by (induction refs arbitrary: q) simp_all

lemma restore_sanitized:
  "fold (\<lambda>ref. SetSecretValue ref (SecretValueFor p ref)) (SecretRefsFor p) (sanitize p) = p"
  by (simp add: SecretRefsFor_def sanitize_def SetSecretValue_def SecretValueFor_def)

lemma stored_sanitize: "stored_form (sanitize p) = sanitize (stored_form p)"
  by (simp add: stored_form_def sanitize_def)

lemma sanitize_sel [simp]: "sp_ID (sanitize p) = sp_ID p" "storable (sanitize p) = storable p"
  "sp_CreatedAt (sanitize p) = sp_CreatedAt p"
  by (simp_all add: sanitize_def storable_def)

lemma SecretRefsFor_stored [simp]: "SecretRefsFor (stored_form p) = SecretRefsFor p"
  "SecretValueFor (stored_form p) = SecretValueFor p"
  by (simp_all add: SecretRefsFor_def SecretValueFor_def fun_eq_iff)

lemma refs_utf8: "\<forall>s \<in> set (SecretRefsFor p). valid_utf8 s"
  by (auto simp: SecretRefsFor_def)

lemma scan_sanitized:
  "storable p \<Longrightarrow> scanServer (serverValues (sanitize p) (SecretRefsFor p)) =
     Inr \<lparr>sr_profile = sanitize (stored_form p), sr_secretRef = SecretRefsFor p\<rparr>"
  using scan_values [of "sanitize p" "SecretRefsFor p"] refs_utf8 by (simp add: stored_sanitize)

section \<open>The map behind the repository\<close>

definition table_ok :: "row list \<Rightarrow> bool" where
  "table_ok rows \<longleftrightarrow> distinct (map row_key rows) \<and> (\<forall>r \<in> set rows. r \<noteq> [] \<and> hd r = SText (row_key r))"

definition row_of :: "ServerProfile \<Rightarrow> row" where
  "row_of p = serverValues (sanitize p) (SecretRefsFor p)"

lemma row_of_key [simp]: "row_key (row_of p) = sp_ID p" "hd (row_of p) = SText (sp_ID p)" "row_of p \<noteq> []"
  "SText (sp_ID p) # tl (row_of p) = row_of p"
  by (simp_all add: row_key_def row_of_def serverValues_def)

lemma find_row_Some: "find_row k rows = Some r \<Longrightarrow> r \<in> set rows \<and> row_key r = k"
  by (auto simp: find_row_def find_Some_iff)

lemma find_row_None: "find_row k rows = None \<longleftrightarrow> k \<notin> row_key ` set rows"
  by (auto simp: find_row_def find_None_iff image_iff)

lemma find_row_in: "table_ok rows \<Longrightarrow> r \<in> set rows \<Longrightarrow> find_row (row_key r) rows = Some r"
  by (induction rows) (auto simp: table_ok_def find_row_def)

lemma find_row_append: "find_row k (xs @ ys) = (case find_row k xs of None \<Rightarrow> find_row k ys | r \<Rightarrow> r)"
  by (induction xs) (simp_all add: find_row_def)

lemma upsert_rows_present:
  assumes "find_row (row_key v) rows \<noteq> None" "table_ok rows" "v \<noteq> []" "hd v = SText (row_key v)"
  shows "upsert_rows v (tl v) rows = map (\<lambda>r. if row_key r = row_key v then v else r) rows"
proof -
  have "hd r # tl v = v" if "r \<in> set rows" "row_key r = row_key v" for r
    using that assms(2-4) by (cases v) (auto simp: table_ok_def)
  then show ?thesis using assms(1) by (simp add: upsert_rows_def)
qed

lemma find_row_replace:
  "row_key v = k \<Longrightarrow> find_row j (map (\<lambda>r. if row_key r = k then v else r) rows) =
     (if j = k then (if find_row k rows = None then None else Some v) else find_row j rows)"
  by (induction rows) (auto simp: find_row_def)

lemma upsert_rows_find:
  assumes "table_ok rows" "v \<noteq> []" "hd v = SText (row_key v)"
  shows "find_row j (upsert_rows v (tl v) rows) = (if j = row_key v then Some v else find_row j rows)"
proof (cases "find_row (row_key v) rows")
  case None
  then show ?thesis
    by (auto simp: upsert_rows_def find_row_append split: option.split) (auto simp: find_row_def)
next
  case (Some r)
  then show ?thesis
    using upsert_rows_present [OF _ assms] find_row_replace [of v "row_key v" j rows] by simp
qed

lemma upsert_rows_ok:
  assumes "table_ok rows" "v \<noteq> []" "hd v = SText (row_key v)"
  shows "table_ok (upsert_rows v (tl v) rows)"
proof (cases "find_row (row_key v) rows")
  case None
  then show ?thesis using assms by (auto simp: upsert_rows_def table_ok_def find_row_None)
next
  case (Some r)
  let ?f = "\<lambda>r. if row_key r = row_key v then v else r"
  have "upsert_rows v (tl v) rows = map ?f rows"
    using Some upsert_rows_present [OF _ assms] by simp
  moreover have "map row_key (map ?f rows) = map row_key rows" by auto
  ultimately show ?thesis using assms unfolding table_ok_def by (auto simp del: map_map)
qed

lemma delete_rows_find: "find_row j (delete_rows k rows) = (if j = k then None else find_row j rows)"
  by (induction rows) (auto simp: delete_rows_def find_row_def)

lemma delete_rows_ok: "table_ok rows \<Longrightarrow> table_ok (delete_rows k rows)"
  by (auto simp: table_ok_def delete_rows_def distinct_map_filter)

lemma filter_full: "length (filter P xs) = length xs \<longleftrightarrow> (\<forall>x \<in> set xs. P x)"
proof (induction xs)
  case (Cons x xs)
  have "length (filter P xs) \<noteq> Suc (length xs)" using le_imp_less_Suc [OF length_filter_le [of P xs]] by simp
  with Cons show ?case by auto
qed simp

lemma delete_rows_count:
  "length rows - length (delete_rows k rows) = 0 \<longleftrightarrow> find_row k rows = None"
proof -
  have "length (filter (\<lambda>r. row_key r \<noteq> k) rows) \<le> length rows" by simp
  then have "length rows - length (delete_rows k rows) = 0 \<longleftrightarrow> length (filter (\<lambda>r. row_key r \<noteq> k) rows) = length rows"
    unfolding delete_rows_def by linarith
  also have "\<dots> \<longleftrightarrow> find_row k rows = None"
    by (auto simp: filter_full find_row_None image_iff)
  finally show ?thesis .
qed

text \<open>What the state says of one identifier: no row, or the row of a profile whose credentials
  are in the secret store.\<close>

definition stored_as ::
  "'k SecretOps \<Rightarrow> ('d \<Rightarrow> row list) \<Rightarrow> ('d, 'k) Repo \<Rightarrow> string \<Rightarrow> ServerProfile option \<Rightarrow> bool" where
  "stored_as sec tbl st k m \<longleftrightarrow>
     find_row k (tbl (rp_db st)) = map_option row_of m \<and>
     (\<forall>p. m = Some p \<longrightarrow> sp_ID p = k \<and> storable p \<and>
        (\<forall>ref \<in> set (SecretRefsFor p). so_Get sec (SecretStoreKey k ref) (rp_secrets st) = Inr (SecretValueFor p ref)))"

definition repo_repr ::
  "'k SecretOps \<Rightarrow> ('d \<Rightarrow> row list) \<Rightarrow> (string \<rightharpoonup> ServerProfile) \<Rightarrow> ('d, 'k) Repo \<Rightarrow> bool" where
  "repo_repr sec tbl M st \<longleftrightarrow> table_ok (tbl (rp_db st)) \<and> (\<forall>k. stored_as sec tbl st k (M k))"

lemma registerRedact_sel [simp]:
  "rp_db (registerRedact env p st) = rp_db st" "rp_secrets (registerRedact env p st) = rp_secrets st"
  by (simp_all add: registerRedact_def)

lemma stored_as_redact [simp]: "stored_as sec tbl (registerRedact env p st) = stored_as sec tbl st"
  by (simp add: stored_as_def fun_eq_iff)

locale repository = tb: sql_table sql tbl + sv: secret_vault sec
  for sql :: "'d SqlOps" and tbl :: "'d \<Rightarrow> row list" and sec :: "'k SecretOps" +
  fixes env :: "('d, 'k) RepoEnv"
  assumes env: "re_sql env = sql" "re_sec env = sec"
begin

lemma persist_ok:
  assumes "persist env p st = (None, st')" "table_ok (tbl (rp_db st))" "storable p"
  shows "table_ok (tbl (rp_db st'))" "stored_as sec tbl st' (sp_ID p) (Some p)"
proof -
  from assms(1) obtain s d where s: "store_secrets sec p (SecretRefsFor p) (rp_secrets st) = (None, s)"
    and d: "db_upsert sql (row_of p) (tl (row_of p)) (rp_db st) = (None, d)"
    and st': "st' = registerRedact env p (st\<lparr>rp_secrets := s, rp_db := d\<rparr>)"
    by (auto simp: persist_def Let_def env row_of_def split: prod.splits option.splits)
  note t = tb.upsert_ok [OF d]
  show "table_ok (tbl (rp_db st'))" using assms(2) by (simp add: st' t upsert_rows_ok)
  show "stored_as sec tbl st' (sp_ID p) (Some p)"
    using assms sv.store_secrets_ok [OF s distinct_SecretRefsFor SecretRefsFor_set]
    by (simp add: st' stored_as_def t upsert_rows_find)
qed

text \<open>Whether it succeeds or not, writing a profile does not touch the others.\<close>

lemma key_other:
  assumes "k \<noteq> j" "stored_as sec tbl st k (Some p)" "ref \<in> set (SecretRefsFor p)" "q \<in> set (SecretRefsFor p')"
  shows "SecretStoreKey k ref \<noteq> SecretStoreKey j q"
  using assms SecretRefsFor_set [of p] SecretRefsFor_set [of p'] SecretStoreKey_inj [of k ref j q] by blast

lemma persist_frame:
  assumes "persist env p st = (r, st')" "table_ok (tbl (rp_db st))" "k \<noteq> sp_ID p" "stored_as sec tbl st k m"
  shows "table_ok (tbl (rp_db st')) \<and> stored_as sec tbl st' k m"
proof -
  have find: "table_ok (tbl (rp_db st')) \<and> find_row k (tbl (rp_db st')) = find_row k (tbl (rp_db st))"
  proof (cases "store_secrets sec p (SecretRefsFor p) (rp_secrets st)")
    case (Pair e s)
    show ?thesis
    proof (cases e)
      case (Some x)
      with Pair assms(1,2) show ?thesis by (auto simp: persist_def Let_def env)
    next
      case None
      obtain e' d where d: "db_upsert sql (row_of p) (tl (row_of p)) (rp_db st) = (e', d)" by fastforce
      then have "rp_db st' = d" using Pair None assms(1)
        by (auto simp: persist_def Let_def env row_of_def split: option.splits)
      then show ?thesis
        using assms(2,3) d tb.upsert_ok tb.upsert_failed
        by (cases e') (auto simp: upsert_rows_find upsert_rows_ok)
    qed
  qed
  have sec: "rp_secrets st' = snd (store_secrets sec p (SecretRefsFor p) (rp_secrets st))"
    using assms(1) by (auto simp: persist_def Let_def env split: prod.splits option.splits)
  have "so_Get sec (SecretStoreKey k ref) (rp_secrets st') = so_Get sec (SecretStoreKey k ref) (rp_secrets st)"
    if "m = Some p'" "ref \<in> set (SecretRefsFor p')" for p' ref
    unfolding sec using assms(3,4) that key_other [of k "sp_ID p" st p' ref _ p]
    by (intro sv.store_secrets_frame) blast
  then show ?thesis using find assms(4) by (simp add: stored_as_def)
qed

lemma read_row_repr:
  assumes "stored_as sec tbl st k m" "db_row sql k (rp_db st) = Inr r"
  shows "read_row env k st = (case m of None \<Rightarrow> Inl errServerNotFound
     | Some p \<Rightarrow> Inr \<lparr>sr_profile = sanitize (stored_form p), sr_secretRef = SecretRefsFor p\<rparr>)"
proof -
  have "r = map_option row_of m" using tb.sel_row [OF assms(2)] assms(1) by (simp add: stored_as_def)
  then show ?thesis
    using assms by (auto simp: read_row_def env stored_as_def row_of_def scan_sanitized split: option.split)
qed

lemma restore_repr:
  assumes "stored_as sec tbl st k (Some p)"
  shows "restoreSecrets env st \<lparr>sr_profile = sanitize (stored_form p), sr_secretRef = SecretRefsFor p\<rparr> =
    Inr (stored_form p)"
proof -
  have "restore_loop sec (rp_secrets st) (SecretRefsFor p) (sanitize (stored_form p)) =
      Inr (fold (\<lambda>ref. SetSecretValue ref (SecretValueFor p ref)) (SecretRefsFor p) (sanitize (stored_form p)))"
    using assms by (intro restore_loop_fold) (simp add: stored_as_def)
  then show ?thesis
    using restore_sanitized [of "stored_form p"] by (simp add: restoreSecrets_def env)
qed

lemma Get_repr:
  assumes "stored_as sec tbl st k m" "db_row sql k (rp_db st) = Inr r"
  shows "repo_Get env k st = (case m of None \<Rightarrow> (Inl errServerNotFound, st)
     | Some p \<Rightarrow> (Inr (stored_form p), registerRedact env (stored_form p) st))"
  using read_row_repr [OF assms] restore_repr [of st k] assms(1)
  by (auto simp: repo_Get_def split: option.splits)

end

lemma time_ok_whole: "time_ok t \<Longrightarrow> time_ok (whole_second t)"
proof -
  assume t: "time_ok t"
  have "t div second * second \<le> t" using div_mult_mod_eq [of t second] pos_mod_sign [of second t] by linarith
  moreover have "0 \<le> t div second * second" using t by (simp add: time_ok_def pos_imp_zdiv_nonneg_iff)
  ultimately show ?thesis using t by (simp add: time_ok_def whole_second_def)
qed

lemma storable_upd [simp]:
  "storable (p\<lparr>sp_CreatedAt := c, sp_UpdatedAt := u\<rparr>) \<longleftrightarrow>
     storable (p\<lparr>sp_CreatedAt := 0, sp_UpdatedAt := 0\<rparr>) \<and> time_ok c \<and> time_ok u"
  by (auto simp: storable_def time_ok_def days_before_year_def)

lemma storable_base: "storable p \<Longrightarrow> storable (p\<lparr>sp_CreatedAt := 0, sp_UpdatedAt := 0\<rparr>)"
  by (auto simp: storable_def time_ok_def days_before_year_def)

section \<open>The specification\<close>

text \<open>The repository as a map: creating and updating write a profile, reading returns what a row
  keeps of it.\<close>

datatype repo_op =
    OpCreate "byte list" gotime gotime ServerProfile
  | OpUpdate gotime ServerProfile
  | OpDelete string
  | OpGet string

datatype repo_result = ResID string | ResProfile ServerProfile | ResDone | ResError goerror

definition created :: "byte list \<Rightarrow> gotime \<Rightarrow> gotime \<Rightarrow> ServerProfile \<Rightarrow> ServerProfile" where
  "created rnd nowC nowU p =
     p\<lparr>sp_ID := (if sp_ID p = '''' then NewID rnd else sp_ID p),
       sp_CreatedAt := (if sp_CreatedAt p = 0 then nowC else sp_CreatedAt p),
       sp_UpdatedAt := (if sp_UpdatedAt p = 0 then nowU else sp_UpdatedAt p)\<rparr>"

definition updated :: "gotime \<Rightarrow> ServerProfile \<Rightarrow> ServerProfile \<Rightarrow> ServerProfile" where
  "updated now p old = p\<lparr>sp_CreatedAt := whole_second (sp_CreatedAt old), sp_UpdatedAt := now\<rparr>"

fun spec_step :: "repo_op \<Rightarrow> (string \<rightharpoonup> ServerProfile) \<Rightarrow> repo_result \<times> (string \<rightharpoonup> ServerProfile)" where
  "spec_step (OpCreate rnd nowC nowU p) M =
     (case Validate p of
        Some e \<Rightarrow> (ResError e, M)
      | None \<Rightarrow> (let cp = created rnd nowC nowU p in (ResID (sp_ID cp), M(sp_ID cp \<mapsto> cp))))"
| "spec_step (OpUpdate now p) M =
     (case Validate p of
        Some e \<Rightarrow> (ResError e, M)
      | None \<Rightarrow>
          (case M (sp_ID p) of
             None \<Rightarrow> (ResError errServerNotFound, M)
           | Some old \<Rightarrow> (ResDone, M(sp_ID p \<mapsto> updated now p old))))"
| "spec_step (OpDelete k) M =
     (if M k = None then (ResError errServerNotFound, M) else (ResDone, M(k := None)))"
| "spec_step (OpGet k) M =
     (case M k of None \<Rightarrow> (ResError errServerNotFound, M) | Some p \<Rightarrow> (ResProfile (stored_form p), M))"

fun spec_run :: "repo_op list \<Rightarrow> (string \<rightharpoonup> ServerProfile) \<Rightarrow> repo_result list \<times> (string \<rightharpoonup> ServerProfile)" where
  "spec_run [] M = ([], M)"
| "spec_run (op # ops) M =
     (let (r, M') = spec_step op M; (rs, M'') = spec_run ops M' in (r # rs, M''))"

definition done_result :: "goerror option \<times> 's \<Rightarrow> repo_result \<times> 's" where
  "done_result x = (case fst x of None \<Rightarrow> (ResDone, snd x) | Some e \<Rightarrow> (ResError e, snd x))"

fun repo_step :: "('d, 'k) RepoEnv \<Rightarrow> repo_op \<Rightarrow> ('d, 'k) Repo \<Rightarrow> repo_result \<times> ('d, 'k) Repo" where
  "repo_step env (OpCreate rnd nowC nowU p) st =
     (case repo_Create env rnd nowC nowU p st of
        (Inl e, st') \<Rightarrow> (ResError e, st') | (Inr k, st') \<Rightarrow> (ResID k, st'))"
| "repo_step env (OpUpdate now p) st = done_result (repo_Update env now p st)"
| "repo_step env (OpDelete k) st = done_result (repo_Delete env k st)"
| "repo_step env (OpGet k) st =
     (case repo_Get env k st of
        (Inl e, st') \<Rightarrow> (ResError e, st') | (Inr p, st') \<Rightarrow> (ResProfile p, st'))"

fun repo_run :: "('d, 'k) RepoEnv \<Rightarrow> repo_op list \<Rightarrow> ('d, 'k) Repo \<Rightarrow> repo_result list \<times> ('d, 'k) Repo" where
  "repo_run env [] st = ([], st)"
| "repo_run env (op # ops) st =
     (let (r, st') = repo_step env op st; (rs, st'') = repo_run env ops st' in (r # rs, st''))"

text \<open>The arguments the refinement is about: lists of valid UTF-8 and times with a four-digit year.\<close>

fun op_ok :: "repo_op \<Rightarrow> bool" where
  "op_ok (OpCreate rnd nowC nowU p) = (storable p \<and> time_ok nowC \<and> time_ok nowU)"
| "op_ok (OpUpdate now p) = (storable p \<and> time_ok now)"
| "op_ok _ = True"

text \<open>Stores that do not fail.\<close>

definition reliable :: "'d SqlOps \<Rightarrow> 'k SecretOps \<Rightarrow> bool" where
  "reliable sql sec \<longleftrightarrow>
     (\<forall>k d. \<exists>r. db_row sql k d = Inr r) \<and> (\<forall>k d. \<exists>r. db_refs sql k d = Inr r) \<and>
     (\<forall>v u d. fst (db_upsert sql v u d) = None) \<and> (\<forall>k d. \<exists>n. fst (db_delete sql k d) = Inr n) \<and>
     (\<forall>k v s. fst (so_Set sec k v s) = None)"

lemma created_storable:
  "storable p \<Longrightarrow> time_ok nowC \<Longrightarrow> time_ok nowU \<Longrightarrow> storable (created rnd nowC nowU p)"
  by (auto simp: storable_def created_def)

lemma updated_storable:
  "storable p \<Longrightarrow> storable old \<Longrightarrow> time_ok now \<Longrightarrow> storable (updated now p old)"
  using storable_base [of p] by (auto simp: updated_def storable_def time_ok_whole)

context repository
begin

lemma persist_repr:
  assumes "persist env p st = (None, st')" "repo_repr sec tbl M st" "storable p"
  shows "repo_repr sec tbl (M(sp_ID p \<mapsto> p)) st'"
proof -
  have t: "table_ok (tbl (rp_db st))" and k: "\<And>k. stored_as sec tbl st k (M k)"
    using assms(2) by (auto simp: repo_repr_def)
  show ?thesis
    using persist_ok [OF assms(1) t assms(3)] persist_frame [OF assms(1) t] k by (auto simp: repo_repr_def)
qed

lemma drop_secrets_repr:
  assumes "stored_as sec tbl st k m" "k \<noteq> sid \<or> (\<forall>p. m = Some p \<longrightarrow> set refs \<inter> set (SecretRefsFor p) = {})"
    "set refs \<subseteq> {RefPassword, RefUUID, RefSSHPrivateKey}"
  shows "stored_as sec tbl (st\<lparr>rp_secrets := drop_secrets sec sid refs (rp_secrets st)\<rparr>) k m"
proof -
  have "so_Get sec (SecretStoreKey k ref) (drop_secrets sec sid refs (rp_secrets st)) =
      so_Get sec (SecretStoreKey k ref) (rp_secrets st)" if "m = Some p" "ref \<in> set (SecretRefsFor p)" for p ref
  proof (rule sv.drop_secrets_frame)
    show "SecretStoreKey k ref \<noteq> SecretStoreKey sid q" if "q \<in> set refs" for q
      using that \<open>m = Some p\<close> \<open>ref \<in> _\<close> assms(2,3) SecretRefsFor_set [of p] SecretStoreKey_inj [of k ref sid q] by blast
  qed
  then show ?thesis using assms(1) by (simp add: stored_as_def)
qed

lemma Create_repr:
  assumes "repo_repr sec tbl M st" "repo_Create env rnd nowC nowU p st = (Inr k, st')"
    "storable p" "time_ok nowC" "time_ok nowU"
  shows "k = sp_ID (created rnd nowC nowU p) \<and> repo_repr sec tbl (M(k \<mapsto> created rnd nowC nowU p)) st'"
proof -
  have "persist env (created rnd nowC nowU p) st = (None, st')" "k = sp_ID (created rnd nowC nowU p)"
    using assms(2) by (auto simp: repo_Create_def created_def Let_def split: option.splits prod.splits)
  then show ?thesis using persist_repr [OF _ assms(1) created_storable [OF assms(3-5)]] by simp
qed

lemma Update_repr:
  assumes "repo_repr sec tbl M st" "repo_Update env now p st = (None, st')" "storable p" "time_ok now"
    "db_row sql (sp_ID p) (rp_db st) = Inr r"
  shows "\<exists>old. M (sp_ID p) = Some old \<and> repo_repr sec tbl (M(sp_ID p \<mapsto> updated now p old)) st'"
proof -
  have key: "stored_as sec tbl st (sp_ID p) (M (sp_ID p))" using assms(1) by (simp add: repo_repr_def)
  obtain old where old: "M (sp_ID p) = Some old"
    using assms(2) read_row_repr [OF key assms(5)] by (auto simp: repo_Update_def split: option.splits)
  let ?stale = "filter (\<lambda>ref. \<not> containsRef (SecretRefsFor p) ref) (SecretRefsFor old)"
  let ?st = "st\<lparr>rp_secrets := drop_secrets sec (sp_ID p) ?stale (rp_secrets st)\<rparr>"
  have p: "persist env (updated now p old) ?st = (None, st')"
    using assms(2) read_row_repr [OF key assms(5)] old
    by (auto simp: repo_Update_def Let_def env updated_def split: option.splits)
  have "storable old" using key old by (simp add: stored_as_def)
  note s = updated_storable [OF assms(3) this assms(4)]
  have t: "table_ok (tbl (rp_db ?st))" using assms(1) by (simp add: repo_repr_def)
  have "stored_as sec tbl ?st k (M k)" if "k \<noteq> sp_ID p" for k
    using assms(1) that SecretRefsFor_set [of old] by (intro drop_secrets_repr) (auto simp: repo_repr_def)
  then have "stored_as sec tbl st' k (M k)" if "k \<noteq> sp_ID p" for k
    using persist_frame [OF p t, of k "M k"] that by (simp add: updated_def)
  then show ?thesis
    using old persist_ok [OF p t s] by (auto simp: repo_repr_def updated_def)
qed

lemma query_refs_repr:
  assumes "stored_as sec tbl st k m" "db_refs sql k (rp_db st) = Inr x"
  shows "querySecretRefs env k st = (case m of None \<Rightarrow> Inl errServerNotFound | Some p \<Rightarrow> Inr (SecretRefsFor p))"
proof (cases m)
  case None
  then have "x = None" using tb.sel_refs [OF assms(2)] assms(1) by (simp add: stored_as_def)
  then show ?thesis using None assms(2) by (simp add: querySecretRefs_def env)
next
  case (Some old)
  have "x = Some (if SecretRefsFor old = [] then ''null'' else strings_json (SecretRefsFor old))"
    using tb.sel_refs [OF assms(2)] assms(1) Some
    by (simp add: stored_as_def column_def column_index row_of_def serverValues_nth)
  then show ?thesis
    using Some assms(2) refs_column [OF refs_utf8 [of old]] by (simp add: querySecretRefs_def env)
qed

lemma Delete_repr:
  assumes "repo_repr sec tbl M st" "repo_Delete env k st = (None, st')"
  shows "M k \<noteq> None \<and> repo_repr sec tbl (M(k := None)) st'"
proof -
  obtain refs n d where q: "querySecretRefs env k st = Inr refs" and d: "db_delete sql k (rp_db st) = (Inr n, d)"
    and n: "n \<noteq> 0" and st': "st' = st\<lparr>rp_db := d, rp_secrets := drop_secrets sec k refs (rp_secrets st)\<rparr>"
    using assms(2) by (auto simp: repo_Delete_def env split: sum.splits prod.splits if_splits)
  have key: "stored_as sec tbl st j (M j)" for j using assms(1) by (simp add: repo_repr_def)
  note del = tb.delete_ok [OF d]
  obtain old where old: "M k = Some old"
    using n del delete_rows_count [of "tbl (rp_db st)" k] key [of k] by (cases "M k") (auto simp: stored_as_def)
  have refs: "refs = SecretRefsFor old"
  proof -
    obtain x where "db_refs sql k (rp_db st) = Inr x"
      using q by (auto simp: querySecretRefs_def env split: sum.splits)
    from query_refs_repr [OF key this] show ?thesis using q old by simp
  qed
  have "stored_as sec tbl (st\<lparr>rp_secrets := drop_secrets sec k refs (rp_secrets st)\<rparr>) j (M j)" if "j \<noteq> k" for j
    using key that refs SecretRefsFor_set [of old] by (intro drop_secrets_repr) auto
  then have "stored_as sec tbl st' j (M j)" if "j \<noteq> k" for j
    using that del by (simp add: st' stored_as_def delete_rows_find)
  moreover have "stored_as sec tbl st' k None" using del by (simp add: st' stored_as_def delete_rows_find)
  moreover have "table_ok (tbl (rp_db st'))" using assms(1) del by (simp add: st' repo_repr_def delete_rows_ok)
  ultimately show ?thesis using old by (auto simp: repo_repr_def)
qed

end

lemma reliableD:
  assumes "reliable sql sec"
  shows "\<exists>r. db_row sql k d = Inr r" "\<exists>x. db_refs sql k d = Inr x" "\<exists>d'. db_upsert sql v u d = (None, d')"
    "\<exists>n d'. db_delete sql k d = (Inr n, d')" "\<exists>s'. so_Set sec k w s = (None, s')"
proof -
  show "\<exists>r. db_row sql k d = Inr r" "\<exists>x. db_refs sql k d = Inr x"
    using assms unfolding reliable_def by blast+
  have "fst (db_upsert sql v u d) = None" "fst (so_Set sec k w s) = None"
    using assms unfolding reliable_def by blast+
  then show "\<exists>d'. db_upsert sql v u d = (None, d')" "\<exists>s'. so_Set sec k w s = (None, s')"
    by (metis prod.collapse)+
  have "\<exists>n. fst (db_delete sql k d) = Inr n" using assms unfolding reliable_def by blast
  then show "\<exists>n d'. db_delete sql k d = (Inr n, d')" by (metis prod.collapse)
qed

context repository
begin

lemma store_secrets_reliable: "reliable sql sec \<Longrightarrow> \<exists>s'. store_secrets sec p refs s = (None, s')"
proof (induction refs arbitrary: s)
  case (Cons r refs)
  obtain s1 where "so_Set sec (SecretStoreKey (sp_ID p) r) (SecretValueFor p r) s = (None, s1)"
    using reliableD(5) [OF Cons.prems] by blast
  then show ?case using Cons.IH [OF Cons.prems, of s1] by simp
qed simp

lemma persist_reliable:
  assumes "reliable sql sec"
  shows "\<exists>st'. persist env p st = (None, st')"
proof -
  obtain s where s: "store_secrets sec p (SecretRefsFor p) (rp_secrets st) = (None, s)"
    using store_secrets_reliable [OF assms] by blast
  obtain d where d: "db_upsert sql (row_of p) (tl (row_of p)) (rp_db st) = (None, d)"
    using reliableD(3) [OF assms] by blast
  show ?thesis using s d by (simp add: persist_def Let_def env row_of_def)
qed

lemma repr_key: "repo_repr sec tbl M st \<Longrightarrow> stored_as sec tbl st k (M k)"
  by (simp add: repo_repr_def)

lemma Create_refines:
  assumes "reliable sql sec" "repo_repr sec tbl M st" "op_ok (OpCreate rnd nowC nowU p)"
  shows "\<exists>st'. repo_step env (OpCreate rnd nowC nowU p) st = (fst (spec_step (OpCreate rnd nowC nowU p) M), st') \<and>
    repo_repr sec tbl (snd (spec_step (OpCreate rnd nowC nowU p) M)) st'"
proof (cases "Validate p")
  case (Some e)
  then show ?thesis using assms(2) by (simp add: repo_Create_def)
next
  case None
  obtain st' where st': "persist env (created rnd nowC nowU p) st = (None, st')"
    using persist_reliable [OF assms(1)] by blast
  then have c: "repo_Create env rnd nowC nowU p st = (Inr (sp_ID (created rnd nowC nowU p)), st')"
    using None by (simp add: repo_Create_def created_def Let_def)
  show ?thesis using Create_repr [OF assms(2) c] assms(3) None c by (simp add: Let_def)
qed

lemma Update_refines:
  assumes "reliable sql sec" "repo_repr sec tbl M st" "op_ok (OpUpdate now p)"
  shows "\<exists>st'. repo_step env (OpUpdate now p) st = (fst (spec_step (OpUpdate now p) M), st') \<and>
    repo_repr sec tbl (snd (spec_step (OpUpdate now p) M)) st'"
proof -
  obtain r where r: "db_row sql (sp_ID p) (rp_db st) = Inr r" using reliableD(1) [OF assms(1)] by blast
  note row = read_row_repr [OF repr_key [OF assms(2)] r]
  consider e where "Validate p = Some e" | "Validate p = None" "M (sp_ID p) = None"
    | old where "Validate p = None" "M (sp_ID p) = Some old" by (cases "Validate p"; cases "M (sp_ID p)") auto
  then show ?thesis
  proof cases
    case 1
    then show ?thesis using assms(2) by (simp add: repo_Update_def done_result_def)
  next
    case 2
    then show ?thesis using assms(2) row by (simp add: repo_Update_def done_result_def)
  next
    case (3 old)
    then obtain st' where st': "repo_Update env now p st = (None, st')"
      using row persist_reliable [OF assms(1)] by (simp add: repo_Update_def Let_def) blast
    then show ?thesis
      using Update_repr [OF assms(2) st' _ _ r] assms(3) 3 by (auto simp: done_result_def)
  qed
qed

lemma Delete_refines:
  assumes "reliable sql sec" "repo_repr sec tbl M st"
  shows "\<exists>st'. repo_step env (OpDelete k) st = (fst (spec_step (OpDelete k) M), st') \<and>
    repo_repr sec tbl (snd (spec_step (OpDelete k) M)) st'"
proof -
  obtain x where x: "db_refs sql k (rp_db st) = Inr x" using reliableD(2) [OF assms(1)] by blast
  note key = repr_key [OF assms(2), of k]
  note q = query_refs_repr [OF key x]
  show ?thesis
  proof (cases "M k")
    case None
    then show ?thesis using assms(2) q by (simp add: repo_Delete_def done_result_def)
  next
    case (Some old)
    obtain n d where d: "db_delete sql k (rp_db st) = (Inr n, d)" using reliableD(4) [OF assms(1)] by blast
    have "n \<noteq> 0" using tb.delete_ok [OF d] delete_rows_count [of "tbl (rp_db st)" k] key Some
      by (auto simp: stored_as_def)
    then obtain st' where st': "repo_Delete env k st = (None, st')"
      using q d Some by (simp add: repo_Delete_def env)
    then show ?thesis using Delete_repr [OF assms(2) st'] by (simp add: done_result_def)
  qed
qed

lemma Get_refines:
  assumes "reliable sql sec" "repo_repr sec tbl M st"
  shows "\<exists>st'. repo_step env (OpGet k) st = (fst (spec_step (OpGet k) M), st') \<and>
    repo_repr sec tbl (snd (spec_step (OpGet k) M)) st'"
proof -
  obtain r where r: "db_row sql k (rp_db st) = Inr r" using reliableD(1) [OF assms(1)] by blast
  show ?thesis
    using Get_repr [OF repr_key [OF assms(2)] r] assms(2) by (auto simp: repo_repr_def split: option.split)
qed

lemma step_refines:
  assumes "reliable sql sec" "repo_repr sec tbl M st" "op_ok op"
  shows "\<exists>st'. repo_step env op st = (fst (spec_step op M), st') \<and> repo_repr sec tbl (snd (spec_step op M)) st'"
  using Create_refines [OF assms(1,2)] Update_refines [OF assms(1,2)] Delete_refines [OF assms(1,2)]
    Get_refines [OF assms(1,2)] assms(3)
  by (cases op) blast+

lemma run_refines:
  assumes "reliable sql sec" "repo_repr sec tbl M st" "\<forall>op \<in> set ops. op_ok op"
  shows "fst (repo_run env ops st) = fst (spec_run ops M) \<and>
    repo_repr sec tbl (snd (spec_run ops M)) (snd (repo_run env ops st))"
  using assms(2,3)
proof (induction ops arbitrary: M st)
  case (Cons op ops)
  obtain st' where s: "repo_step env op st = (fst (spec_step op M), st')" "repo_repr sec tbl (snd (spec_step op M)) st'"
    using step_refines [OF assms(1) Cons.prems(1), of op] Cons.prems(2) by auto
  show ?case
    using Cons.IH [OF s(2)] Cons.prems(2) s(1) by (simp add: split_beta)
qed simp

end

end
