(* ===== verification/Server_Manager.thy ===== *)
theory Server_Manager
  imports Server_Repository
begin

text \<open>
  The server manager (\<open>core/server/manager.go\<close>): management operations on profiles over the
  repository. Its state is the repository and the calls made to the logger; the latency tester
  is an optional function. The manager implements a small abstract machine on the map of
  profiles.
\<close>

section \<open>The manager\<close>

type_synonym LogCall = "LogLevel \<times> string \<times> string"

record ('d, 'k) ServerManager =
  sm_repo :: "('d, 'k) Repo"
  sm_logged :: "LogCall list"
  sm_latency :: "(ServerProfile \<Rightarrow> goerror + int) option"

definition manager_New :: "('d, 'k) Repo \<Rightarrow> ('d, 'k) ServerManager" where
  "manager_New repo = \<lparr>sm_repo = repo, sm_logged = [], sm_latency = None\<rparr>"

definition SetLatencyTester ::
  "(ServerProfile \<Rightarrow> goerror + int) option \<Rightarrow> ('d, 'k) ServerManager \<Rightarrow> ('d, 'k) ServerManager" where
  "SetLatencyTester t m = m\<lparr>sm_latency := t\<rparr>"

definition infof :: "string \<Rightarrow> ('d, 'k) ServerManager \<Rightarrow> ('d, 'k) ServerManager" where
  "infof msg m = m\<lparr>sm_logged := sm_logged m @ [(LevelInfo, ''server'', msg)]\<rparr>"

definition errLatencyUnavailable :: goerror where
  "errLatencyUnavailable = GoError ErrLatencyUnavailable ''server: latency testing unavailable''"

definition ListServersQuery ::
  "('d, 'k) RepoEnv \<Rightarrow> Query \<Rightarrow> ('d, 'k) ServerManager \<Rightarrow>
   (ServerProfile list \<times> goerror option) \<times> ('d, 'k) ServerManager" where
  "ListServersQuery env q m = (let (r, st) = repo_List env q (sm_repo m) in (r, m\<lparr>sm_repo := st\<rparr>))"

definition ListServers ::
  "('d, 'k) RepoEnv \<Rightarrow> ('d, 'k) ServerManager \<Rightarrow> ServerProfile list \<times> ('d, 'k) ServerManager" where
  "ListServers env m = (let (r, m') = ListServersQuery env zero_query m in (fst r, m'))"

definition GetServer ::
  "('d, 'k) RepoEnv \<Rightarrow> string \<Rightarrow> ('d, 'k) ServerManager \<Rightarrow> (goerror + ServerProfile) \<times> ('d, 'k) ServerManager" where
  "GetServer env sid m = (let (r, st) = repo_Get env sid (sm_repo m) in (r, m\<lparr>sm_repo := st\<rparr>))"

definition AddServer ::
  "('d, 'k) RepoEnv \<Rightarrow> byte list \<Rightarrow> gotime \<Rightarrow> gotime \<Rightarrow> ServerProfile \<Rightarrow> ('d, 'k) ServerManager \<Rightarrow>
   (goerror + string) \<times> ('d, 'k) ServerManager" where
  "AddServer env rnd nowC nowU p m =
     (case repo_Create env rnd nowC nowU p (sm_repo m) of
        (Inl e, st) \<Rightarrow> (Inl e, m\<lparr>sm_repo := st\<rparr>)
      | (Inr sid, st) \<Rightarrow>
          (Inr sid, infof (''added server '' @ Quote (sp_Name p) @ '' ('' @ sid @ '')'') (m\<lparr>sm_repo := st\<rparr>)))"

definition UpdateServer ::
  "('d, 'k) RepoEnv \<Rightarrow> gotime \<Rightarrow> ServerProfile \<Rightarrow> ('d, 'k) ServerManager \<Rightarrow>
   goerror option \<times> ('d, 'k) ServerManager" where
  "UpdateServer env now p m =
     (case repo_Update env now p (sm_repo m) of
        (Some e, st) \<Rightarrow> (Some e, m\<lparr>sm_repo := st\<rparr>)
      | (None, st) \<Rightarrow> (None, infof (''updated server '' @ Quote (sp_Name p)) (m\<lparr>sm_repo := st\<rparr>)))"

definition DeleteServer ::
  "('d, 'k) RepoEnv \<Rightarrow> string \<Rightarrow> ('d, 'k) ServerManager \<Rightarrow> goerror option \<times> ('d, 'k) ServerManager" where
  "DeleteServer env sid m =
     (case repo_Delete env sid (sm_repo m) of
        (Some e, st) \<Rightarrow> (Some e, m\<lparr>sm_repo := st\<rparr>)
      | (None, st) \<Rightarrow> (None, infof (''deleted server '' @ sid) (m\<lparr>sm_repo := st\<rparr>)))"

definition SetFavorite ::
  "('d, 'k) RepoEnv \<Rightarrow> gotime \<Rightarrow> string \<Rightarrow> bool \<Rightarrow> ('d, 'k) ServerManager \<Rightarrow>
   goerror option \<times> ('d, 'k) ServerManager" where
  "SetFavorite env now sid fav m =
     (case repo_Get env sid (sm_repo m) of
        (Inl e, st) \<Rightarrow> (Some e, m\<lparr>sm_repo := st\<rparr>)
      | (Inr p, st) \<Rightarrow>
          (let (r, st') = repo_Update env now (p\<lparr>sp_Favorite := fav\<rparr>) st in (r, m\<lparr>sm_repo := st'\<rparr>)))"

definition enabledStr :: "bool \<Rightarrow> string" where
  "enabledStr b = (if b then ''enabled'' else ''disabled'')"

definition SetEnabled ::
  "('d, 'k) RepoEnv \<Rightarrow> gotime \<Rightarrow> string \<Rightarrow> bool \<Rightarrow> ('d, 'k) ServerManager \<Rightarrow>
   goerror option \<times> ('d, 'k) ServerManager" where
  "SetEnabled env now sid en m =
     (case repo_Get env sid (sm_repo m) of
        (Inl e, st) \<Rightarrow> (Some e, m\<lparr>sm_repo := st\<rparr>)
      | (Inr p, st) \<Rightarrow>
          (case repo_Update env now (p\<lparr>sp_Enabled := en\<rparr>) st of
             (Some e, st') \<Rightarrow> (Some e, m\<lparr>sm_repo := st'\<rparr>)
           | (None, st') \<Rightarrow>
               (None, infof (enabledStr en @ '' server '' @ Quote (sp_Name p)) (m\<lparr>sm_repo := st'\<rparr>))))"

definition duplicate_of :: "ServerProfile \<Rightarrow> ServerProfile" where
  "duplicate_of src =
     src\<lparr>sp_ID := '''', sp_CreatedAt := 0, sp_UpdatedAt := 0, sp_Favorite := False, sp_LastLatencyMS := 0,
         sp_LastTestedAt := None, sp_Name := (if sp_Name src \<noteq> '''' then sp_Name src @ '' (copy)'' else sp_Name src)\<rparr>"

definition Duplicate ::
  "('d, 'k) RepoEnv \<Rightarrow> byte list \<Rightarrow> gotime \<Rightarrow> gotime \<Rightarrow> string \<Rightarrow> ('d, 'k) ServerManager \<Rightarrow>
   (goerror + string) \<times> ('d, 'k) ServerManager" where
  "Duplicate env rnd nowC nowU sid m =
     (case repo_Get env sid (sm_repo m) of
        (Inl e, st) \<Rightarrow> (Inl e, m\<lparr>sm_repo := st\<rparr>)
      | (Inr src, st) \<Rightarrow>
          (case repo_Create env rnd nowC nowU (duplicate_of src) st of
             (Inl e, st') \<Rightarrow> (Inl e, m\<lparr>sm_repo := st'\<rparr>)
           | (Inr dup, st') \<Rightarrow>
               (Inr dup, infof (''duplicated server '' @ Quote (sp_Name src) @ '' ('' @ sp_ID src @ '') -> '' @ dup)
                  (m\<lparr>sm_repo := st'\<rparr>))))"

definition TestLatency ::
  "('d, 'k) RepoEnv \<Rightarrow> gotime \<Rightarrow> gotime \<Rightarrow> string \<Rightarrow> ('d, 'k) ServerManager \<Rightarrow>
   (goerror + int) \<times> ('d, 'k) ServerManager" where
  "TestLatency env tested now sid m =
     (case repo_Get env sid (sm_repo m) of
        (Inl e, st) \<Rightarrow> (Inl e, m\<lparr>sm_repo := st\<rparr>)
      | (Inr p, st) \<Rightarrow>
          (case sm_latency m of
             None \<Rightarrow> (Inl errLatencyUnavailable, m\<lparr>sm_repo := st\<rparr>)
           | Some test \<Rightarrow>
               (case test p of
                  Inl e \<Rightarrow> (Inl e, m\<lparr>sm_repo := st\<rparr>)
                | Inr ms \<Rightarrow>
                    (case repo_Update env now (p\<lparr>sp_LastLatencyMS := ms, sp_LastTestedAt := Some tested\<rparr>) st of
                       (Some e, st') \<Rightarrow> (Inl e, m\<lparr>sm_repo := st'\<rparr>)
                     | (None, st') \<Rightarrow>
                         (Inr ms, infof (''latency '' @ sp_Name p @ '' = '' @ Itoa ms @ ''ms'') (m\<lparr>sm_repo := st'\<rparr>))))))"

section \<open>The abstract machine\<close>

datatype manager_op =
    MAdd "byte list" gotime gotime ServerProfile
  | MUpdate gotime ServerProfile
  | MDelete string
  | MGet string
  | MFavorite gotime string bool
  | MEnabled gotime string bool
  | MDuplicate "byte list" gotime gotime string
  | MLatency gotime gotime string

datatype manager_result = MID string | MProfile ServerProfile | MDone | MLat int | MError goerror

fun lift_result :: "repo_result \<Rightarrow> manager_result" where
  "lift_result (ResID k) = MID k"
| "lift_result (ResProfile p) = MProfile p"
| "lift_result ResDone = MDone"
| "lift_result (ResError e) = MError e"

type_synonym profiles = "string \<rightharpoonup> ServerProfile"

definition edit :: "string \<Rightarrow> gotime \<Rightarrow> (ServerProfile \<Rightarrow> ServerProfile) \<Rightarrow> profiles \<Rightarrow> profiles" where
  "edit k now f M =
     (case M k of None \<Rightarrow> M | Some p \<Rightarrow> M(k \<mapsto> updated now (f (stored_form p)) p))"

text \<open>The specification: adding, replacing, deleting and reading are the map's; the flags and the
  latency edit one profile and its update time; a copy goes under a new identifier.\<close>

fun manager_spec ::
  "(ServerProfile \<Rightarrow> goerror + int) option \<Rightarrow> manager_op \<Rightarrow> profiles \<Rightarrow> manager_result \<times> profiles" where
  "manager_spec lat (MAdd rnd nowC nowU p) M = map_prod lift_result id (spec_step (OpCreate rnd nowC nowU p) M)"
| "manager_spec lat (MUpdate now p) M = map_prod lift_result id (spec_step (OpUpdate now p) M)"
| "manager_spec lat (MDelete k) M = map_prod lift_result id (spec_step (OpDelete k) M)"
| "manager_spec lat (MGet k) M = map_prod lift_result id (spec_step (OpGet k) M)"
| "manager_spec lat (MFavorite now k b) M =
     (if M k = None then (MError errServerNotFound, M) else (MDone, edit k now (\<lambda>p. p\<lparr>sp_Favorite := b\<rparr>) M))"
| "manager_spec lat (MEnabled now k b) M =
     (if M k = None then (MError errServerNotFound, M) else (MDone, edit k now (\<lambda>p. p\<lparr>sp_Enabled := b\<rparr>) M))"
| "manager_spec lat (MDuplicate rnd nowC nowU k) M =
     (case M k of
        None \<Rightarrow> (MError errServerNotFound, M)
      | Some p \<Rightarrow> (MID (NewID rnd), M(NewID rnd \<mapsto> created rnd nowC nowU (duplicate_of (stored_form p)))))"
| "manager_spec lat (MLatency tested now k) M =
     (case M k of
        None \<Rightarrow> (MError errServerNotFound, M)
      | Some p \<Rightarrow>
          (case lat of
             None \<Rightarrow> (MError errLatencyUnavailable, M)
           | Some test \<Rightarrow>
               (case test (stored_form p) of
                  Inl e \<Rightarrow> (MError e, M)
                | Inr ms \<Rightarrow>
                    (MLat ms, edit k now (\<lambda>p. p\<lparr>sp_LastLatencyMS := ms, sp_LastTestedAt := Some tested\<rparr>) M))))"

definition err_result :: "goerror option \<times> 's \<Rightarrow> manager_result \<times> 's" where
  "err_result x = (case fst x of None \<Rightarrow> (MDone, snd x) | Some e \<Rightarrow> (MError e, snd x))"

definition sum_result :: "('a \<Rightarrow> manager_result) \<Rightarrow> (goerror + 'a) \<times> 's \<Rightarrow> manager_result \<times> 's" where
  "sum_result f x = (case fst x of Inl e \<Rightarrow> (MError e, snd x) | Inr a \<Rightarrow> (f a, snd x))"

fun manager_step ::
  "('d, 'k) RepoEnv \<Rightarrow> manager_op \<Rightarrow> ('d, 'k) ServerManager \<Rightarrow> manager_result \<times> ('d, 'k) ServerManager" where
  "manager_step env (MAdd rnd nowC nowU p) m = sum_result MID (AddServer env rnd nowC nowU p m)"
| "manager_step env (MUpdate now p) m = err_result (UpdateServer env now p m)"
| "manager_step env (MDelete k) m = err_result (DeleteServer env k m)"
| "manager_step env (MGet k) m = sum_result MProfile (GetServer env k m)"
| "manager_step env (MFavorite now k b) m = err_result (SetFavorite env now k b m)"
| "manager_step env (MEnabled now k b) m = err_result (SetEnabled env now k b m)"
| "manager_step env (MDuplicate rnd nowC nowU k) m = sum_result MID (Duplicate env rnd nowC nowU k m)"
| "manager_step env (MLatency tested now k) m = sum_result MLat (TestLatency env tested now k m)"

fun manager_run ::
  "('d, 'k) RepoEnv \<Rightarrow> manager_op list \<Rightarrow> ('d, 'k) ServerManager \<Rightarrow> manager_result list \<times> ('d, 'k) ServerManager" where
  "manager_run env [] m = ([], m)"
| "manager_run env (op # ops) m =
     (let (r, m') = manager_step env op m; (rs, m'') = manager_run env ops m' in (r # rs, m''))"

fun manager_spec_run ::
  "(ServerProfile \<Rightarrow> goerror + int) option \<Rightarrow> manager_op list \<Rightarrow> profiles \<Rightarrow> manager_result list \<times> profiles" where
  "manager_spec_run lat [] M = ([], M)"
| "manager_spec_run lat (op # ops) M =
     (let (r, M') = manager_spec lat op M; (rs, M'') = manager_spec_run lat ops M' in (r # rs, M''))"

fun manager_ok :: "manager_op \<Rightarrow> bool" where
  "manager_ok (MAdd rnd nowC nowU p) = op_ok (OpCreate rnd nowC nowU p)"
| "manager_ok (MUpdate now p) = op_ok (OpUpdate now p)"
| "manager_ok (MFavorite now k b) = time_ok now"
| "manager_ok (MEnabled now k b) = time_ok now"
| "manager_ok (MDuplicate rnd nowC nowU k) = (time_ok nowC \<and> time_ok nowU)"
| "manager_ok (MLatency tested now k) = (time_ok tested \<and> time_ok now)"
| "manager_ok _ = True"

section \<open>Stored profiles stay valid\<close>

definition valid_map :: "profiles \<Rightarrow> bool" where
  "valid_map M \<longleftrightarrow> (\<forall>k p. M k = Some p \<longrightarrow> Validate p = None)"

lemma valid_map_upd: "valid_map M \<Longrightarrow> Validate p = None \<Longrightarrow> valid_map (M(k \<mapsto> p))"
  by (auto simp: valid_map_def)

lemma valid_map_del: "valid_map M \<Longrightarrow> valid_map (M(k := None))"
  by (auto simp: valid_map_def)

lemma Validate_stored: "Validate p = None \<Longrightarrow> Validate (stored_form p) = None"
proof -
  have "sp_Name (stored_form p) = sp_Name p" "sp_Address (stored_form p) = sp_Address p" "sp_Port (stored_form p) = sp_Port p"
    "validate_credentials (stored_form p) = validate_credentials p"
    by (simp_all add: stored_form_def validate_credentials_def)
  moreover have "validate_transport (sp_Transport p) = None \<Longrightarrow> validate_transport (sp_Transport (stored_form p)) = None"
    by (cases "sp_Transport p") (simp_all add: stored_form_def validate_transport_def)
  moreover have "validate_reality (sp_Reality p) = None \<Longrightarrow> validate_reality (sp_Reality (stored_form p)) = None"
    by (cases "sp_Reality p") (simp_all add: stored_form_def validate_reality_def)
  ultimately show "Validate p = None \<Longrightarrow> ?thesis" by (simp add: Validate_None_iff)
qed

lemma Validate_created [simp]: "Validate (created rnd nowC nowU p) = Validate p"
  by (simp add: created_def)

lemma Validate_updated [simp]: "Validate (updated now p old) = Validate p"
  by (simp add: updated_def)

lemma trim_keeps_last:
  assumes "\<forall>p \<in> set ps. c \<notin> set p" "s \<noteq> []" "last s = c"
  shows "trim_left_with ps s \<noteq> [] \<and> last (trim_left_with ps s) = c"
  using assms
proof (induction ps s rule: trim_left_with.induct)
  case (1 ps s)
  show ?case
  proof (cases "find_drop ps s")
    case None
    then show ?thesis using "1.prems" trim_left_fixed [OF None] by simp
  next
    case (Some t)
    then obtain p where p: "p \<in> set ps" "s = p @ t" using find_drop_SomeD by blast
    then have t: "t \<noteq> [] \<and> last t = c"
      using "1.prems" by (metis append_Nil2 last_appendR last_in_set)
    show ?thesis
    proof (cases "length t < length s")
      case True
      then show ?thesis using "1.IH" [OF Some True] "1.prems"(1) t trim_left_with.simps [of ps s] Some by simp
    next
      case False
      then show ?thesis using "1.prems" Some trim_left_with.simps [of ps s] by simp
    qed
  qed
qed

lemma hd_trim_left: "\<forall>p \<in> set ps. p \<noteq> [] \<and> hd p \<noteq> c \<Longrightarrow> trim_left_with ps (c # s) = c # s"
  by (rule trim_left_fixed, rule find_drop_NoneI) (metis append_Cons hd_append2 list.sel(1))

lemma TrimSpace_copy: "TrimSpace (s @ '' (copy)'') \<noteq> []"
proof -
  let ?t = "trim_left_with space_runes (s @ '' (copy)'')"
  have "\<forall>p \<in> set space_runes. CHR '')'' \<notin> set p" by code_simp
  then have t: "?t \<noteq> [] \<and> last ?t = CHR '')''" by (intro trim_keeps_last) simp_all
  then obtain u where u: "rev ?t = CHR '')'' # u" by (metis hd_rev list.collapse rev_is_Nil_conv)
  have "\<forall>p \<in> set (map rev space_runes). p \<noteq> [] \<and> hd p \<noteq> CHR '')''" by code_simp
  from hd_trim_left [OF this] show ?thesis by (simp add: TrimSpace_def u)
qed

lemma Validate_duplicate:
  assumes "Validate p = None"
  shows "Validate (duplicate_of p) = None"
proof -
  have "sp_Name p \<noteq> []"
  proof
    assume "sp_Name p = []"
    moreover have "TrimSpace [] = []" by code_simp
    ultimately show False using assms by (simp add: Validate_None_iff)
  qed
  moreover have "validate_credentials (duplicate_of p) = validate_credentials p"
    by (simp add: duplicate_of_def validate_credentials_def)
  ultimately show ?thesis
    using assms TrimSpace_copy [of "sp_Name p"] by (simp add: Validate_None_iff) (simp add: duplicate_of_def)
qed

lemma spec_valid: "valid_map M \<Longrightarrow> valid_map (snd (spec_step op M))"
  by (cases op) (auto simp: valid_map_def Let_def split: option.splits if_splits)

lemma edit_valid:
  "valid_map M \<Longrightarrow> (\<And>q. Validate (f q) = Validate q) \<Longrightarrow> valid_map (edit k now f M)"
  by (auto simp: edit_def valid_map_def Validate_stored split: option.splits if_splits)

lemma manager_spec_valid:
  assumes "valid_map M"
  shows "valid_map (snd (manager_spec lat op M))"
proof (cases op)
  case (MDuplicate rnd nowC nowU k)
  then show ?thesis
    using assms by (auto split: option.split intro!: valid_map_upd Validate_duplicate Validate_stored simp: valid_map_def)
next
  case (MLatency tested now k)
  then show ?thesis
    using assms edit_valid [OF assms, of "\<lambda>p. p\<lparr>sp_LastLatencyMS := ms, sp_LastTestedAt := Some tested\<rparr>" k now for ms]
    by (auto split: option.split sum.split)
qed (use assms in \<open>simp_all add: spec_valid edit_valid del: spec_step.simps\<close>)

lemma stored_storable: "storable p \<Longrightarrow> storable (stored_form p)"
  by (auto simp: storable_def stored_form_def time_ok_whole split: option.splits)

lemma storable_edits:
  "storable (p\<lparr>sp_Favorite := b\<rparr>) = storable p" "storable (p\<lparr>sp_Enabled := b\<rparr>) = storable p"
  "storable p \<Longrightarrow> time_ok t \<Longrightarrow> storable (p\<lparr>sp_LastLatencyMS := ms, sp_LastTestedAt := Some t\<rparr>)"
  "storable p \<Longrightarrow> storable (duplicate_of p)"
  by (auto simp: storable_def duplicate_of_def time_ok_def days_before_year_def)

section \<open>Refinement\<close>

context repository
begin

lemma Get_known:
  assumes "reliable sql sec" "repo_repr sec tbl M st" "M k = Some p"
  shows "\<exists>st'. repo_Get env k st = (Inr (stored_form p), st') \<and> repo_repr sec tbl M st'"
proof -
  obtain st' where st': "repo_step env (OpGet k) st = (ResProfile (stored_form p), st')" "repo_repr sec tbl M st'"
    using Get_refines [OF assms(1,2), of k] assms(3) by auto
  then show ?thesis by (auto split: prod.splits sum.splits)
qed

lemma Get_unknown:
  assumes "reliable sql sec" "repo_repr sec tbl M st" "M k = None"
  shows "\<exists>st'. repo_Get env k st = (Inl errServerNotFound, st') \<and> repo_repr sec tbl M st'"
proof -
  obtain st' where "repo_step env (OpGet k) st = (ResError errServerNotFound, st')" "repo_repr sec tbl M st'"
    using Get_refines [OF assms(1,2), of k] assms(3) by auto
  then show ?thesis by (auto split: prod.splits sum.splits)
qed

lemma get_then_update:
  assumes "reliable sql sec" "repo_repr sec tbl M st" "valid_map M" "M k = Some p" "time_ok now"
    and f: "sp_ID (f (stored_form p)) = k" "Validate (f (stored_form p)) = None" "storable (f (stored_form p))"
  shows "\<exists>st1 st2. repo_Get env k st = (Inr (stored_form p), st1) \<and>
    repo_Update env now (f (stored_form p)) st1 = (None, st2) \<and> repo_repr sec tbl (edit k now f M) st2"
proof -
  obtain st1 where st1: "repo_Get env k st = (Inr (stored_form p), st1)" "repo_repr sec tbl M st1"
    using Get_known [OF assms(1,2,4)] by blast
  obtain st2 where st2: "repo_step env (OpUpdate now (f (stored_form p))) st1 =
      (fst (spec_step (OpUpdate now (f (stored_form p))) M), st2)"
    "repo_repr sec tbl (snd (spec_step (OpUpdate now (f (stored_form p))) M)) st2"
    using Update_refines [OF assms(1) st1(2), of now "f (stored_form p)"] assms(5) f(3) by auto
  then have "repo_Update env now (f (stored_form p)) st1 = (None, st2)"
    using f assms(4) by (auto simp: done_result_def prod_eq_iff split: option.splits)
  moreover have "repo_repr sec tbl (edit k now f M) st2"
    using st2(2) f(1,2) assms(4) by (simp add: edit_def)
  ultimately show ?thesis using st1(1) by blast
qed

lemma repr_storable: "repo_repr sec tbl M st \<Longrightarrow> M k = Some p \<Longrightarrow> storable p \<and> sp_ID p = k"
  using repr_key [of M st k] by (simp add: stored_as_def)

end

lemma infof_sel [simp]: "sm_repo (infof msg m) = sm_repo m" "sm_latency (infof msg m) = sm_latency m"
  by (simp_all add: infof_def)

text \<open>The four operations the repository also has do what it does, and log.\<close>

fun repo_part :: "manager_op \<Rightarrow> repo_op option" where
  "repo_part (MAdd rnd nowC nowU p) = Some (OpCreate rnd nowC nowU p)"
| "repo_part (MUpdate now p) = Some (OpUpdate now p)"
| "repo_part (MDelete k) = Some (OpDelete k)"
| "repo_part (MGet k) = Some (OpGet k)"
| "repo_part _ = None"

lemma repo_part_step:
  assumes "repo_part op = Some rop"
  shows "fst (manager_step env op m) = lift_result (fst (repo_step env rop (sm_repo m)))"
    and "sm_repo (snd (manager_step env op m)) = snd (repo_step env rop (sm_repo m))"
  using assms
  by (cases op; auto simp: AddServer_def UpdateServer_def DeleteServer_def GetServer_def sum_result_def err_result_def
    done_result_def split: prod.splits sum.splits option.splits)+

lemma repo_part_spec:
  "repo_part op = Some rop \<Longrightarrow> manager_spec lat op M = map_prod lift_result id (spec_step rop M) \<and> manager_ok op = op_ok rop"
  by (cases op) (auto simp del: spec_step.simps)

lemma manager_step_latency: "sm_latency (snd (manager_step env op m)) = sm_latency m"
  by (cases op)
    (auto simp: AddServer_def UpdateServer_def DeleteServer_def GetServer_def SetFavorite_def SetEnabled_def Duplicate_def
      TestLatency_def sum_result_def err_result_def split: prod.splits sum.splits option.splits)

lemma edit_none [simp]: "(M k = None) \<Longrightarrow> edit k now f M = M"
  by (simp add: edit_def)

context repository
begin

lemma manager_repo_refines:
  assumes "reliable sql sec" "repo_repr sec tbl M (sm_repo m)" "manager_ok op" "repo_part op = Some rop"
  shows "\<exists>m'. manager_step env op m = (fst (manager_spec lat op M), m') \<and>
    repo_repr sec tbl (snd (manager_spec lat op M)) (sm_repo m')"
proof -
  obtain st' where "repo_step env rop (sm_repo m) = (fst (spec_step rop M), st')" "repo_repr sec tbl (snd (spec_step rop M)) st'"
    using step_refines [OF assms(1,2)] assms(3) repo_part_spec [OF assms(4)] by blast
  then show ?thesis
    using repo_part_step [OF assms(4), of env m] repo_part_spec [OF assms(4), of lat M]
    by (intro exI [of _ "snd (manager_step env op m)"]) (simp add: prod_eq_iff)
qed

lemma edit_refines:
  assumes "reliable sql sec" "repo_repr sec tbl M (sm_repo m)" "valid_map M" "M k \<noteq> None" "time_ok now"
    and f: "\<And>q. sp_ID (f q) = sp_ID q" "\<And>q. Validate (f q) = Validate q" "\<And>q. storable q \<Longrightarrow> storable (f q)"
  obtains p st1 st2 where "M k = Some p" "repo_Get env k (sm_repo m) = (Inr (stored_form p), st1)"
    "repo_Update env now (f (stored_form p)) st1 = (None, st2)" "repo_repr sec tbl (edit k now f M) st2"
proof -
  obtain p where p: "M k = Some p" using assms(4) by blast
  have s: "storable p" "sp_ID p = k" using repr_storable [OF assms(2) p] by auto
  have "Validate (f (stored_form p)) = None" using assms(3) p f(2) by (simp add: valid_map_def Validate_stored)
  then show thesis
    using get_then_update [OF assms(1-3) p assms(5), of f] f(1,3) s stored_storable [OF s(1)] that [OF p] by auto
qed

lemma flag_refines:
  assumes "reliable sql sec" "repo_repr sec tbl M (sm_repo m)" "valid_map M" "manager_ok op"
    and op: "op = MFavorite now k b \<or> op = MEnabled now k b"
  shows "\<exists>m'. manager_step env op m = (fst (manager_spec lat op M), m') \<and>
    repo_repr sec tbl (snd (manager_spec lat op M)) (sm_repo m')"
proof (cases "M k = None")
  case True
  then obtain st' where "repo_Get env k (sm_repo m) = (Inl errServerNotFound, st')" "repo_repr sec tbl M st'"
    using Get_unknown [OF assms(1,2)] by blast
  then show ?thesis using op True by (auto simp: SetFavorite_def SetEnabled_def err_result_def)
next
  case False
  have now: "time_ok now" using assms(4) op by auto
  from op show ?thesis
  proof
    assume op: "op = MFavorite now k b"
    obtain p st1 st2 where "M k = Some p" "repo_Get env k (sm_repo m) = (Inr (stored_form p), st1)"
      "repo_Update env now ((stored_form p)\<lparr>sp_Favorite := b\<rparr>) st1 = (None, st2)"
      "repo_repr sec tbl (edit k now (\<lambda>p. p\<lparr>sp_Favorite := b\<rparr>) M) st2"
      using edit_refines [OF assms(1-3) False now, of "\<lambda>p. p\<lparr>sp_Favorite := b\<rparr>"] storable_edits(1) by auto
    then show ?thesis by (simp add: op SetFavorite_def err_result_def)
  next
    assume op: "op = MEnabled now k b"
    obtain p st1 st2 where "M k = Some p" "repo_Get env k (sm_repo m) = (Inr (stored_form p), st1)"
      "repo_Update env now ((stored_form p)\<lparr>sp_Enabled := b\<rparr>) st1 = (None, st2)"
      "repo_repr sec tbl (edit k now (\<lambda>p. p\<lparr>sp_Enabled := b\<rparr>) M) st2"
      using edit_refines [OF assms(1-3) False now, of "\<lambda>p. p\<lparr>sp_Enabled := b\<rparr>"] storable_edits(2) by auto
    then show ?thesis by (simp add: op SetEnabled_def err_result_def)
  qed
qed

lemma duplicate_refines:
  assumes "reliable sql sec" "repo_repr sec tbl M (sm_repo m)" "valid_map M" "manager_ok (MDuplicate rnd nowC nowU k)"
  shows "\<exists>m'. manager_step env (MDuplicate rnd nowC nowU k) m = (fst (manager_spec lat (MDuplicate rnd nowC nowU k) M), m') \<and>
    repo_repr sec tbl (snd (manager_spec lat (MDuplicate rnd nowC nowU k) M)) (sm_repo m')"
proof (cases "M k")
  case None
  then obtain st' where "repo_Get env k (sm_repo m) = (Inl errServerNotFound, st')" "repo_repr sec tbl M st'"
    using Get_unknown [OF assms(1,2)] by blast
  then show ?thesis using None by (simp add: Duplicate_def sum_result_def)
next
  case (Some p)
  let ?d = "duplicate_of (stored_form p)"
  obtain st1 where st1: "repo_Get env k (sm_repo m) = (Inr (stored_form p), st1)" "repo_repr sec tbl M st1"
    using Get_known [OF assms(1,2) Some] by blast
  have "storable ?d" using repr_storable [OF assms(2) Some] stored_storable storable_edits(4) by blast
  then obtain st2 where st2: "repo_step env (OpCreate rnd nowC nowU ?d) st1 = (fst (spec_step (OpCreate rnd nowC nowU ?d) M), st2)"
    "repo_repr sec tbl (snd (spec_step (OpCreate rnd nowC nowU ?d) M)) st2"
    using Create_refines [OF assms(1) st1(2), of rnd nowC nowU ?d] assms(4) by auto
  have v: "Validate ?d = None" using assms(3) Some by (simp add: valid_map_def Validate_duplicate Validate_stored)
  have i: "sp_ID (created rnd nowC nowU ?d) = NewID rnd" by (simp add: created_def duplicate_of_def)
  have "repo_Create env rnd nowC nowU ?d st1 = (Inr (NewID rnd), st2)"
    using st2(1) v i by (auto simp: Let_def split: prod.splits sum.splits)
  then show ?thesis using st1(1) st2(2) v i Some by (simp add: Duplicate_def sum_result_def Let_def)
qed

end

context repository
begin

lemma latency_refines:
  assumes "reliable sql sec" "repo_repr sec tbl M (sm_repo m)" "valid_map M" "manager_ok (MLatency tested now k)"
  shows "\<exists>m'. manager_step env (MLatency tested now k) m = (fst (manager_spec (sm_latency m) (MLatency tested now k) M), m') \<and>
    repo_repr sec tbl (snd (manager_spec (sm_latency m) (MLatency tested now k) M)) (sm_repo m')"
proof (cases "M k")
  case None
  then obtain st' where "repo_Get env k (sm_repo m) = (Inl errServerNotFound, st')" "repo_repr sec tbl M st'"
    using Get_unknown [OF assms(1,2)] by blast
  then show ?thesis using None by (simp add: TestLatency_def sum_result_def)
next
  case (Some p)
  obtain st1 where st1: "repo_Get env k (sm_repo m) = (Inr (stored_form p), st1)" "repo_repr sec tbl M st1"
    using Get_known [OF assms(1,2) Some] by blast
  consider "sm_latency m = None" | test e where "sm_latency m = Some test" "test (stored_form p) = Inl e"
    | test ms where "sm_latency m = Some test" "test (stored_form p) = Inr ms"
    by (metis option.exhaust sum.exhaust)
  then show ?thesis
  proof cases
    case 3
    let ?f = "\<lambda>p. p\<lparr>sp_LastLatencyMS := ms, sp_LastTestedAt := Some tested\<rparr>"
    obtain p' st1' st2 where "M k = Some p'" "repo_Get env k (sm_repo m) = (Inr (stored_form p'), st1')"
      "repo_Update env now (?f (stored_form p')) st1' = (None, st2)" "repo_repr sec tbl (edit k now ?f M) st2"
      using edit_refines [OF assms(1-3), of k now ?f] Some assms(4) storable_edits(3) by auto
    then show ?thesis using 3 Some by (simp add: TestLatency_def sum_result_def)
  qed (use st1 Some in \<open>simp_all add: TestLatency_def sum_result_def\<close>)
qed

lemma manager_step_refines:
  assumes "reliable sql sec" "repo_repr sec tbl M (sm_repo m)" "valid_map M" "manager_ok op"
  shows "\<exists>m'. manager_step env op m = (fst (manager_spec (sm_latency m) op M), m') \<and>
    repo_repr sec tbl (snd (manager_spec (sm_latency m) op M)) (sm_repo m')"
proof (cases "repo_part op")
  case (Some rop)
  then show ?thesis using manager_repo_refines [OF assms(1,2,4)] by blast
next
  case None
  then show ?thesis
    using flag_refines [OF assms, where lat = "sm_latency m"] duplicate_refines [OF assms(1-3)] latency_refines [OF assms(1-3)] assms(4)
    by (cases op) (simp_all del: manager_step.simps manager_spec.simps)
qed

lemma manager_run_refines:
  assumes "reliable sql sec" "repo_repr sec tbl M (sm_repo m)" "valid_map M" "list_all manager_ok ops"
  shows "fst (manager_run env ops m) = fst (manager_spec_run (sm_latency m) ops M)"
  using assms(2-4)
proof (induction ops arbitrary: M m)
  case (Cons op ops)
  let ?s = "manager_spec (sm_latency m) op M"
  obtain m' where m': "manager_step env op m = (fst ?s, m')" "repo_repr sec tbl (snd ?s) (sm_repo m')"
    using manager_step_refines [OF assms(1) Cons.prems(1,2), of op] Cons.prems(3) by auto
  have "sm_latency m' = sm_latency m" using manager_step_latency [of env op m] m'(1) by simp
  then show ?case
    using Cons.IH [OF m'(2) manager_spec_valid [OF Cons.prems(2)]] Cons.prems(3) m'(1)
    by (simp add: split_beta del: manager_step.simps manager_spec.simps)
qed simp

end

section \<open>Property\<close>


definition demo_profile :: ServerProfile where
  "demo_profile =
     zero_profile\<lparr>sp_ID := ''a'', sp_Name := ''home'', sp_Protocol := ProtocolSOCKS5, sp_Address := ''example.org'',
       sp_Port := 1080\<rparr>"

definition demo_calls :: "manager_op list" where
  "demo_calls = [MAdd [] 0 0 demo_profile, MFavorite 0 ''a'' True, MLatency 0 0 ''a'', MEnabled 0 ''b'' True, MGet ''a'']"

lemma demo_spec:
  "fst (manager_spec_run (Some (\<lambda>p. Inr 42)) demo_calls Map.empty) =
     [MID ''a'', MDone, MLat 42, MError errServerNotFound,
      MProfile (demo_profile\<lparr>sp_Favorite := True, sp_LastLatencyMS := 42, sp_LastTestedAt := Some 0\<rparr>)]"
proof -
  have "Validate demo_profile = None" by code_simp
  moreover have "created [] 0 0 demo_profile = demo_profile" "sp_ID demo_profile = ''a''"
    by (simp_all add: created_def demo_profile_def zero_profile_def)
  moreover have "stored_form demo_profile = demo_profile"
    by (simp add: stored_form_def demo_profile_def zero_profile_def whole_second_def)
  ultimately show ?thesis
    by (simp add: demo_calls_def edit_def updated_def)
      (simp add: demo_profile_def zero_profile_def stored_form_def whole_second_def)
qed


end
