(* ===== verification/Link_Roundtrip.thy ===== *)
theory Link_Roundtrip
  imports Share_Links Server_Manager
begin

text \<open>
  What share links guarantee: a link printed from a profile parses back to what a link carries
  of the profile, and every profile a parser accepts is valid.
\<close>

section \<open>Visible text is not trimmed\<close>

definition visible :: "char \<Rightarrow> bool" where
  "visible c \<longleftrightarrow> 33 \<le> (of_char c :: nat) \<and> of_char c \<le> (126 :: nat)"

lemma space_invisible: "\<forall>r \<in> set space_runes. r \<noteq> [] \<and> \<not> visible (hd r) \<and> \<not> visible (last r)"
  by code_simp

lemma trim_edges:
  assumes "s \<noteq> []" "visible (hd s)" "visible (last s)"
  shows "TrimSpace s = s"
proof -
  have h: "hd r \<noteq> hd s \<and> r \<noteq> []" if "r \<in> set space_runes" for r using space_invisible assms(2) that by auto
  have l: "hd r \<noteq> last s \<and> r \<noteq> []" if "r \<in> set (map rev space_runes)" for r
    using space_invisible assms(3) that by (auto simp: hd_rev)
  have "trim_left_with space_runes s = s"
    using hd_trim_left [of space_runes "hd s" "tl s"] h assms(1) by (metis list.collapse)
  moreover have "trim_left_with (map rev space_runes) (rev s) = rev s"
    using hd_trim_left [of "map rev space_runes" "last s" "rev (butlast s)"] l assms(1)
    by (metis append_butlast_last_id rev.simps(2) rev_rev_ident)
  ultimately show ?thesis by (simp add: TrimSpace_def)
qed

lemma trim_visible: "list_all visible s \<Longrightarrow> TrimSpace s = s"
proof (cases "s = []")
  case True
  have "TrimSpace [] = []" by code_simp
  with True show ?thesis by simp
next
  case False
  then show "list_all visible s \<Longrightarrow> ?thesis" by (intro trim_edges) (auto simp: list_all_iff)
qed

lemma alnum_visible: "alnum c \<Longrightarrow> visible c"
  by (auto simp: alnum_def visible_def Let_def)

lemma fragment_visible: "\<not> shouldEscape EncFragment c \<Longrightarrow> visible c"
proof -
  assume "\<not> shouldEscape EncFragment c"
  then have "alnum c \<or> c \<in> set ''-_.~'' \<or> c \<in> set ''$&+,/:;=?@'' \<or> c \<in> set ''!()*''"
    unfolding shouldEscape_def by (simp only: emode.distinct simp_thms split: if_splits)
  moreover have "list_all visible (''-_.~'' @ ''$&+,/:;=?@'' @ ''!()*'')" by code_simp
  ultimately show ?thesis using alnum_visible by (auto simp only: list_all_iff set_append Un_iff)
qed

lemma unreserved_visible: "unreserved c \<Longrightarrow> visible c"
  using fragment_visible unreserved_plain by blast

lemma last_escaped: "s \<noteq> [] \<Longrightarrow> escape EncFragment s \<noteq> [] \<and> visible (last (escape EncFragment s))"
proof -
  assume "s \<noteq> []"
  then obtain t c where s: "s = t @ [c]" by (metis append_butlast_last_id)
  have "escape_char EncFragment c \<noteq> [] \<and> visible (last (escape_char EncFragment c))"
    using fragment_visible [of c] alnum_visible [OF upper_hex_alnum [OF nibble_less(2)]] by (simp add: escape_char_def)
  then show ?thesis by (simp add: s escape_def)
qed

section \<open>The text of a link\<close>

lemma Itoa_digits: "0 \<le> i \<Longrightarrow> digits_only (Itoa i)"
proof -
  have "digits_only (nat_digits n)" for n
    by (induction n rule: nat_digits.induct, subst nat_digits.simps)
      (auto simp: digits_only_def digit_char_def)
  then show "0 \<le> i \<Longrightarrow> ?thesis" by (simp add: Itoa_def)
qed

lemma portOr_Itoa: "1 \<le> i \<Longrightarrow> i \<le> 65535 \<Longrightarrow> portOr (Itoa i) fb = i"
  using Atoi_Itoa [of i] by (simp add: portOr_def mustInt_def Itoa_def)

definition link_body :: "Userinfo option \<Rightarrow> string \<Rightarrow> string \<Rightarrow> string" where
  "link_body ui host q = printed_authority ui host @ (if q \<noteq> '''' then ''?'' @ q else '''')"

definition linkable_name :: "string \<Rightarrow> bool" where
  "linkable_name s \<longleftrightarrow> s \<noteq> [] \<and> TrimSpace s = s \<and> CHR ''+'' \<notin> set s"

lemma url_String_body:
  assumes "url_host ip_ok h" "0 \<le> port" "frag \<noteq> []"
  shows "url_String scheme \<lparr>url_User = ui, url_Host = JoinHostPort h (Itoa port), url_RawQuery = q\<rparr> frag =
    scheme @ ''://'' @ link_body ui (JoinHostPort h (Itoa port)) q @ ''#'' @ escape EncFragment frag"
proof -
  have "JoinHostPort h (Itoa port) \<noteq> []" by (simp add: JoinHostPort_def)
  then show ?thesis
    using join_escape [OF assms(1) Itoa_digits [OF assms(2)]] assms(3)
    by (simp add: url_String_def link_body_def printed_authority_def split: option.split)
qed

lemma splitFragment_body:
  assumes "url_host ip_ok h" "digits_only port" "query_text q" "linkable_name name"
  shows "splitFragment (link_body ui (JoinHostPort h port) q @ ''#'' @ escape EncFragment name) =
    (name, link_body ui (JoinHostPort h port) q)"
proof -
  have "CHR ''#'' \<notin> set (link_body ui (JoinHostPort h port) q)"
    using printed_chars [OF assms(1,2), of "CHR ''#''" ui] assms(3) query_not [of "CHR ''#''"]
    by (auto simp: link_body_def query_text_def list_all_iff)
  then show ?thesis
    using assms(4) unescape_query_fragment [of name] by (simp add: splitFragment_def linkable_name_def)
qed

lemma link_trim:
  assumes "scheme \<noteq> []" "visible (hd scheme)" "name \<noteq> []"
  shows "TrimSpace (scheme @ s @ escape EncFragment name) = scheme @ s @ escape EncFragment name"
proof (rule trim_edges)
  note e = last_escaped [OF assms(3)]
  show "visible (hd (scheme @ s @ escape EncFragment name))" using assms(2) hd_append2 [OF assms(1)] by metis
  have "last (scheme @ s @ escape EncFragment name) = last (escape EncFragment name)"
    using e by (simp only: last_appendR append_is_Nil_conv simp_thms)
  then show "visible (last (scheme @ s @ escape EncFragment name))" using e by (simp only:)
qed (use assms(1) in blast)

lemma join_visible:
  assumes "url_host ip_ok h" "digits_only port"
  shows "TrimSpace (JoinHostPort h port) = JoinHostPort h port"
proof -
  have "list_all visible '':[]''" by code_simp
  then have "visible c" if "c \<in> set (JoinHostPort h port)" for c
    using join_chars [OF assms that] unreserved_visible unfolding list_all_iff by blast
  then show ?thesis by (intro trim_visible) (simp add: list_all_iff)
qed

lemma host_visible:
  assumes "url_host ip_ok h"
  shows "TrimSpace h = h"
proof -
  have "visible (CHR '':'')" by code_simp
  moreover have "unreserved c \<or> c = CHR '':''" if "c \<in> set h" for c
    using assms that unfolding url_host_def plain_host_def literal_host_def list_all_iff by blast
  ultimately have "\<forall>c \<in> set h. visible c" using unreserved_visible by blast
  then show ?thesis by (intro trim_visible) (simp only: list_all_iff)
qed

section \<open>Queries of links\<close>

lemma Get_Set [simp]: "values_Get (values_Set k v q) k' = (if k = k' then v else values_Get q k')"
  by (simp add: values_Get_def values_Set_def update_conv')

lemma Get_Nil [simp]: "values_Get [] k = ''''"
  by (simp add: values_Get_def)

lemma distinct_Set [simp]: "distinct (map fst q) \<Longrightarrow> distinct (map fst (values_Set k v q))"
  by (simp add: values_Set_def distinct_update)

definition ws_part :: "ServerProfile \<Rightarrow> (TransportConfig \<Rightarrow> string) \<Rightarrow> string" where
  "ws_part p f = (case sp_Transport p of Some t \<Rightarrow> if tr_Type t = TransportWS then f t else '''' | None \<Rightarrow> '''')"


lemma set_if_simps [simp]: "set_if True k v q = values_Set k v q" "set_if False k v q = q"
  by (simp_all add: set_if_def)

lemma Get_set_if [simp]: "values_Get (set_if b k v q) k' = (if k = k' \<and> b then v else values_Get q k')"
  by (simp add: set_if_def)

lemma distinct_set_if [simp]: "distinct (map fst q) \<Longrightarrow> distinct (map fst (set_if b k v q))"
  by (simp add: set_if_def)

definition tls_values :: "TLSConfig \<Rightarrow> Values" where
  "tls_values t =
     set_if (tls_AllowInsecure t) ''allowInsecure'' ''1''
       (set_if (tls_Fingerprint t \<noteq> []) ''fp'' (tls_Fingerprint t)
         (set_if (tls_ALPN t \<noteq> []) ''alpn'' (join_with '','' (tls_ALPN t))
           (set_if (tls_ServerName t \<noteq> []) ''sni'' (tls_ServerName t)
             (values_Set ''security'' (if tls_Enabled t then ''tls'' else ''none'') []))))"

definition stream_values :: "ServerProfile \<Rightarrow> Values" where
  "stream_values p =
     set_if (sp_PacketEncoding p \<noteq> []) ''packetEncoding'' (sp_PacketEncoding p)
       (set_if (ws_part p tr_Host \<noteq> []) ''host'' (ws_part p tr_Host)
         (set_if (ws_part p tr_Path \<noteq> []) ''path'' (ws_part p tr_Path)
           (set_if (ws_part p (\<lambda>t. ''ws'') \<noteq> []) ''type'' ''ws'' (tls_values (sp_TLS p)))))"

lemma streamQuery_eq:
  "streamQuery p =
     (case sp_Transport p of
        Some tr \<Rightarrow> if tr_Type tr \<notin> {TransportTCP, TransportWS}
          then Inl (plain_error (''server: cannot export '' @ tr_Type tr @ '' transport as a share link''))
          else Inr (stream_values p)
      | None \<Rightarrow> Inr (stream_values p))"
proof -
  have tcp: "ws_part p f = ''''" if "sp_Transport p = None \<or> (\<exists>t. sp_Transport p = Some t \<and> tr_Type t = [])" for f
    using that by (auto simp: ws_part_def)
  show ?thesis
  proof (cases "sp_Transport p")
    case None
    then show ?thesis
      unfolding streamQuery_def Let_def stream_values_def tls_values_def by (simp add: tcp split del: if_split)
  next
    case (Some tr)
    consider "tr_Type tr = []" | "tr_Type tr = ''ws''" | "tr_Type tr \<notin> {[], ''ws''}" by auto
    then show ?thesis
    proof cases
      case 1
      with Some show ?thesis
        unfolding streamQuery_def Let_def stream_values_def tls_values_def by (simp add: tcp split del: if_split)
    next
      case 2
      with Some show ?thesis
        unfolding streamQuery_def Let_def stream_values_def tls_values_def
        by (simp add: ws_part_def split del: if_split)
    next
      case 3
      with Some show ?thesis
        unfolding streamQuery_def Let_def by (simp split del: if_split)
    qed
  qed
qed

lemma stream_distinct: "distinct (map fst (stream_values p))"
  by (simp add: stream_values_def tls_values_def)

lemma join_empty: "xs = [] \<Longrightarrow> join_with s xs = []"
  by simp

lemma stream_Get:
  "values_Get (stream_values p) ''security'' = (if tls_Enabled (sp_TLS p) then ''tls'' else ''none'')"
  "values_Get (stream_values p) ''sni'' = tls_ServerName (sp_TLS p)"
  "values_Get (stream_values p) ''alpn'' = join_with '','' (tls_ALPN (sp_TLS p))"
  "values_Get (stream_values p) ''fp'' = tls_Fingerprint (sp_TLS p)"
  "values_Get (stream_values p) ''allowInsecure'' = (if tls_AllowInsecure (sp_TLS p) then ''1'' else '''')"
  "values_Get (stream_values p) ''packetEncoding'' = sp_PacketEncoding p"
  "values_Get (stream_values p) ''type'' = ws_part p (\<lambda>t. ''ws'')"
  "values_Get (stream_values p) ''path'' = ws_part p tr_Path"
  "values_Get (stream_values p) ''host'' = ws_part p tr_Host"
  "values_Get (stream_values p) ''encryption'' = ''''" "values_Get (stream_values p) ''flow'' = ''''"
  "values_Get (stream_values p) ''global_padding'' = ''''" "values_Get (stream_values p) ''authenticated_length'' = ''''"
  by (simp_all add: stream_values_def tls_values_def) (auto simp: ws_part_def split: option.splits if_splits)

section \<open>What a link carries\<close>

definition canonical_tls :: "TLSConfig \<Rightarrow> bool" where
  "canonical_tls t \<longleftrightarrow>
     list_all (\<lambda>a. a \<noteq> '''' \<and> CHR '','' \<notin> set a \<and> TrimSpace a = a) (tls_ALPN t) \<and>
     TrimSpace (tls_ServerName t) = tls_ServerName t"

definition carried_tls :: "bool \<Rightarrow> string \<Rightarrow> TLSConfig \<Rightarrow> TLSConfig" where
  "carried_tls enabled host t =
     (if enabled then t\<lparr>tls_Enabled := True,
        tls_ServerName := (if tls_ServerName t = '''' then TrimSpace host else tls_ServerName t)\<rparr>
      else zero_TLS)"

definition carried_transport :: "TransportConfig option \<Rightarrow> TransportConfig option" where
  "carried_transport tr =
     (case tr of
        None \<Rightarrow> None
      | Some t \<Rightarrow> if tr_Type t = TransportTCP then None else Some (t\<lparr>tr_MaxEarlyData := 0, tr_EarlyDataHeaderName := ''''\<rparr>))"

lemma splitComma_join:
  assumes "list_all (\<lambda>a. a \<noteq> '''' \<and> CHR '','' \<notin> set a \<and> TrimSpace a = a) xs" "xs \<noteq> []"
  shows "splitComma (join_with '','' xs) = xs" "join_with '','' xs \<noteq> []"
proof -
  have "split_byte (CHR '','') (join_with '','' xs) = xs"
    using assms by (intro split_join) (auto simp: list_all_iff)
  moreover have "filter (\<lambda>p. p \<noteq> []) (map TrimSpace xs) = xs"
    using assms(1) by (induction xs) simp_all
  ultimately show "splitComma (join_with '','' xs) = xs" by (simp add: splitComma_def)
  show "join_with '','' xs \<noteq> []"
    using assms by (cases xs; cases "tl xs") auto
qed

lemma insecure_flag: "allowInsecure (if b then ''1'' else '''') = b"
proof -
  have "allowInsecure ''1''" "\<not> allowInsecure ''''" by code_simp+
  then show ?thesis by simp
qed

lemma flag_truthy: "truthy (if b then ''1'' else '''') = b"
  using insecure_flag by (simp add: allowInsecure_def)

lemma query_tls_carried:
  assumes "canonical_tls (sp_TLS p)"
    and g: "values_Get q ''sni'' = tls_ServerName (sp_TLS p)" "values_Get q ''alpn'' = join_with '','' (tls_ALPN (sp_TLS p))"
      "values_Get q ''fp'' = tls_Fingerprint (sp_TLS p)"
      "values_Get q ''allowInsecure'' = (if tls_AllowInsecure (sp_TLS p) then ''1'' else '''')"
  shows "query_tls enabled host q = carried_tls enabled host (sp_TLS p)"
proof -
  have a: "(if join_with '','' (tls_ALPN (sp_TLS p)) \<noteq> '''' then splitComma (join_with '','' (tls_ALPN (sp_TLS p))) else []) =
      tls_ALPN (sp_TLS p)"
    using splitComma_join [of "tls_ALPN (sp_TLS p)"] assms(1)
    by (cases "tls_ALPN (sp_TLS p) = []") (simp_all add: canonical_tls_def)
  show ?thesis
  proof (cases enabled)
    case True
    show ?thesis
      unfolding query_tls_def g insecure_flag tlsFromFields_def a
      using True assms(1) by (simp add: carried_tls_def canonical_tls_def Let_def)
  qed (simp add: query_tls_def tlsFromFields_def carried_tls_def)
qed

lemma query_transport_carried:
  assumes "validate_transport (sp_Transport p) = None"
    and g: "values_Get q ''type'' = ws_part p (\<lambda>t. ''ws'')" "values_Get q ''path'' = ws_part p tr_Path"
      "values_Get q ''host'' = ws_part p tr_Host"
  shows "query_transport q = Inr (carried_transport (sp_Transport p))"
proof -
  have e: "transportFromNetwork '''' '''' '''' = Inr None" by code_simp
  have w: "transportFromNetwork ''ws'' h pa =
      Inr (Some \<lparr>tr_Type = ''ws'', tr_Path = pa, tr_Host = h, tr_MaxEarlyData = 0, tr_EarlyDataHeaderName = ''''\<rparr>)" for h pa
  proof -
    have "ToLower (TrimSpace ''ws'') = ''ws''" by code_simp
    then show ?thesis by (simp add: transportFromNetwork_def)
  qed
  show ?thesis
    unfolding query_transport_def g
    using assms(1) e w by (auto simp: ws_part_def carried_transport_def validate_transport_def split: option.splits if_splits)
qed

definition linkable :: "LinkEnv \<Rightarrow> ServerProfile \<Rightarrow> bool" where
  "linkable env p \<longleftrightarrow>
     Validate p = None \<and> sp_Protocol p \<noteq> ProtocolSSH \<and> url_host (le_ip_ok env) (sp_Address p) \<and>
     linkable_name (sp_Name p) \<and> canonical_tls (sp_TLS p) \<and> TrimSpace (sp_Security p) = sp_Security p \<and>
     (sp_Protocol p = ProtocolShadowsocks \<longrightarrow> plain_host (sp_Address p) \<and> CHR '':'' \<notin> set (sp_Cipher p))"

definition carried_base :: "ServerProfile \<Rightarrow> ServerProfile" where
  "carried_base p =
     zero_profile\<lparr>sp_Name := sp_Name p, sp_Protocol := sp_Protocol p, sp_Address := sp_Address p, sp_Port := sp_Port p\<rparr>"

text \<open>The fields a link of each protocol carries. A VLESS or VMess link without a server name gets
  the host of its transport, a Trojan link its address; the authenticated-length option of VMess
  is printed and not read back.\<close>

definition carried :: "ServerProfile \<Rightarrow> ServerProfile" where
  "carried p =
     (let stream = (\<lambda>q. q\<lparr>sp_UUID := sp_UUID p, sp_Transport := carried_transport (sp_Transport p),
            sp_TLS := carried_tls (tls_Enabled (sp_TLS p)) (ws_part p tr_Host) (sp_TLS p),
            sp_PacketEncoding := sp_PacketEncoding p\<rparr>)
      in if sp_Protocol p = ProtocolVLESS then (stream (carried_base p))\<lparr>sp_Flow := sp_Flow p\<rparr>
         else if sp_Protocol p = ProtocolVMess then
           (stream (carried_base p))\<lparr>sp_Security := (if sp_Security p = '''' then ''auto'' else sp_Security p),
              sp_GlobalPadding := sp_GlobalPadding p\<rparr>
         else if sp_Protocol p = ProtocolShadowsocks then
           (carried_base p)\<lparr>sp_Cipher := sp_Cipher p, sp_Password := sp_Password p\<rparr>
         else if sp_Protocol p = ProtocolTrojan then
           (carried_base p)\<lparr>sp_Password := sp_Password p, sp_Transport := carried_transport (sp_Transport p),
              sp_TLS := carried_tls True (sp_Address p) (sp_TLS p)\<rparr>
         else (carried_base p)\<lparr>sp_Username := sp_Username p,
                sp_Password := (if sp_Username p = '''' then '''' else sp_Password p)\<rparr>)"

lemma carried_transport_valid: "validate_transport tr = None \<Longrightarrow> validate_transport (carried_transport tr) = None"
  by (auto simp: carried_transport_def validate_transport_def split: option.splits if_splits)

lemma base_sel [simp]:
  "sp_Name (carried_base p) = sp_Name p" "sp_Address (carried_base p) = sp_Address p" "sp_Port (carried_base p) = sp_Port p"
  "sp_Protocol (carried_base p) = sp_Protocol p" "sp_Transport (carried_base p) = None" "sp_Reality (carried_base p) = None"
  by (simp_all add: carried_base_def zero_profile_def)

lemma carried_sel [simp]:
  "sp_Name (carried p) = sp_Name p" "sp_Address (carried p) = sp_Address p" "sp_Port (carried p) = sp_Port p"
  "sp_Protocol (carried p) = sp_Protocol p" "sp_Reality (carried p) = None"
  by (simp_all add: carried_def Let_def)

lemma linkableD:
  assumes "linkable env p"
  shows "1 \<le> sp_Port p" "sp_Port p \<le> 65535" "TrimSpace (sp_Name p) = sp_Name p" "sp_Name p \<noteq> []"
    "TrimSpace (sp_Address p) = sp_Address p" "validate_transport (sp_Transport p) = None" "validate_credentials p = None"
    "url_host (le_ip_ok env) (sp_Address p)" "digits_only (Itoa (sp_Port p))" "linkable_name (sp_Name p)"
    "canonical_tls (sp_TLS p)" "TrimSpace (sp_Address p) \<noteq> []"
  using assms host_visible [of "le_ip_ok env" "sp_Address p"] Itoa_digits [of "sp_Port p"]
  by (simp_all add: linkable_def Validate_None_iff linkable_name_def)

lemma carried_valid:
  assumes "linkable env p"
  shows "Validate (carried p) = None"
proof -
  have r: "validate_reality None = None" "validate_transport None = None" by (simp_all add: validate_reality_def validate_transport_def)
  have t: "validate_transport (sp_Transport (carried p)) = None"
    using carried_transport_valid [OF linkableD(6) [OF assms]] r by (simp add: carried_def Let_def)
  have p: "sp_Protocol p \<in> set SupportedProtocols" "sp_Protocol p \<noteq> ''ssh''"
    using validate_credentials_protocol [OF linkableD(7) [OF assms]] assms by (simp_all add: linkable_def)
  have "validate_credentials (carried p) = None"
    using linkableD(7) [OF assms] p
    by (auto simp: SupportedProtocols_def validate_credentials_def carried_def Let_def split: if_splits)
  then show ?thesis using linkableD [OF assms] t r by (simp add: Validate_None_iff)
qed

lemma newProfile_carried:
  assumes "linkable env p"
    and "carried p = zero_profile\<lparr>sp_Name := sp_Name p, sp_Protocol := sp_Protocol p, sp_Address := sp_Address p,
            sp_Port := sp_Port p, sp_Username := sp_Username x, sp_Password := sp_Password x,
            sp_Cipher := sp_Cipher x, sp_UUID := sp_UUID x, sp_Flow := sp_Flow x,
            sp_Security := sp_Security x, sp_TLS := sp_TLS x, sp_Transport := sp_Transport x,
            sp_GlobalPadding := sp_GlobalPadding x, sp_PacketEncoding := sp_PacketEncoding x\<rparr>"
  shows "newProfile (sp_Protocol p) (sp_Name p) (sp_Address p) (sp_Port p) x = Inr (carried p)"
  using linkableD [OF assms(1)] carried_valid [OF assms(1)]
  by (simp add: newProfile_def assms(2) [symmetric] Let_def)

section \<open>Round trips\<close>

lemma link_facts:
  assumes "linkable env p"
  shows "query_text q \<Longrightarrow> splitFragment (link_body ui (hostPort p) q @ ''#'' @ escape EncFragment (sp_Name p)) =
      (sp_Name p, link_body ui (hostPort p) q)"
    and "query_text q \<Longrightarrow> parse_after_scheme (le_ip_ok env) (link_body ui (hostPort p) q) =
      Some \<lparr>url_User = ui, url_Host = hostPort p, url_RawQuery = q\<rparr>"
    and "TrimSpace (hostPort p) \<noteq> []" "Hostname \<lparr>url_User = ui, url_Host = hostPort p, url_RawQuery = q\<rparr> = sp_Address p"
    and "Port \<lparr>url_User = ui, url_Host = hostPort p, url_RawQuery = q\<rparr> = Itoa (sp_Port p)"
    and "portOr (Itoa (sp_Port p)) fb = sp_Port p"
proof -
  note d = linkableD [OF assms]
  show "query_text q \<Longrightarrow> splitFragment (link_body ui (hostPort p) q @ ''#'' @ escape EncFragment (sp_Name p)) =
      (sp_Name p, link_body ui (hostPort p) q)"
    unfolding hostPort_def by (rule splitFragment_body [OF d(8,9) _ d(10)])
  show "query_text q \<Longrightarrow> parse_after_scheme (le_ip_ok env) (link_body ui (hostPort p) q) =
      Some \<lparr>url_User = ui, url_Host = hostPort p, url_RawQuery = q\<rparr>"
    unfolding hostPort_def link_body_def by (rule parse_printed [OF d(8,9)])
  have "JoinHostPort (sp_Address p) (Itoa (sp_Port p)) \<noteq> []" by (simp add: JoinHostPort_def)
  then show "TrimSpace (hostPort p) \<noteq> []" unfolding hostPort_def join_visible [OF d(8,9)] .
  show "Hostname \<lparr>url_User = ui, url_Host = hostPort p, url_RawQuery = q\<rparr> = sp_Address p"
    "Port \<lparr>url_User = ui, url_Host = hostPort p, url_RawQuery = q\<rparr> = Itoa (sp_Port p)"
    unfolding Hostname_def Port_def hostPort_def by (simp_all add: split_join_host [OF d(8,9)])
  show "portOr (Itoa (sp_Port p)) fb = sp_Port p" using d(1,2) by (rule portOr_Itoa)
qed

lemma link_text:
  assumes "linkable env p" "scheme \<noteq> []" "visible (hd scheme)"
  shows "url_String scheme \<lparr>url_User = ui, url_Host = hostPort p, url_RawQuery = q\<rparr> (sp_Name p) =
      (scheme @ ''://'') @ link_body ui (hostPort p) q @ ''#'' @ escape EncFragment (sp_Name p)"
    and "TrimSpace ((scheme @ ''://'') @ link_body ui (hostPort p) q @ ''#'' @ escape EncFragment (sp_Name p)) =
      (scheme @ ''://'') @ link_body ui (hostPort p) q @ ''#'' @ escape EncFragment (sp_Name p)"
proof -
  note d = linkableD [OF assms(1)]
  show "url_String scheme \<lparr>url_User = ui, url_Host = hostPort p, url_RawQuery = q\<rparr> (sp_Name p) =
      (scheme @ ''://'') @ link_body ui (hostPort p) q @ ''#'' @ escape EncFragment (sp_Name p)"
    using url_String_body [OF d(8) _ d(4), of "sp_Port p" scheme ui q] d(1) by (simp add: hostPort_def)
  show "TrimSpace ((scheme @ ''://'') @ link_body ui (hostPort p) q @ ''#'' @ escape EncFragment (sp_Name p)) =
      (scheme @ ''://'') @ link_body ui (hostPort p) q @ ''#'' @ escape EncFragment (sp_Name p)"
    using link_trim [of scheme "sp_Name p" "''://'' @ link_body ui (hostPort p) q @ ''#''"] assms(2,3) d(4) by simp
qed

lemma not_prefix: "c \<noteq> d \<Longrightarrow> HasPrefix (c # s) (d # t) = False" "HasPrefix (c # s) (c # t) = HasPrefix s t"
  by (simp_all add: HasPrefix_def)

definition stream_like :: "Values \<Rightarrow> ServerProfile \<Rightarrow> bool" where
  "stream_like q p \<longleftrightarrow>
     (\<forall>k \<in> set [''security'', ''sni'', ''alpn'', ''fp'', ''allowInsecure'', ''packetEncoding'', ''type'', ''path'', ''host'']. 
        values_Get q k = values_Get (stream_values p) k)"

lemma stream_query:
  assumes "validate_transport (sp_Transport p) = None" "canonical_tls (sp_TLS p)" "stream_like q p"
  shows "query_transport q = Inr (carried_transport (sp_Transport p))"
    "query_tls en host q = carried_tls en host (sp_TLS p)"
    "(values_Get q ''security'' = ''tls'') = tls_Enabled (sp_TLS p)" "values_Get q ''security'' \<noteq> ''reality''"
    "values_Get q ''host'' = ws_part p tr_Host" "values_Get q ''packetEncoding'' = sp_PacketEncoding p"
proof -
  have g: "values_Get q k = values_Get (stream_values p) k"
    if "k \<in> set [''security'', ''sni'', ''alpn'', ''fp'', ''allowInsecure'', ''packetEncoding'', ''type'', ''path'', ''host'']" for k
    using assms(3) that unfolding stream_like_def by blast
  show "query_transport q = Inr (carried_transport (sp_Transport p))"
    by (rule query_transport_carried [OF assms(1)]) (simp_all add: g stream_Get)
  show "query_tls en host q = carried_tls en host (sp_TLS p)"
    by (rule query_tls_carried [OF assms(2)]) (simp_all add: g stream_Get)
  show "(values_Get q ''security'' = ''tls'') = tls_Enabled (sp_TLS p)" "values_Get q ''security'' \<noteq> ''reality''"
    "values_Get q ''host'' = ws_part p tr_Host" "values_Get q ''packetEncoding'' = sp_PacketEncoding p"
    by (simp_all add: g stream_Get)
qed

lemma streamQuery_valid: "validate_transport (sp_Transport p) = None \<Longrightarrow> streamQuery p = Inr (stream_values p)"
  by (auto simp: streamQuery_eq validate_transport_def split: option.splits if_splits)

lemma scheme_visible: "visible (CHR ''v'')" "visible (CHR ''t'')" "visible (CHR ''s'')" "visible (CHR ''h'')"
  by code_simp+

lemma vless_roundtrip:
  assumes "linkable env p" "sp_Protocol p = ProtocolVLESS"
  shows "\<exists>l. Link p = Inr l \<and> ParseLink env l = Inr (carried p)"
proof -
  note d = linkableD [OF assms(1)]
  let ?q = "set_if (sp_Flow p \<noteq> []) ''flow'' (sp_Flow p) (values_Set ''encryption'' ''none'' (stream_values p))"
  let ?ui = "Some (sp_UUID p, None) :: Userinfo option"
  let ?b = "link_body ?ui (hostPort p) (Encode ?q) @ ''#'' @ escape EncFragment (sp_Name p)"
  let ?l = "(''vless'' @ ''://'') @ ?b"
  note q = streamQuery_valid [OF d(6)]
  have lt: "Link p = Inr ?l" "TrimSpace ?l = ?l"
    using link_text [OF assms(1), of "''vless''" ?ui "Encode ?q"] assms(2) q scheme_visible by (simp_all add: Link_def linkVLESS_def)
  have get: "values_Get (ParseQuery (Encode ?q)) k = values_Get ?q k" for k
    by (intro Get_Encode distinct_set_if distinct_Set stream_distinct)
  have uuid: "TrimSpace (sp_UUID p) \<noteq> []" using d(7) assms(2) by (simp add: validate_credentials_def split: if_splits)
  have fl: "values_Get (ParseQuery (Encode ?q)) ''flow'' = sp_Flow p"
    "values_Get (ParseQuery (Encode ?q)) ''encryption'' = ''none''" by (simp_all add: get stream_Get)
  have "stream_like (ParseQuery (Encode ?q)) p" by (simp add: stream_like_def get)
  note str = stream_query [OF d(6,11) this]
  have "parseVLess env ?l = Inr (carried p)"
  proof -
    have pre: "TrimPrefix ?l ''vless://'' = ?b" using TrimPrefix_append [of "''vless://''" ?b] by simp
    let ?x = "zero_profile\<lparr>sp_UUID := sp_UUID p, sp_Flow := sp_Flow p, sp_Transport := carried_transport (sp_Transport p),
      sp_TLS := carried_tls (tls_Enabled (sp_TLS p)) (ws_part p tr_Host) (sp_TLS p), sp_PacketEncoding := sp_PacketEncoding p\<rparr>"
    have "newProfile (sp_Protocol p) (sp_Name p) (sp_Address p) (sp_Port p) ?x = Inr (carried p)"
      by (rule newProfile_carried [OF assms(1)]) (simp add: carried_def assms(2) carried_base_def zero_profile_def)
    then show ?thesis
      unfolding parseVLess_def pre link_facts(1) [OF assms(1) Encode_text] prod.case
        link_facts(2) [OF assms(1) Encode_text] option.case Let_def
      using uuid link_facts(3-6) [OF assms(1)] assms(2) str
      by (simp add: fl Username_def)
  qed
  then show ?thesis using lt by (simp add: ParseLink_def not_prefix) (simp add: HasPrefix_def)
qed

lemma vmess_roundtrip:
  assumes "linkable env p" "sp_Protocol p = ProtocolVMess"
  shows "\<exists>l. Link p = Inr l \<and> ParseLink env l = Inr (carried p)"
proof -
  note d = linkableD [OF assms(1)]
  let ?sec = "if sp_Security p = '''' then ''auto'' else sp_Security p"
  let ?q = "set_if (sp_AuthenticatedLength p) ''authenticated_length'' ''1''
    (set_if (sp_GlobalPadding p) ''global_padding'' ''1'' (values_Set ''encryption'' ?sec (stream_values p)))"
  let ?ui = "Some (sp_UUID p, None) :: Userinfo option"
  let ?b = "link_body ?ui (hostPort p) (Encode ?q) @ ''#'' @ escape EncFragment (sp_Name p)"
  let ?l = "(''vmess'' @ ''://'') @ ?b"
  have lt: "Link p = Inr ?l" "TrimSpace ?l = ?l"
    using link_text [OF assms(1), of "''vmess''" ?ui "Encode ?q"] assms(2) streamQuery_valid [OF d(6)] scheme_visible
    by (simp_all add: Link_def linkVMess_def Let_def split del: if_split)
  have get: "values_Get (ParseQuery (Encode ?q)) k = values_Get ?q k" for k
    by (intro Get_Encode distinct_set_if distinct_Set stream_distinct)
  have uuid: "TrimSpace (sp_UUID p) \<noteq> []" using d(7) assms(2) by (simp add: validate_credentials_def split: if_splits)
  have sec: "TrimSpace (values_Get (ParseQuery (Encode ?q)) ''encryption'') = ?sec" "?sec \<noteq> []"
  proof -
    have "TrimSpace ''auto'' = ''auto''" by code_simp
    then have "TrimSpace ?sec = ?sec" using assms(1) by (simp add: linkable_def)
    moreover have "values_Get (ParseQuery (Encode ?q)) ''encryption'' = ?sec" by (simp add: get split del: if_split)
    ultimately show "TrimSpace (values_Get (ParseQuery (Encode ?q)) ''encryption'') = ?sec" by (simp only:)
    show "?sec \<noteq> []" by simp
  qed
  have "values_Get (ParseQuery (Encode ?q)) ''global_padding'' = (if sp_GlobalPadding p then ''1'' else '''')"
    by (simp add: get stream_Get)
  then have gp: "boolQuery (ParseQuery (Encode ?q)) ''global_padding'' = sp_GlobalPadding p"
    by (simp only: boolQuery_def flag_truthy)
  have "stream_like (ParseQuery (Encode ?q)) p" by (simp add: stream_like_def get split del: if_split)
  note str = stream_query [OF d(6,11) this]
  have "parseVMessSIP002 env ?l = Inr (carried p)"
  proof -
    have pre: "TrimPrefix ?l ''vmess://'' = ?b" using TrimPrefix_append [of "''vmess://''" ?b] by simp
    let ?x = "zero_profile\<lparr>sp_UUID := sp_UUID p, sp_Security := ?sec, sp_Transport := carried_transport (sp_Transport p),
      sp_TLS := carried_tls (tls_Enabled (sp_TLS p)) (ws_part p tr_Host) (sp_TLS p), sp_GlobalPadding := sp_GlobalPadding p,
      sp_AuthenticatedLength := boolQuery (ParseQuery (Encode ?q)) ''authenticated_length'',
      sp_PacketEncoding := sp_PacketEncoding p\<rparr>"
    have "newProfile (sp_Protocol p) (sp_Name p) (sp_Address p) (sp_Port p) ?x = Inr (carried p)"
      by (rule newProfile_carried [OF assms(1)])
        (simp add: carried_def assms(2) carried_base_def zero_profile_def Let_def split del: if_split)
    then show ?thesis
      unfolding parseVMessSIP002_def pre link_facts(1) [OF assms(1) Encode_text] prod.case
        link_facts(2) [OF assms(1) Encode_text] option.case Let_def
      using uuid link_facts(3-6) [OF assms(1)] assms(2) str gp sec(2)
      by (simp add: sec(1) Username_def split del: if_split)
  qed
  moreover have "Contains ?b ''@''"
  proof -
    have "?b = userinfo_String (sp_UUID p, None) @ ''@'' @
        (hostPort p @ (if Encode ?q \<noteq> '''' then ''?'' @ Encode ?q else '''') @ ''#'' @ escape EncFragment (sp_Name p))"
      by (simp add: link_body_def printed_authority_def split del: if_split)
    then show ?thesis unfolding Contains_iff by blast
  qed
  ultimately have "parseVMess env ?l = Inr (carried p)"
    using TrimPrefix_append [of "''vmess://''" ?b] by (simp add: parseVMess_def split del: if_split)
  then show ?thesis using lt by (simp add: ParseLink_def HasPrefix_def split del: if_split)
qed

lemma trojan_roundtrip:
  assumes "linkable env p" "sp_Protocol p = ProtocolTrojan"
  shows "\<exists>l. Link p = Inr l \<and> ParseLink env l = Inr (carried p)"
proof -
  note d = linkableD [OF assms(1)]
  let ?q = "stream_values p"
  let ?ui = "Some (sp_Password p, Some '''') :: Userinfo option"
  let ?b = "link_body ?ui (hostPort p) (Encode ?q) @ ''#'' @ escape EncFragment (sp_Name p)"
  let ?l = "(''trojan'' @ ''://'') @ ?b"
  have lt: "Link p = Inr ?l" "TrimSpace ?l = ?l"
    using link_text [OF assms(1), of "''trojan''" ?ui "Encode ?q"] assms(2) streamQuery_valid [OF d(6)] scheme_visible
    by (simp_all add: Link_def linkTrojan_def)
  have get: "values_Get (ParseQuery (Encode ?q)) k = values_Get ?q k" for k
    by (intro Get_Encode stream_distinct)
  have pw: "sp_Password p \<noteq> []" using d(7) assms(2) by (simp add: validate_credentials_def split: if_splits)
  have "stream_like (ParseQuery (Encode ?q)) p" by (simp add: stream_like_def get)
  note str = stream_query [OF d(6,11) this]
  have "parseTrojan env ?l = Inr (carried p)"
  proof -
    have pre: "TrimPrefix ?l ''trojan://'' = ?b" using TrimPrefix_append [of "''trojan://''" ?b] by simp
    let ?x = "zero_profile\<lparr>sp_Password := sp_Password p, sp_Transport := carried_transport (sp_Transport p),
      sp_TLS := carried_tls True (sp_Address p) (sp_TLS p)\<rparr>"
    have "newProfile (sp_Protocol p) (sp_Name p) (sp_Address p) (sp_Port p) ?x = Inr (carried p)"
      by (rule newProfile_carried [OF assms(1)]) (simp add: carried_def assms(2) carried_base_def zero_profile_def)
    then show ?thesis
      unfolding parseTrojan_def pre link_facts(1) [OF assms(1) Encode_text] prod.case
        link_facts(2) [OF assms(1) Encode_text] option.case Let_def
      using pw link_facts(3-6) [OF assms(1)] assms(2) str by (simp add: Username_def)
  qed
  then show ?thesis using lt by (simp add: ParseLink_def HasPrefix_def)
qed

lemma userpass_roundtrip:
  assumes "linkable env p" "sp_Protocol p = ProtocolSOCKS5 \<or> sp_Protocol p = ProtocolHTTP"
  shows "\<exists>l. Link p = Inr l \<and> ParseLink env l = Inr (carried p)"
proof -
  note d = linkableD [OF assms(1)]
  let ?s = "if sp_Protocol p = ProtocolHTTP then ''http'' else ''socks5''"
  let ?ui = "if sp_Username p \<noteq> '''' then Some (sp_Username p, if sp_Password p \<noteq> '''' then Some (sp_Password p) else None) else None"
  let ?b = "link_body ?ui (hostPort p) '''' @ ''#'' @ escape EncFragment (sp_Name p)"
  let ?l = "(?s @ ''://'') @ ?b"
  have q: "query_text ''''" by (simp add: query_text_def)
  have s: "?s \<noteq> []" "visible (hd ?s)" using scheme_visible by auto
  have lt: "Link p = Inr ?l" "TrimSpace ?l = ?l"
    using link_text [OF assms(1) s, of ?ui "''''"] assms(2) by (auto simp: Link_def linkUserPass_def Let_def split del: if_split)
  have "parseUserPass env ?l (sp_Protocol p) = Inr (carried p)"
  proof -
    have pre: "TrimPrefix ?l (if sp_Protocol p = ProtocolHTTP then ''http://''
        else if HasPrefix ?l ''socks://'' then ''socks://'' else ''socks5://'') = ?b"
      using assms(2) TrimPrefix_append [of "''http://''" ?b] TrimPrefix_append [of "''socks5://''" ?b]
      by (auto simp: HasPrefix_def split del: if_split)
    let ?x = "zero_profile\<lparr>sp_Address := sp_Address p, sp_Username := Username ?ui,
      sp_Password := (case ?ui of Some (n, Some pw) \<Rightarrow> pw | _ \<Rightarrow> '''')\<rparr>"
    have "newProfile (sp_Protocol p) (sp_Name p) (sp_Address p) (sp_Port p) ?x = Inr (carried p)"
      using assms(2)
      by (intro newProfile_carried [OF assms(1)]) (auto simp: carried_def carried_base_def zero_profile_def Username_def)
    then show ?thesis
      unfolding parseUserPass_def Let_def pre link_facts(1) [OF assms(1) q] prod.case
        link_facts(2) [OF assms(1) q] option.case
      using link_facts(3-6) [OF assms(1)] by (simp split del: if_split)
  qed
  then show ?thesis using lt assms(2) by (auto simp: ParseLink_def HasPrefix_def split del: if_split)
qed

text \<open>A text in the URL alphabet decodes the same in every variant that accepts it.\<close>

definition url_digit :: "char \<Rightarrow> bool" where
  "url_digit c \<longleftrightarrow> b64_val RawURLEncoding c \<noteq> None"

lemma url_digit_val:
  assumes "url_digit c" "b64_val enc c = Some n"
  shows "b64_val RawURLEncoding c = Some n"
proof -
  have "CHR ''-'' \<noteq> CHR ''+''" "CHR ''_'' \<noteq> CHR ''/''" by simp_all
  then show ?thesis
    using assms unfolding url_digit_def b64_val_def Let_def by (auto split: if_splits)
qed

lemma quanta_url:
  "b64_quanta enc s = Some r \<Longrightarrow> list_all url_digit s \<Longrightarrow> b64_quanta RawURLEncoding s = Some r"
proof (induction enc s arbitrary: r rule: b64_quanta.induct)
  case (3 enc a b)
  then show ?case by (auto simp: final1_def url_digit_val split: option.splits if_splits)
next
  case (4 enc a b c)
  then show ?case by (auto simp: final2_def url_digit_val split: option.splits if_splits)
next
  case (5 enc a b c e rest)
  have "\<not> url_digit (CHR ''='')" by (simp add: url_digit_def)
  then have ne: "e \<noteq> CHR ''=''" using "5.prems"(2) by auto
  obtain q t where q: "full3 enc a b c e = Some q" "b64_quanta enc rest = Some t" "r = q @ t"
    using "5.prems"(1) ne by (auto split: option.splits if_splits)
  have "full3 RawURLEncoding a b c e = Some q"
    using q(1) "5.prems"(2) by (auto simp: full3_def url_digit_val split: option.splits)
  moreover have "b64_quanta RawURLEncoding rest = Some t" using "5.IH" q(1,2) "5.prems"(2) ne by auto
  ultimately show ?case using q(3) by simp
qed auto

lemma encode_digits: "list_all url_digit (b64_encode RawURLEncoding s)"
proof -
  have "url_digit (b64_char RawURLEncoding n)" if "n < 64" for n using b64_val_char [OF that] by (simp add: url_digit_def)
  then show ?thesis
    by (induction RawURLEncoding s rule: b64_encode.induct) (simp_all add: byte_digits b64_padding_def)
qed

lemma url_digit_unreserved: "url_digit c \<Longrightarrow> unreserved c"
  by (auto simp: url_digit_def b64_val_def unreserved_def alnum_def Let_def split: if_splits)

lemma decode_encoded: "decodeBase64 (b64_encode RawURLEncoding s) = Inr s"
proof -
  let ?t = "b64_encode RawURLEncoding s"
  have "list_all visible ?t" using encode_digits url_digit_unreserved unreserved_visible by (auto simp: list_all_iff)
  then have t: "TrimSpace ?t = ?t" by (rule trim_visible)
  have "b64_decode enc ?t = Some r \<Longrightarrow> r = s" for enc r
    using quanta_url [of enc ?t r] encode_digits [of s] b64_roundtrip [of RawURLEncoding s]
    by (simp add: b64_decode_def b64_encode_clean)
  then show ?thesis
    using b64_roundtrip [of RawURLEncoding s] by (auto simp: decodeBase64_def t split: option.splits)
qed

lemma parsePort_Itoa: "1 \<le> i \<Longrightarrow> i \<le> 65535 \<Longrightarrow> parsePort (Itoa i) = Inr i"
proof -
  assume i: "1 \<le> i" "i \<le> 65535"
  have "list_all visible (Itoa i)"
    using Itoa_digits [of i] i(1) digits_only_unreserved unreserved_visible by (auto simp: list_all_iff)
  then have "TrimSpace (Itoa i) = Itoa i" by (rule trim_visible)
  then show ?thesis using Atoi_Itoa [of i] i by (simp add: parsePort_def Itoa_def)
qed

lemma ss_roundtrip:
  assumes "linkable env p" "sp_Protocol p = ProtocolShadowsocks"
  shows "\<exists>l. Link p = Inr l \<and> ParseLink env l = Inr (carried p)"
proof -
  note d = linkableD [OF assms(1)]
  let ?u = "b64_encode RawURLEncoding (sp_Cipher p @ CHR '':'' # sp_Password p)"
  let ?ui = "Some (?u, None) :: Userinfo option"
  let ?b = "link_body ?ui (hostPort p) '''' @ ''#'' @ escape EncFragment (sp_Name p)"
  let ?l = "(''ss'' @ ''://'') @ ?b"
  have h: "plain_host (sp_Address p)" "CHR '':'' \<notin> set (sp_Cipher p)" using assms by (auto simp: linkable_def)
  have mp: "sp_Cipher p \<noteq> []" "sp_Password p \<noteq> []" using d(7) assms(2) by (auto simp: validate_credentials_def split: if_splits)
  have q: "query_text ''''" by (simp add: query_text_def)
  have lt: "Link p = Inr ?l" "TrimSpace ?l = ?l"
    using link_text [OF assms(1), of "''ss''" ?ui "''''"] assms(2) scheme_visible by (simp_all add: Link_def linkShadowsocks_def)
  have un: "unreserved c" if "c \<in> set ?u" for c
    using that encode_digits [of "sp_Cipher p @ CHR '':'' # sp_Password p"] url_digit_unreserved by (auto simp: list_all_iff)
  have e: "escape EncUserPassword ?u = ?u" by (rule escape_id) (use un unreserved_plain not_unreserved in blast)+
  have hp: "hostPort p = sp_Address p @ CHR '':'' # Itoa (sp_Port p)" unfolding hostPort_def by (rule plain_join [OF h(1)])
  have body: "link_body ?ui (hostPort p) '''' = ?u @ CHR ''@'' # hostPort p"
    by (simp add: link_body_def printed_authority_def userinfo_String_def e)
  have hc: "unreserved c \<or> c = CHR '':''" if "c \<in> set (hostPort p)" for c
    using that h(1) digits_only_unreserved [OF d(9)] by (auto simp: hp plain_host_def list_all_iff)
  have at: "CHR ''@'' \<notin> set (hostPort p)" "CHR ''?'' \<notin> set (?u @ CHR ''@'' # hostPort p)"
    using hc [of "CHR ''@''"] hc [of "CHR ''?''"] un [of "CHR ''?''"] not_unreserved by auto
  have c: "CHR '':'' \<notin> set (sp_Address p)" using h(1) not_unreserved by (auto simp: plain_host_def list_all_iff)
  have "parseShadowsocks ?l = Inr (carried p)"
  proof -
    have pre: "TrimPrefix ?l ''ss://'' = ?b" using TrimPrefix_append [of "''ss://''" ?b] by simp
    have sf: "splitFragment (TrimPrefix ?l ''ss://'') = (sp_Name p, ?u @ CHR ''@'' # hostPort p)"
      by (rule trans [OF arg_cong [OF pre, of splitFragment] trans [OF link_facts(1) [OF assms(1) q]]]) (simp only: body)
    have cq: "cut_query (?u @ CHR ''@'' # hostPort p) = (?u @ CHR ''@'' # hostPort p, '''')"
      unfolding cut_query_def cut_absent(1) [OF at(2)] by simp
    have sp: "split_pair (sp_Cipher p @ CHR '':'' # sp_Password p) = Some (sp_Cipher p, sp_Password p)"
      using h(2) mp by (simp add: split_pair_def)
    have "newProfile (sp_Protocol p) (sp_Name p) (sp_Address p) (sp_Port p)
        (zero_profile\<lparr>sp_Cipher := sp_Cipher p, sp_Password := sp_Password p\<rparr>) = Inr (carried p)"
      by (rule newProfile_carried [OF assms(1)]) (simp add: carried_def assms(2) carried_base_def zero_profile_def)
    moreover have "\<not> Contains '''' ''plugin=''" by code_simp
    ultimately show ?thesis
      unfolding parseShadowsocks_def sf prod.case Let_def cq
      using at(1) c parsePort_Itoa [OF d(1,2)] assms(2)
      by (simp add: decode_encoded hp sp ss_profile_def del: b64_encode.simps)
  qed
  then show ?thesis using lt by (simp add: ParseLink_def HasPrefix_def)
qed

section \<open>Properties\<close>


definition demo_env :: LinkEnv where
  "demo_env = \<lparr>le_ip_ok = (\<lambda>s. s = ''::1''), le_float = (\<lambda>s. None)\<rparr>"

definition demo_vless :: ServerProfile where
  "demo_vless =
     zero_profile\<lparr>sp_Name := ''home 1'', sp_Protocol := ProtocolVLESS, sp_Address := ''::1'', sp_Port := 443, sp_UUID := ''u@1'',
       sp_TLS := \<lparr>tls_Enabled = True, tls_AllowInsecure = False, tls_ServerName = '''', tls_ALPN = [''h2'', ''http/1.1''],
         tls_Fingerprint = ''chrome''\<rparr>,
       sp_Transport := Some \<lparr>tr_Type = TransportWS, tr_Path = ''/a?b'', tr_Host = ''cdn'', tr_MaxEarlyData = 0,
         tr_EarlyDataHeaderName = ''''\<rparr>\<rparr>"

lemma demo_linkable: "linkable demo_env demo_vless" by code_simp


lemma newProfile_valid: "newProfile protocol name a port x = Inr p \<Longrightarrow> Validate p = None \<and> sp_Protocol p = protocol"
  by (auto simp: newProfile_def Let_def split: option.splits if_splits)

lemma newProfile_error: "newProfile protocol name a port x = Inl e \<Longrightarrow> err_is e = ErrValidation"
  by (auto simp: newProfile_def Let_def split: option.splits if_splits dest: Validate_is)

end
