(* ===== verification/Server_Exchange.thy ===== *)
theory Server_Exchange
  imports Profile_JSON Link_Roundtrip
begin

text \<open>
  Import and export of server profiles (\<open>core/server/exchange.go\<close>, \<open>ParseImportData\<close> of
  \<open>links.go\<close>, \<open>ExportLinks\<close> of \<open>linkgen.go\<close>): the JSON envelope, multi-line link payloads, and
  the manager's operations over them. The identifiers and times a created profile gets come from
  a stream of inputs, one entry per profile. Error texts leave out the wording library errors
  append.
\<close>

section \<open>Envelopes\<close>

record Envelope =
  ev_Format :: string
  ev_Version :: int
  ev_Server :: "ServerProfile option"

definition zero_envelope :: Envelope where
  "zero_envelope = \<lparr>ev_Format = '''', ev_Version = 0, ev_Server = None\<rparr>"

abbreviation (input) EnvelopeFormat :: string where "EnvelopeFormat \<equiv> ''onnproxy''"
abbreviation (input) EnvelopeVersion :: int where "EnvelopeVersion \<equiv> 1"

definition envelope_field :: "string \<Rightarrow> json \<Rightarrow> Envelope \<Rightarrow> Envelope option" where
  "envelope_field k v e =
     (if k = ''format'' then into_string (\<lambda>x. ev_Format_update (\<lambda>_. x)) v e
      else if k = ''version'' then into_int (\<lambda>x. ev_Version_update (\<lambda>_. x)) v e
      else if k = ''server'' then into_pointer zero_profile into_profile ev_Server (\<lambda>x. ev_Server_update (\<lambda>_. x)) v e
      else Some e)"

definition envelope_json :: "Envelope \<Rightarrow> json" where
  "envelope_json e =
     JObject ([(''format'', JString (ev_Format e)), (''version'', JInt (ev_Version e))] @
       opt_pointer ''server'' profile_json (ev_Server e))"

definition json_envelope :: "json \<Rightarrow> Envelope option" where
  "json_envelope v = into_object envelope_field v zero_envelope"

fun json_envelopes :: "json list \<Rightarrow> Envelope list option" where
  "json_envelopes [] = Some []"
| "json_envelopes (j # js) =
     (case json_envelope j of None \<Rightarrow> None | Some e \<Rightarrow> map_option ((#) e) (json_envelopes js))"

definition validateEnvelope :: "Envelope \<Rightarrow> goerror option" where
  "validateEnvelope e =
     (if ev_Format e \<noteq> EnvelopeFormat then Some (plain_error (''unsupported format '' @ Quote (ev_Format e)))
      else if ev_Version e \<noteq> EnvelopeVersion then Some (plain_error (''unsupported version '' @ Itoa (ev_Version e)))
      else None)"

fun envelopes_loop :: "nat \<Rightarrow> Envelope list \<Rightarrow> ServerProfile list \<Rightarrow> goerror + ServerProfile list" where
  "envelopes_loop i [] out = Inr out"
| "envelopes_loop i (e # es) out =
     (case validateEnvelope e of
        Some err \<Rightarrow> Inl (wrap (''envelope '' @ Itoa (int i) @ '': '') err)
      | None \<Rightarrow>
          (case ev_Server e of
             None \<Rightarrow> Inl (plain_error (''envelope '' @ Itoa (int i) @ '': missing server''))
           | Some s \<Rightarrow> envelopes_loop (Suc i) es (out @ [s])))"

definition ParseEnvelopes :: "string \<Rightarrow> goerror + ServerProfile list" where
  "ParseEnvelopes data =
     (let t = TrimSpace data
      in if t = '''' then Inl (plain_error ''import data is empty'')
         else if hd t = CHR ''['' then
           (case (case json_parse t of
                    Some JNull \<Rightarrow> Some [] | Some (JArray js) \<Rightarrow> json_envelopes js | _ \<Rightarrow> None) of
              None \<Rightarrow> Inl (plain_error ''invalid onnproxy blob'')
            | Some es \<Rightarrow> envelopes_loop 0 es [])
         else
           (case (case json_parse t of None \<Rightarrow> None | Some j \<Rightarrow> json_envelope j) of
              None \<Rightarrow> Inl (plain_error ''invalid onnproxy blob'')
            | Some e \<Rightarrow>
                (case validateEnvelope e of
                   Some err \<Rightarrow> Inl err
                 | None \<Rightarrow>
                     (case ev_Server e of
                        None \<Rightarrow> Inl (plain_error ''envelope: missing server'')
                      | Some s \<Rightarrow> Inr [s]))))"

section \<open>Import data\<close>

record ImportError =
  ie_Index :: nat
  ie_Message :: string

fun lines_loop ::
  "LinkEnv \<Rightarrow> nat \<Rightarrow> string list \<Rightarrow> ServerProfile list \<Rightarrow> ImportError list \<Rightarrow> ServerProfile list \<times> ImportError list" where
  "lines_loop env i [] ps errs = (ps, errs)"
| "lines_loop env i (l # ls) ps errs =
     (let line = TrimSpace l
      in if line = '''' then lines_loop env (Suc i) ls ps errs
         else (case (if hd line = CHR ''{'' then ParseEnvelopes line
                     else case ParseLink env line of Inl e \<Rightarrow> Inl e | Inr p \<Rightarrow> Inr [p]) of
                 Inl e \<Rightarrow> lines_loop env (Suc i) ls ps (errs @ [\<lparr>ie_Index = i, ie_Message = err_text e\<rparr>])
               | Inr qs \<Rightarrow> lines_loop env (Suc i) ls (ps @ qs) errs))"

definition ParseImportData :: "LinkEnv \<Rightarrow> string \<Rightarrow> ServerProfile list \<times> ImportError list" where
  "ParseImportData env data =
     (let t = TrimSpace data
      in if t = '''' then ([], [\<lparr>ie_Index = 0, ie_Message = ''import data is empty''\<rparr>])
         else if hd t = CHR ''{'' \<or> hd t = CHR ''['' then
           (case ParseEnvelopes t of
              Inl e \<Rightarrow> ([], [\<lparr>ie_Index = 0, ie_Message = err_text e\<rparr>])
            | Inr ps \<Rightarrow> (ps, []))
         else lines_loop env 0 (split_byte (CHR 0x0A) t) [] [])"

section \<open>The manager's operations\<close>

definition imported :: "ServerProfile \<Rightarrow> ServerProfile" where
  "imported p =
     p\<lparr>sp_ID := '''', sp_CreatedAt := 0, sp_UpdatedAt := 0, sp_LastLatencyMS := 0, sp_LastTestedAt := None,
       sp_Enabled := True\<rparr>"

type_synonym fresh = "nat \<Rightarrow> byte list \<times> gotime \<times> gotime"

fun import_loop ::
  "('d, 'k) RepoEnv \<Rightarrow> fresh \<Rightarrow> nat \<Rightarrow> ServerProfile list \<Rightarrow> nat \<times> nat \<times> ImportError list \<Rightarrow> ('d, 'k) Repo \<Rightarrow>
   (nat \<times> nat \<times> ImportError list) \<times> ('d, 'k) Repo" where
  "import_loop env fr i [] acc st = (acc, st)"
| "import_loop env fr i (p # ps) (added, failed, errs) st =
     (case repo_Create env (fst (fr i)) (fst (snd (fr i))) (snd (snd (fr i))) (imported p) st of
        (Inl e, st') \<Rightarrow>
          import_loop env fr (Suc i) ps (added, Suc failed, errs @ [\<lparr>ie_Index = i, ie_Message = err_text e\<rparr>]) st'
      | (Inr sid, st') \<Rightarrow> import_loop env fr (Suc i) ps (Suc added, failed, errs) st')"

definition ImportServers ::
  "LinkEnv \<Rightarrow> ('d, 'k) RepoEnv \<Rightarrow> fresh \<Rightarrow> string \<Rightarrow> ('d, 'k) ServerManager \<Rightarrow>
   (nat \<times> nat \<times> ImportError list) \<times> ('d, 'k) ServerManager" where
  "ImportServers lenv env fr data m =
     (let (ps, errs) = ParseImportData lenv data;
          (res, st) = import_loop env fr 0 ps (0, length errs, errs) (sm_repo m)
      in (res, m\<lparr>sm_repo := st\<rparr>))"

definition selected :: "string list \<Rightarrow> ServerProfile list \<Rightarrow> ServerProfile list" where
  "selected ids servers = (if ids \<noteq> [] then filter (\<lambda>s. sp_ID s \<in> set ids) servers else servers)"

definition envelope_of :: "ServerProfile \<Rightarrow> Envelope" where
  "envelope_of s = \<lparr>ev_Format = EnvelopeFormat, ev_Version = EnvelopeVersion, ev_Server = Some s\<rparr>"

definition marshal_envelopes :: "ServerProfile list \<Rightarrow> goerror + string" where
  "marshal_envelopes servers =
     (if \<not> list_all marshalable servers then Inl (plain_error ''json: error calling MarshalJSON for type time.Time'')
      else case servers of
             [s] \<Rightarrow> Inr (json_print (envelope_json (envelope_of s)))
           | _ \<Rightarrow> Inr (json_print (JArray (map (\<lambda>s. envelope_json (envelope_of s)) servers))))"

definition errNothingToExport :: goerror where
  "errNothingToExport = plain_error ''server: nothing to export''"

definition ExportServers ::
  "('d, 'k) RepoEnv \<Rightarrow> string list \<Rightarrow> ('d, 'k) ServerManager \<Rightarrow> (goerror + string) \<times> ('d, 'k) ServerManager" where
  "ExportServers env ids m =
     (case repo_List env zero_query (sm_repo m) of
        ((servers, Some e), st) \<Rightarrow> (Inl e, m\<lparr>sm_repo := st\<rparr>)
      | ((servers, None), st) \<Rightarrow>
          (let sel = selected ids servers
           in (if sel = [] then Inl errNothingToExport else marshal_envelopes sel, m\<lparr>sm_repo := st\<rparr>)))"

fun links_loop :: "ServerProfile list \<Rightarrow> string list \<Rightarrow> goerror + string list" where
  "links_loop [] out = Inr out"
| "links_loop (s # ss) out = (case Link s of Inl e \<Rightarrow> Inl e | Inr l \<Rightarrow> links_loop ss (out @ [l]))"

definition ExportLinks ::
  "('d, 'k) RepoEnv \<Rightarrow> string list \<Rightarrow> ('d, 'k) ServerManager \<Rightarrow> (goerror + string) \<times> ('d, 'k) ServerManager" where
  "ExportLinks env ids m =
     (case repo_List env zero_query (sm_repo m) of
        ((servers, Some e), st) \<Rightarrow> (Inl e, m\<lparr>sm_repo := st\<rparr>)
      | ((servers, None), st) \<Rightarrow>
          (let sel = selected ids servers
           in (if sel = [] then Inl errNothingToExport
               else (case links_loop sel [] of Inl e \<Rightarrow> Inl e | Inr ls \<Rightarrow> Inr (join_with [CHR 0x0A] ls)),
               m\<lparr>sm_repo := st\<rparr>)))"

section \<open>Exported text\<close>

definition ascii :: "string \<Rightarrow> bool" where
  "ascii s \<longleftrightarrow> (\<forall>c \<in> set s. of_char c < (0x80 :: nat))"

lemma digit_ascii: "n < 10 \<Longrightarrow> of_char (digit_char n) < (0x80 :: nat)"
  by (simp add: digit_char_def)

lemma pad_ascii: "ascii (pad2 n)" "ascii (nat_digits n)" "ascii (pad4 n)" "ascii (year_text y)"
proof -
  show p2: "ascii (pad2 n)" for n by (simp add: ascii_def pad2_def digit_ascii)
  show nd: "ascii (nat_digits n)" for n
    by (induction n rule: nat_digits.induct, subst nat_digits.simps) (auto simp: ascii_def digit_ascii)
  show p4: "ascii (pad4 n)" for n using p2 nd by (auto simp: pad4_def ascii_def)
  show "ascii (year_text y)" using p4 by (auto simp: year_text_def ascii_def)
qed

lemma time_ascii: "ascii (FormatRFC3339 t)"
  using pad_ascii unfolding FormatRFC3339_def Let_def ascii_def by (auto split: prod.split)

lemma time_json_ok: "whole_time t \<Longrightarrow> json_ok (time_json t)"
proof -
  assume "whole_time t"
  then have "FormatRFC3339Nano t = FormatRFC3339 t"
    using format_last [of t] append_butlast_last_id [of "FormatRFC3339 t"] by (simp add: FormatRFC3339Nano_def whole_time_def)
  then show ?thesis using time_ascii [of t] by (simp add: time_json_def ascii_valid_utf8 ascii_def)
qed

definition members_ok :: "(string \<times> json) list \<Rightarrow> bool" where
  "members_ok ms \<longleftrightarrow> (\<forall>m \<in> set ms. valid_utf8 (fst m) \<and> json_ok (snd m))"

lemma members_ok_simps [simp]:
  "members_ok []" "members_ok ((k, v) # ms) \<longleftrightarrow> valid_utf8 k \<and> json_ok v \<and> members_ok ms"
  "members_ok (xs @ ys) \<longleftrightarrow> members_ok xs \<and> members_ok ys"
  "valid_utf8 k \<Longrightarrow> valid_utf8 s \<Longrightarrow> members_ok (opt_string k s)"
  "valid_utf8 k \<Longrightarrow> \<forall>s \<in> set ss. valid_utf8 s \<Longrightarrow> members_ok (opt_strings k ss)"
  "valid_utf8 k \<Longrightarrow> json_ok v \<Longrightarrow> members_ok (opt b k v)"
  by (auto simp: members_ok_def opt_string_def opt_strings_def opt_def)

lemma members_ok_pointer: "valid_utf8 k \<Longrightarrow> (\<And>a. x = Some a \<Longrightarrow> json_ok (f a)) \<Longrightarrow> members_ok (opt_pointer k f x)"
  by (cases x) (auto simp: opt_pointer_def members_ok_def)

lemma object_ok: "json_ok (JObject ms) \<longleftrightarrow> members_ok ms"
  by (simp add: members_ok_def)

definition text_fields :: "ServerProfile \<Rightarrow> string list" where
  "text_fields p =
     [sp_ID p, sp_Name p, sp_Protocol p, sp_Address p, sp_Username p, sp_Password p, sp_Cipher p, sp_UUID p, sp_Flow p,
      sp_Security p, sp_PacketEncoding p, sp_Group p, tls_ServerName (sp_TLS p), tls_Fingerprint (sp_TLS p),
      ssh_User (sp_SSH p), ssh_HostKey (sp_SSH p), ssh_PrivateKey (sp_SSH p)] @ sp_Tags p @ tls_ALPN (sp_TLS p) @
     (case sp_Transport p of None \<Rightarrow> [] | Some t \<Rightarrow> [tr_Type t, tr_Path t, tr_Host t, tr_EarlyDataHeaderName t]) @
     (case sp_Reality p of None \<Rightarrow> [] | Some r \<Rightarrow> [re_PublicKey r, re_ShortID r, re_SpiderX r])"

definition exportable :: "ServerProfile \<Rightarrow> bool" where
  "exportable p \<longleftrightarrow> printable p \<and> list_all valid_utf8 (text_fields p)"

lemma profile_json_ok:
  assumes "exportable p"
  shows "json_ok (profile_json p)"
proof -
  have u: "list_all valid_utf8 (text_fields p)" and t: "whole_time (sp_CreatedAt p)" "whole_time (sp_UpdatedAt p)"
    "\<And>t. sp_LastTestedAt p = Some t \<Longrightarrow> whole_time t"
    using assms by (auto simp: exportable_def printable_def)
  have parts: "json_ok (tls_json (sp_TLS p))" "json_ok (ssh_json (sp_SSH p))"
    using u by (simp_all add: tls_json_def ssh_json_def object_ok text_fields_def list_all_iff del: json_ok.simps(4))
  have "json_ok (transport_json tr)" if "sp_Transport p = Some tr" for tr
    using u that by (simp add: transport_json_def object_ok text_fields_def list_all_iff del: json_ok.simps(4))
  moreover have "json_ok (reality_json r)" if "sp_Reality p = Some r" for r
    using u that by (simp add: reality_json_def object_ok text_fields_def list_all_iff del: json_ok.simps(4))
  ultimately show ?thesis
    unfolding profile_json_def object_ok profile_members_def
    using u t parts time_json_ok by (simp add: text_fields_def list_all_iff members_ok_pointer)
qed

lemma envelope_keys: "ToLower ''format'' = ''format''" "ToLower ''version'' = ''version''" "ToLower ''server'' = ''server''"
  by code_simp+

lemma envelope_roundtrip: "printable s \<Longrightarrow> json_envelope (envelope_json (envelope_of s)) = Some (envelope_of s)"
proof -
  assume "printable s"
  then have "into_profile (profile_json s) zero_profile = Some s" by (rule profile_roundtrip)
  moreover have "profile_json s \<noteq> JNull" by (simp add: profile_json_def)
  ultimately show ?thesis
    by (simp add: json_envelope_def envelope_json_def envelope_of_def into_object_def envelope_keys envelope_field_def
      into_string_def into_int_def into_pointer_def opt_pointer_def zero_envelope_def)
qed

lemma envelope_json_ok: "exportable s \<Longrightarrow> json_ok (envelope_json (envelope_of s))"
  unfolding envelope_json_def object_ok
  using profile_json_ok [of s] by (simp add: envelope_of_def opt_pointer_def)

lemma envelopes_roundtrip:
  "list_all printable ss \<Longrightarrow>
   json_envelopes (map (\<lambda>s. envelope_json (envelope_of s)) ss) = Some (map envelope_of ss)"
  by (induction ss) (simp_all add: envelope_roundtrip)

lemma envelopes_loop_all: "envelopes_loop i (map envelope_of ss) out = Inr (out @ ss)"
  by (induction ss arbitrary: i out) (simp_all add: validateEnvelope_def envelope_of_def)

lemma print_last: "last (json_print (JArray js)) = CHR '']''" "last (json_print (JObject ms)) = CHR ''}''"
proof -
  have e: "print_elems js \<noteq> [] \<and> last (print_elems js) = CHR '']''" for js
    by (induction js) auto
  have m: "print_members ms \<noteq> [] \<and> last (print_members ms) = CHR ''}''" for ms
    by (induction ms) auto
  show "last (json_print (JArray js)) = CHR '']''" using e [of js] by simp
  show "last (json_print (JObject ms)) = CHR ''}''" using m [of ms] by simp
qed

lemma print_trim:
  "TrimSpace (json_print (JArray js)) = json_print (JArray js)" "hd (json_print (JArray js)) = CHR ''[''"
  "TrimSpace (json_print (JObject ms)) = json_print (JObject ms)" "hd (json_print (JObject ms)) = CHR ''{''"
proof -
  have v: "visible (CHR ''['')" "visible (CHR '']'')" "visible (CHR ''{'')" "visible (CHR ''}'')" by code_simp+
  show h: "hd (json_print (JArray js)) = CHR ''[''" "hd (json_print (JObject ms)) = CHR ''{''" by simp_all
  show "TrimSpace (json_print (JArray js)) = json_print (JArray js)"
    by (rule trim_edges) (simp, simp only: h v, simp only: print_last v)
  show "TrimSpace (json_print (JObject ms)) = json_print (JObject ms)"
    by (rule trim_edges) (simp, simp only: h v, simp only: print_last v)
qed

lemma exportable_marshal: "exportable s \<Longrightarrow> marshalable s"
  by (auto simp: exportable_def printable_def marshalable_def whole_time_def split: option.splits)

lemma marshal_parse:
  assumes "list_all exportable ss" "ss \<noteq> []"
  shows "\<exists>blob. marshal_envelopes ss = Inr blob \<and> ParseEnvelopes blob = Inr ss \<and>
    TrimSpace blob = blob \<and> blob \<noteq> '''' \<and> hd blob \<in> {CHR ''{'', CHR ''[''}"
proof -
  have m: "list_all marshalable ss" "list_all printable ss"
    using assms(1) exportable_marshal by (auto simp: list_all_iff exportable_def)
  show ?thesis
  proof (cases "\<exists>s. ss = [s]")
    case True
    then obtain s where s: "ss = [s]" by blast
    let ?j = "envelope_json (envelope_of s)"
    obtain ms where ms: "?j = JObject ms" by (simp add: envelope_json_def)
    have "json_parse (json_print ?j) = Some ?j" using envelope_json_ok assms(1) s by (intro json_roundtrip) simp
    moreover have "json_envelope ?j = Some (envelope_of s)" using m(2) s by (intro envelope_roundtrip) simp
    ultimately have "ParseEnvelopes (json_print ?j) = Inr [s]"
      using print_trim(3,4) [of ms] unfolding ParseEnvelopes_def ms
      by (simp add: validateEnvelope_def envelope_of_def del: json_print.simps) (simp add: ms validateEnvelope_def)
    moreover have "marshal_envelopes ss = Inr (json_print ?j)" using m(1) s by (simp add: marshal_envelopes_def)
    ultimately show ?thesis using s print_trim(3,4) [of ms] by (simp add: ms)
  next
    case False
    let ?js = "map (\<lambda>s. envelope_json (envelope_of s)) ss"
    have "json_ok (JArray ?js)" using envelope_json_ok assms(1) by (auto simp: list_all_iff)
    then have "json_parse (json_print (JArray ?js)) = Some (JArray ?js)" by (rule json_roundtrip)
    then have "ParseEnvelopes (json_print (JArray ?js)) = Inr ss"
      using print_trim(1,2) [of ?js] envelopes_roundtrip [OF m(2)] envelopes_loop_all [of 0 ss "[]"]
      unfolding ParseEnvelopes_def by simp
    moreover have "marshal_envelopes ss = Inr (json_print (JArray ?js))"
      using m(1) False assms(2) unfolding marshal_envelopes_def by (cases ss; cases "tl ss") auto
    ultimately show ?thesis using print_trim(1,2) [of ?js] by simp
  qed
qed

section \<open>Imports\<close>

lemma import_loop_counts:
  "import_loop env fr i ps (a, f, es) st = ((a', f', es'), st') \<Longrightarrow>
   a \<le> a' \<and> f \<le> f' \<and> a' + f' = a + f + length ps \<and> length es' + f = length es + f'"
proof (induction ps arbitrary: i a f es st)
  case (Cons p ps)
  obtain r st1 where c: "repo_Create env (fst (fr i)) (fst (snd (fr i))) (snd (snd (fr i))) (imported p) st = (r, st1)" by fastforce
  show ?case
  proof (cases r)
    case (Inl e)
    then show ?thesis using Cons.IH [of "Suc i" a "Suc f"] Cons.prems c by fastforce
  next
    case (Inr k)
    then show ?thesis using Cons.IH [of "Suc i" "Suc a" f es st1] Cons.prems c by simp
  qed
qed simp

lemma Validate_imported [simp]: "Validate (imported p) = Validate p"
  by (simp add: imported_def Validate_def validate_credentials_def)

lemma storable_imported: "storable p \<Longrightarrow> storable (imported p)"
  by (auto simp: storable_def imported_def time_ok_def days_before_year_def)

text \<open>The map after an import: each profile under its new identifier.\<close>

fun import_spec :: "fresh \<Rightarrow> nat \<Rightarrow> ServerProfile list \<Rightarrow> profiles \<Rightarrow> profiles" where
  "import_spec fr i [] M = M"
| "import_spec fr i (p # ps) M =
     import_spec fr (Suc i) ps (M(NewID (fst (fr i)) \<mapsto> created (fst (fr i)) (fst (snd (fr i))) (snd (snd (fr i))) (imported p)))"

context repository
begin

lemma import_repr:
  assumes "reliable sql sec" "repo_repr sec tbl M st" "\<forall>p \<in> set ps. Validate p = None \<and> storable p"
    and "\<And>j. time_ok (fst (snd (fr j))) \<and> time_ok (snd (snd (fr j)))"
  shows "\<exists>st'. import_loop env fr i ps (a, f, es) st = ((a + length ps, f, es), st') \<and>
    repo_repr sec tbl (import_spec fr i ps M) st'"
  using assms(2,3)
proof (induction ps arbitrary: i a M st)
  case (Cons p ps)
  let ?op = "OpCreate (fst (fr i)) (fst (snd (fr i))) (snd (snd (fr i))) (imported p)"
  let ?c = "created (fst (fr i)) (fst (snd (fr i))) (snd (snd (fr i))) (imported p)"
  have ok: "op_ok ?op" using Cons.prems(2) assms(4) storable_imported by simp
  have k: "sp_ID ?c = NewID (fst (fr i))" by (simp add: created_def imported_def)
  have "Validate (imported p) = None" using Cons.prems(2) by simp
  then have s: "spec_step ?op M = (ResID (NewID (fst (fr i))), M(NewID (fst (fr i)) \<mapsto> ?c))" using k by (simp add: Let_def)
  obtain st1 where st1: "repo_step env ?op st = (ResID (NewID (fst (fr i))), st1)"
    "repo_repr sec tbl (M(NewID (fst (fr i)) \<mapsto> ?c)) st1"
    using Create_refines [OF assms(1) Cons.prems(1) ok] unfolding s by auto
  then have "repo_Create env (fst (fr i)) (fst (snd (fr i))) (snd (snd (fr i))) (imported p) st = (Inr (NewID (fst (fr i))), st1)"
    by (auto split: prod.splits sum.splits)
  then show ?case using Cons.IH [OF st1(2), of "Suc i" "Suc a"] Cons.prems(2) by (simp del: fun_upd_apply)
qed simp

end

section \<open>Properties\<close>

text \<open>C26: Exported profiles import again. A non-empty list of profiles with valid UTF-8 text and times
  of whole seconds, as the repository keeps them, is written as one envelope or an array of them;
  parsing that text as import data gives exactly these profiles back, every field included, and
  reports no error.\<close>

theorem export_import_roundtrip:
  assumes "list_all exportable ss" "ss \<noteq> []"
  shows "\<exists>blob. marshal_envelopes ss = Inr blob \<and> ParseImportData lenv blob = (ss, [])"
proof -
  obtain blob where "marshal_envelopes ss = Inr blob" "ParseEnvelopes blob = Inr ss" "TrimSpace blob = blob" "blob \<noteq> ''''"
    "hd blob \<in> {CHR ''{'', CHR ''[''}"
    using marshal_parse [OF assms] by blast
  then show ?thesis by (auto simp: ParseImportData_def)
qed

definition demo_export :: ServerProfile where
  "demo_export =
     zero_profile\<lparr>sp_ID := ''a'', sp_Name := ''caf'' @ [CHR 0xC3, CHR 0xA9], sp_Protocol := ProtocolSSH, sp_Address := ''h'', sp_Port := 22,
       sp_SSH := \<lparr>ssh_User = ''u'', ssh_HostKey = '''', ssh_PrivateKey = [CHR 0x22, CHR 0x0A]\<rparr>, sp_Tags := [''x'', '''']\<rparr>"

lemma demo_exportable: "exportable demo_export"
  by (simp add: exportable_def printable_def demo_export_def text_fields_def zero_profile_def zero_TLS_def int64_def
    whole_time_def time_ok_def days_before_year_def) code_simp

theorem export_import_roundtrip_witness:
  "\<exists>blob. marshal_envelopes [demo_export, demo_export] = Inr blob \<and> ParseImportData demo_env blob = ([demo_export, demo_export], [])"
  using export_import_roundtrip [of "[demo_export, demo_export]" demo_env] demo_exportable by simp

text \<open>Imports account for every item. Whatever the data and whichever store operation fails, the
  numbers of added and failed items sum to the profiles and the errors the data parses into, and
  there is one error entry per failed item. Over stores that keep their contracts and do not fail,
  data that parses into valid profiles adds all of them, each under its fresh identifier, enabled
  and without measurements, and leaves every other profile as it was.\<close>

theorem import_accounts:
  assumes "ParseImportData lenv data = (ps, errs)"
    and "ImportServers lenv env fr data m = ((added, failed, es), m')"
  shows "added + failed = length ps + length errs \<and> length es = failed \<and>
    (sql_table (re_sql env) tbl \<longrightarrow> secret_vault (re_sec env) \<longrightarrow> reliable (re_sql env) (re_sec env) \<longrightarrow>
     repo_repr (re_sec env) tbl M (sm_repo m) \<longrightarrow> (\<forall>p \<in> set ps. Validate p = None \<and> storable p) \<longrightarrow>
     (\<forall>j. time_ok (fst (snd (fr j))) \<and> time_ok (snd (snd (fr j)))) \<longrightarrow>
     added = length ps \<and> repo_repr (re_sec env) tbl (import_spec fr 0 ps M) (sm_repo m'))"
proof (intro conjI impI)
  obtain st where l: "import_loop env fr 0 ps (0, length errs, errs) (sm_repo m) = ((added, failed, es), st)" "m' = m\<lparr>sm_repo := st\<rparr>"
    using assms by (auto simp: ImportServers_def split: prod.splits)
  show "added + failed = length ps + length errs" "length es = failed" using import_loop_counts [OF l(1)] by auto
  assume s: "sql_table (re_sql env) tbl" "secret_vault (re_sec env)" "reliable (re_sql env) (re_sec env)"
    "repo_repr (re_sec env) tbl M (sm_repo m)" "\<forall>p \<in> set ps. Validate p = None \<and> storable p"
    "\<forall>j. time_ok (fst (snd (fr j))) \<and> time_ok (snd (snd (fr j)))"
  have r: "repository (re_sql env) tbl (re_sec env) env" using s(1,2) by (simp add: repository_def repository_axioms_def)
  obtain st' where "import_loop env fr 0 ps (0, length errs, errs) (sm_repo m) = ((0 + length ps, length errs, errs), st')"
    "repo_repr (re_sec env) tbl (import_spec fr 0 ps M) st'"
    using repository.import_repr [OF r s(3-5), of fr 0 0 "length errs" errs] s(6) by blast
  then show "added = length ps" "repo_repr (re_sec env) tbl (import_spec fr 0 ps M) (sm_repo m')" using l by auto
qed

theorem import_accounts_witness:
  "\<exists>blob m'. marshal_envelopes [demo_export] = Inr blob \<and>
     ImportServers demo_env \<lparr>re_sql = table_ops, re_sec = mem_ops, re_order = (\<lambda>xs. xs)\<rparr> (\<lambda>i. ([], 0, 0)) blob
       (manager_New (NewSQLiteServerRepository [] Map.empty)) = ((1, 0, []), m') \<and>
     repo_repr mem_ops (\<lambda>d. d) [NewID [] \<mapsto> created [] 0 0 (imported demo_export)] (sm_repo m')"
proof -
  let ?e = "\<lparr>re_sql = table_ops, re_sec = mem_ops, re_order = (\<lambda>xs. xs)\<rparr> :: (row list, string \<rightharpoonup> string) RepoEnv"
  let ?m = "manager_New (NewSQLiteServerRepository [] Map.empty) :: (row list, string \<rightharpoonup> string) ServerManager"
  obtain blob where b: "marshal_envelopes [demo_export] = Inr blob" "ParseImportData demo_env blob = ([demo_export], [])"
    using marshal_parse [of "[demo_export]"] demo_exportable by (auto simp: ParseImportData_def)
  obtain a f es m' where i: "ImportServers demo_env ?e (\<lambda>i. ([], 0, 0)) blob ?m = ((a, f, es), m')"
    by (metis prod.exhaust)
  have v: "Validate demo_export = None" by code_simp
  have s: "storable demo_export"
    by (simp add: demo_export_def zero_profile_def zero_TLS_def storable_def time_ok_def days_before_year_def)
  have r: "reliable table_ops mem_ops" by (simp add: reliable_def table_ops_def mem_ops_def mem_Set_def)
  have "repo_repr mem_ops (\<lambda>d. d) Map.empty (sm_repo ?m)" 
    by (simp add: repo_repr_def table_ok_def stored_as_def find_row_def NewSQLiteServerRepository_def manager_New_def)
  then show ?thesis using import_accounts [OF b(2) i, of "\<lambda>d. d" Map.empty] b(1) i v s r
    tab.sql_table_axioms memv.secret_vault_axioms by (auto simp: time_ok_def days_before_year_def)
qed

section \<open>Parsed profiles are valid\<close>

definition yields_valid :: "goerror + ServerProfile \<Rightarrow> bool" where
  "yields_valid r = (\<forall>p. r = Inr p \<longrightarrow> Validate p = None)"

lemma yields_valid_leaf:
  shows yields_valid_error: "yields_valid (Inl e)"
    and yields_valid_new: "yields_valid (newProfile pr name addr port extra)"
  by (auto simp: yields_valid_def dest: newProfile_valid)

lemma yields_valid_node:
  shows yields_valid_if: "\<lbrakk>yields_valid a; yields_valid b\<rbrakk> \<Longrightarrow> yields_valid (if c then a else b)"
    and yields_valid_option: "\<lbrakk>yields_valid a; \<And>x. yields_valid (f x)\<rbrakk> \<Longrightarrow> yields_valid (case_option a f ov)"
    and yields_valid_sum: "\<lbrakk>\<And>x. yields_valid (h x); \<And>x. yields_valid (g x)\<rbrakk> \<Longrightarrow> yields_valid (case_sum h g sv)"
    and yields_valid_prod: "(\<And>x y. yields_valid (k x y)) \<Longrightarrow> yields_valid (case_prod k pv)"
    and yields_valid_let: "(\<And>x. yields_valid (l x)) \<Longrightarrow> yields_valid (Let lv l)"
  by (simp_all split: option.split sum.split prod.split)

lemmas yields_valid_intros = yields_valid_leaf yields_valid_node

lemma parsers_yield_valid:
  shows "yields_valid (parseVMess env t)" "yields_valid (parseVLess env t)" "yields_valid (parseTrojan env t)"
    and "yields_valid (parseUserPass env t pr)" "yields_valid (parseShadowsocks t)"
  unfolding parseVMess_def parseVMessSIP002_def vmess_profile_def parseVLess_def parseTrojan_def parseUserPass_def
    parseShadowsocks_def parseShadowsocksFull_def ss_profile_def
  by (intro yields_valid_intros)+

text \<open>What a link parses into is well-formed. Whatever text is given, a profile that the link
  parser accepts passes the profile validation, in every format; no other way out of the parser
  returns a profile.\<close>

theorem ParseLink_valid:
  assumes "ParseLink env link = Inr p"
  shows "Validate p = None"
proof -
  have "yields_valid (ParseLink env link)"
    unfolding ParseLink_def by (intro yields_valid_intros parsers_yield_valid)
  with assms show ?thesis by (simp add: yields_valid_def)
qed

theorem ParseLink_valid_witness:
  "(case ParseLink demo_env ''socks5://u:p@h:1#n'' of Inr p \<Rightarrow> Validate p = None \<and> sp_Port p = 1 | Inl e \<Rightarrow> False)"
proof -
  have c: "(case ParseLink demo_env ''socks5://u:p@h:1#n'' of Inr p \<Rightarrow> sp_Port p = 1 | Inl e \<Rightarrow> False)" by code_simp
  then obtain p where p: "ParseLink demo_env ''socks5://u:p@h:1#n'' = Inr p" by (cases "ParseLink demo_env ''socks5://u:p@h:1#n''") auto
  then show ?thesis using ParseLink_valid [OF p] c by simp
qed

end
