(* ===== verification/VPN_Service.thy ===== *)
theory VPN_Service
  imports Omni_Models
begin

text \<open>
  The VPN service (\<open>core/vpn/service.go\<close>): the retry policy, the run loop and the API
  calls \<open>Connect\<close>, \<open>Disconnect\<close> and \<open>Reconnect\<close> as interleaved threads.

  Every section of the code that runs under the service mutex, every call into the tunnel
  and every publication of an event is one atomic step; a program counter per run loop and
  per caller says which step comes next. What the code gets from outside (the result of a
  tunnel start, a resolved profile, a fired timer, a ready channel of a \<open>select\<close>) is the
  step's choice. The tunnel is one bit: whether traffic is being routed. \<open>Manager.Start\<close>
  and \<open>Manager.Stop\<close> hold the manager's own mutex while they run: a start in flight
  (\<open>L_Starting\<close>) blocks every other start and stop until it returns, and a failed start may
  leave the tunnel up, as the code's comments say.
  Connect's tail (publish the Connecting event, start the goroutine) is the first step of
  the new run.
\<close>

section \<open>Retry policy\<close>

record RetryPolicy =
  rp_Backoff :: "int \<Rightarrow> duration"
  rp_MaxAttempts :: int

fun backoff_loop :: "nat \<Rightarrow> duration \<Rightarrow> duration" where
  "backoff_loop 0 d = d"
| "backoff_loop (Suc n) d = (if d < 30 * second then backoff_loop n (d * 2) else d)"

definition Backoff :: "int \<Rightarrow> duration" where
  "Backoff attempt = (let a = (if attempt < 0 then 0 else attempt) in backoff_loop (nat a) second)"

definition DefaultRetryPolicy :: RetryPolicy where
  "DefaultRetryPolicy = \<lparr>rp_Backoff = Backoff, rp_MaxAttempts = 5\<rparr>"

section \<open>Error classification\<close>

abbreviation (input) ErrCodeUnauthorized :: string where "ErrCodeUnauthorized \<equiv> ''unauthorized''"
abbreviation (input) ErrCodeBusy :: string where "ErrCodeBusy \<equiv> ''busy''"
abbreviation (input) ErrCodeEngine :: string where "ErrCodeEngine \<equiv> ''engine_error''"

definition classify :: "goerror \<Rightarrow> string" where
  "classify e =
     (let msg = ToLower (err_text e)
      in if Contains msg ''permission denied'' \<or> Contains msg ''operation not permitted'' \<or>
            Contains msg ''not permitted'' \<or> Contains msg ''privileged helper''
         then ErrCodeUnauthorized
         else if Contains msg ''already running'' then ErrCodeBusy
         else ErrCodeEngine)"

definition errTunnelLost :: goerror where
  "errTunnelLost = plain_error ''tunnel: connection lost''"

definition errBusy :: goerror where
  "errBusy = GoError ErrBusy ''vpn: busy''"

section \<open>State\<close>

datatype command = cmdDisconnect | cmdReconnect

text \<open>
  Where a run loop stands: \<open>L_Start\<close> is the head of the \<open>for\<close> loop,
  \<open>L_Starting\<close> is inside \<open>tunnel.Start\<close>, \<open>L_Started\<close> follows the return of \<open>tunnel.Start\<close>, \<open>L_Select\<close> is the
  \<open>select\<close> of a connected run, \<open>L_Wait\<close> the one of \<open>wait\<close>, \<open>L_Finish\<close> the
  deferred \<open>finish\<close>. \<open>L_Emit st k\<close> is about to publish \<open>st\<close> and go on at \<open>k\<close>.
\<close>

datatype loop_pc =
    L_Start
  | L_Starting
  | L_Started "goerror option"
  | L_Connected
  | L_Select
  | L_Lost
  | L_Failed goerror
  | L_FailedStop goerror
  | L_Retry goerror
  | L_GiveUp goerror
  | L_Delay goerror
  | L_Backoff goerror duration
  | L_Wait duration
  | L_WaitCmd command
  | L_WaitTimer
  | L_Reconnect
  | L_ReconnectStop
  | L_Teardown
  | L_TeardownStop
  | L_Emit ConnectionState loop_pc
  | L_Finish
  | L_Exited

text \<open>One \<open>runState\<close> with the local variables of its loop.\<close>

record run_state =
  rs_session :: VPNSession
  rs_cancelled :: bool
  rs_cmds :: "command list"
  rs_done :: bool
  rs_pc :: loop_pc
  rs_attempt :: int
  rs_profile :: ServerProfile
  rs_mode :: ConnectionMode

datatype caller_pc =
    C_Idle
  | C_Connect string ConnectionMode
  | C_Check ServerProfile ConnectionMode
  | C_Reap nat ServerProfile ConnectionMode
  | C_ReapStop nat ServerProfile ConnectionMode
  | C_ReapWait nat ServerProfile ConnectionMode
  | C_Commit ServerProfile ConnectionMode
  | D_Read
  | D_Reset
  | D_Send nat
  | D_Wait nat
  | D_Force
  | D_ForceStop
  | R_Read
  | R_Send nat
  | C_Emit ConnectionState
  | C_Return "goerror option"

text \<open>
  The service: runs are numbered in the order they were created, and \<open>s_active\<close> and
  \<open>s_session\<close> point to a run (a session object belongs to exactly one run).
\<close>

record svc =
  s_state :: ConnectionState
  s_session :: "nat option"
  s_active :: "nat option"
  s_auto :: bool
  s_retry :: RetryPolicy
  s_runs :: "run_state list"
  s_callers :: "nat \<Rightarrow> caller_pc"
  s_tunnel :: bool
  s_events :: "(ConnectionState \<times> VPNSession option) list"

definition NewService :: svc where
  "NewService =
     \<lparr>s_state = StateDisconnected, s_session = None, s_active = None, s_auto = True,
      s_retry = DefaultRetryPolicy, s_runs = [], s_callers = (\<lambda>_. C_Idle),
      s_tunnel = False, s_events = []\<rparr>"

definition run_upd :: "nat \<Rightarrow> (run_state \<Rightarrow> run_state) \<Rightarrow> svc \<Rightarrow> svc" where
  "run_upd i f s = s\<lparr>s_runs := (s_runs s)[i := f (s_runs s ! i)]\<rparr>"

definition goto :: "nat \<Rightarrow> loop_pc \<Rightarrow> svc \<Rightarrow> svc" where
  "goto i k = run_upd i (\<lambda>r. r\<lparr>rs_pc := k\<rparr>)"

definition call_goto :: "nat \<Rightarrow> caller_pc \<Rightarrow> svc \<Rightarrow> svc" where
  "call_goto t k s = s\<lparr>s_callers := (s_callers s)(t := k)\<rparr>"

section \<open>The sections under the mutex\<close>

definition SetAutoReconnect :: "bool \<Rightarrow> svc \<Rightarrow> svc" where
  "SetAutoReconnect on s = s\<lparr>s_auto := on\<rparr>"

definition SetRetryPolicy :: "RetryPolicy option \<Rightarrow> svc \<Rightarrow> svc" where
  "SetRetryPolicy p s =
     s\<lparr>s_retry := (case p of None \<Rightarrow> DefaultRetryPolicy | Some q \<Rightarrow> q)\<rparr>"

definition session_of :: "svc \<Rightarrow> VPNSession option" where
  "session_of s = map_option (\<lambda>j. rs_session (s_runs s ! j)) (s_session s)"

definition RunningTo :: "string \<Rightarrow> svc \<Rightarrow> bool" where
  "RunningTo serverID s =
     (case session_of s of
        None \<Rightarrow> False
      | Some sess \<Rightarrow> Running sess \<and> vs_ServerID sess = serverID)"

definition isActive :: "nat \<Rightarrow> svc \<Rightarrow> bool" where
  "isActive i s = (s_active s = Some i)"

definition shouldRetry :: "int \<Rightarrow> svc \<Rightarrow> bool" where
  "shouldRetry attempt s =
     (s_auto s \<and> (rp_MaxAttempts (s_retry s) \<le> 0 \<or> attempt < rp_MaxAttempts (s_retry s)))"

definition backoff :: "int \<Rightarrow> svc \<Rightarrow> duration" where
  "backoff attempt s = rp_Backoff (s_retry s) attempt"

definition sendCmd :: "nat \<Rightarrow> command \<Rightarrow> svc \<Rightarrow> svc" where
  "sendCmd i c =
     run_upd i (\<lambda>r. if length (rs_cmds r) < 1 then r\<lparr>rs_cmds := rs_cmds r @ [c]\<rparr> else r)"

definition emitState :: "ConnectionState \<Rightarrow> svc \<Rightarrow> svc" where
  "emitState st s = s\<lparr>s_events := s_events s @ [(st, session_of s)]\<rparr>"

text \<open>The tunnel manager's mutex is free when no start is in flight; \<open>tunnel.Stop\<close> waits
  for it.\<close>

definition tunnel_free :: "svc \<Rightarrow> bool" where
  "tunnel_free s = list_all (\<lambda>r. rs_pc r \<noteq> L_Starting) (s_runs s)"

definition tunnel_Stop :: "svc \<Rightarrow> svc option" where
  "tunnel_Stop s = (if tunnel_free s then Some (s\<lparr>s_tunnel := False\<rparr>) else None)"

text \<open>\<open>transition\<close>: the state, the history and the error of the run's session, or
  nothing when the run is no longer active. The publication follows as its own step.\<close>

definition set_error :: "ConnectionState \<Rightarrow> goerror option \<Rightarrow> VPNSession \<Rightarrow> VPNSession" where
  "set_error st err sess =
     (case err of
        Some e \<Rightarrow>
          (if st = StateError
           then sess\<lparr>vs_Error := Some \<lparr>se_Code = classify e, se_Message = err_text e\<rparr>\<rparr>
           else sess)
      | None \<Rightarrow> sess)"

definition transition ::
  "gotime \<Rightarrow> nat \<Rightarrow> ConnectionState \<Rightarrow> goerror option \<Rightarrow> loop_pc \<Rightarrow> svc \<Rightarrow> svc" where
  "transition now i st err k s =
     (if s_active s \<noteq> Some i then goto i k s
      else run_upd i (\<lambda>r. r\<lparr>rs_session := set_error st err (AddState now st (rs_session r)),
                           rs_pc := L_Emit st k\<rparr>)
             (s\<lparr>s_state := st\<rparr>))"

definition end_session :: "gotime \<Rightarrow> VPNSession \<Rightarrow> VPNSession" where
  "end_session now sess =
     (if vs_EndedAt sess = None then sess\<lparr>vs_EndedAt := Some now\<rparr> else sess)"

definition end_session_state :: "gotime \<Rightarrow> ConnectionState \<Rightarrow> VPNSession \<Rightarrow> VPNSession" where
  "end_session_state now st sess =
     (if vs_EndedAt sess = None then AddState now st (sess\<lparr>vs_EndedAt := Some now\<rparr>)
      else sess)"

text \<open>\<open>teardown\<close> up to its call of \<open>tunnel.Stop\<close>; all callers pass Disconnected and
  no session error.\<close>

definition teardown :: "gotime \<Rightarrow> nat \<Rightarrow> svc \<Rightarrow> svc" where
  "teardown now i s =
     (if s_active s \<noteq> Some i then goto i L_Finish s
      else run_upd i (\<lambda>r. r\<lparr>rs_session :=
                              end_session_state now StateDisconnected (rs_session r),
                           rs_pc := L_TeardownStop\<rparr>)
             (s\<lparr>s_state := StateDisconnected\<rparr>))"

definition finish :: "gotime \<Rightarrow> nat \<Rightarrow> svc \<Rightarrow> svc" where
  "finish now i s =
     run_upd i (\<lambda>r. r\<lparr>rs_session := end_session now (rs_session r), rs_done := True,
                     rs_pc := L_Exited\<rparr>)
       (if s_active s = Some i then s\<lparr>s_active := None\<rparr> else s)"

definition forceDisconnect :: "gotime \<Rightarrow> nat \<Rightarrow> svc \<Rightarrow> svc" where
  "forceDisconnect now t s =
     (case s_active s of
        None \<Rightarrow> call_goto t (C_Return None) s
      | Some i \<Rightarrow>
          call_goto t D_ForceStop
            (run_upd i (\<lambda>r. r\<lparr>rs_cancelled := True, rs_session :=
                               end_session_state now StateDisconnected (rs_session r)\<rparr>)
              (s\<lparr>s_active := None, s_state := StateDisconnected\<rparr>)))"

definition new_session ::
  "gotime \<Rightarrow> string \<Rightarrow> ServerProfile \<Rightarrow> ConnectionMode \<Rightarrow> VPNSession" where
  "new_session now fresh p mode =
     AddState now StateConnecting
       \<lparr>vs_ID = fresh, vs_ServerID = sp_ID p, vs_Mode = mode, vs_StartedAt = now,
        vs_EndedAt = None, vs_BytesUp = 0, vs_BytesDown = 0, vs_StatusHistory = [],
        vs_Error = None\<rparr>"

definition new_run ::
  "gotime \<Rightarrow> string \<Rightarrow> ServerProfile \<Rightarrow> ConnectionMode \<Rightarrow> run_state" where
  "new_run now fresh p mode =
     \<lparr>rs_session = new_session now fresh p mode, rs_cancelled = False, rs_cmds = [],
      rs_done = False, rs_pc = L_Emit StateConnecting L_Start, rs_attempt = 0,
      rs_profile = p, rs_mode = mode\<rparr>"

text \<open>The two critical sections of \<open>Connect\<close>: the first look, and the commit.\<close>

definition connect_check :: "nat \<Rightarrow> ServerProfile \<Rightarrow> ConnectionMode \<Rightarrow> svc \<Rightarrow> svc" where
  "connect_check t p mode s =
     (if live_state (s_state s) then call_goto t (C_Return (Some errBusy)) s
      else (case s_active s of
              None \<Rightarrow> call_goto t (C_Commit p mode) s
            | Some i \<Rightarrow> call_goto t (C_Reap i p mode) s))"

definition connect_commit ::
  "gotime \<Rightarrow> string \<Rightarrow> nat \<Rightarrow> ServerProfile \<Rightarrow> ConnectionMode \<Rightarrow> svc \<Rightarrow> svc" where
  "connect_commit now fresh t p mode s =
     (if live_state (s_state s) then call_goto t (C_Return (Some errBusy)) s
      else call_goto t (C_Return None)
             (s\<lparr>s_state := StateConnecting,
               s_session := Some (length (s_runs s)),
               s_active := Some (length (s_runs s)),
               s_runs := s_runs s @ [new_run now fresh p mode]\<rparr>))"

definition disconnect_read :: "nat \<Rightarrow> svc \<Rightarrow> svc" where
  "disconnect_read t s =
     (case s_active s of
        None \<Rightarrow>
          (if s_state s = StateDisconnected then call_goto t (C_Return None) s
           else call_goto t D_Reset s)
      | Some i \<Rightarrow> call_goto t (D_Send i) s)"

definition reconnect_read :: "nat \<Rightarrow> svc \<Rightarrow> svc" where
  "reconnect_read t s =
     (if s_state s = StateConnected \<or> s_state s = StateReconnecting then
        (case s_active s of
           None \<Rightarrow> call_goto t (C_Return (Some errBusy)) s
         | Some i \<Rightarrow> call_goto t (R_Send i) s)
      else if s_state s = StateError then
        (case s_active s of
           None \<Rightarrow>
             (case session_of s of
                Some sess \<Rightarrow> call_goto t (C_Connect (vs_ServerID sess) (vs_Mode sess)) s
              | None \<Rightarrow> call_goto t (C_Return (Some errBusy)) s)
         | Some i \<Rightarrow> call_goto t (R_Send i) s)
      else call_goto t (C_Return (Some errBusy)) s)"

section \<open>The run loop\<close>

datatype loop_choice =
    Step
  | StartReturns "goerror option" bool
  | TakeCmd
  | CtxDone
  | LostFires
  | TimerFires

text \<open>Receiving from the command channel of run \<open>i\<close> and going on at \<open>k\<close>.\<close>

definition take_cmd :: "nat \<Rightarrow> (command \<Rightarrow> loop_pc) \<Rightarrow> svc \<Rightarrow> svc option" where
  "take_cmd i k s =
     (case rs_cmds (s_runs s ! i) of
        [] \<Rightarrow> None
      | c # cs \<Rightarrow> Some (run_upd i (\<lambda>r. r\<lparr>rs_cmds := cs, rs_pc := k c\<rparr>) s))"

definition select_pc :: "command \<Rightarrow> loop_pc" where
  "select_pc c = (case c of cmdDisconnect \<Rightarrow> L_Teardown | cmdReconnect \<Rightarrow> L_Reconnect)"

definition waitcmd_pc :: "command \<Rightarrow> loop_pc" where
  "waitcmd_pc c = (if c = cmdDisconnect then L_Teardown else L_Start)"

text \<open>
  One step of loop \<open>i\<close>. \<open>None\<close>: the step is not enabled (a blocked channel, a choice
  that does not belong to the program point, an exited loop).
\<close>

definition start_returns :: "nat \<Rightarrow> loop_choice \<Rightarrow> svc \<Rightarrow> svc option" where
  "start_returns i ch s =
     (case ch of
        StartReturns err up \<Rightarrow>
          (if err = None \<longrightarrow> up then Some (goto i (L_Started err) (s\<lparr>s_tunnel := up\<rparr>))
           else None)
      | _ \<Rightarrow> None)"

definition select_step :: "nat \<Rightarrow> loop_choice \<Rightarrow> svc \<Rightarrow> svc option" where
  "select_step i ch s =
     (case ch of
        TakeCmd \<Rightarrow> take_cmd i select_pc s
      | CtxDone \<Rightarrow> if rs_cancelled (s_runs s ! i) then Some (goto i L_Teardown s) else None
      | LostFires \<Rightarrow> Some (goto i L_Lost s)
      | _ \<Rightarrow> None)"

definition wait_step :: "nat \<Rightarrow> loop_choice \<Rightarrow> svc \<Rightarrow> svc option" where
  "wait_step i ch s =
     (case ch of
        TakeCmd \<Rightarrow> take_cmd i L_WaitCmd s
      | TimerFires \<Rightarrow> Some (goto i L_WaitTimer s)
      | CtxDone \<Rightarrow> if rs_cancelled (s_runs s ! i) then Some (goto i L_Teardown s) else None
      | _ \<Rightarrow> None)"

definition internal_step :: "gotime \<Rightarrow> nat \<Rightarrow> loop_pc \<Rightarrow> svc \<Rightarrow> svc option" where
  "internal_step now i pc s =
     (case pc of
        L_Start \<Rightarrow> if tunnel_free s then Some (goto i L_Starting s) else None
      | L_Started err \<Rightarrow>
          Some (if \<not> isActive i s then goto i L_Finish s
                else (case err of
                        None \<Rightarrow> run_upd i (\<lambda>r. r\<lparr>rs_attempt := 0, rs_pc := L_Connected\<rparr>) s
                      | Some e \<Rightarrow> goto i (L_Failed e) s))
      | L_Connected \<Rightarrow> Some (transition now i StateConnected None L_Select s)
      | L_Lost \<Rightarrow>
          Some (if \<not> isActive i s then goto i L_Finish s else goto i (L_Failed errTunnelLost) s)
      | L_Failed e \<Rightarrow>
          Some (if isActive i s then goto i (L_FailedStop e) s else goto i (L_Retry e) s)
      | L_FailedStop e \<Rightarrow> map_option (goto i (L_Retry e)) (tunnel_Stop s)
      | L_Retry e \<Rightarrow>
          Some (if \<not> shouldRetry (rs_attempt (s_runs s ! i)) s then goto i (L_GiveUp e) s
                else goto i (L_Delay e) s)
      | L_GiveUp e \<Rightarrow> Some (transition now i StateError (Some e) L_Finish s)
      | L_Delay e \<Rightarrow>
          Some (run_upd i (\<lambda>r. r\<lparr>rs_attempt := rs_attempt r + 1,
                                rs_pc := L_Backoff e (backoff (rs_attempt r) s)\<rparr>) s)
      | L_Backoff e d \<Rightarrow> Some (transition now i StateReconnecting (Some e) (L_Wait d) s)
      | L_WaitCmd c \<Rightarrow>
          Some (if \<not> isActive i s then goto i L_Finish s else goto i (waitcmd_pc c) s)
      | L_WaitTimer \<Rightarrow> Some (if isActive i s then goto i L_Start s else goto i L_Finish s)
      | L_Reconnect \<Rightarrow> Some (transition now i StateReconnecting None L_ReconnectStop s)
      | L_ReconnectStop \<Rightarrow>
          map_option (run_upd i (\<lambda>r. r\<lparr>rs_attempt := 0, rs_pc := L_Start\<rparr>)) (tunnel_Stop s)
      | L_Teardown \<Rightarrow> Some (teardown now i s)
      | L_TeardownStop \<Rightarrow>
          map_option (goto i (L_Emit StateDisconnected L_Finish)) (tunnel_Stop s)
      | L_Emit st k \<Rightarrow> Some (goto i k (emitState st s))
      | L_Finish \<Rightarrow> Some (finish now i s)
      | _ \<Rightarrow> None)"

definition runLoop_step :: "gotime \<Rightarrow> nat \<Rightarrow> loop_choice \<Rightarrow> svc \<Rightarrow> svc option" where
  "runLoop_step now i ch s =
     (if i < length (s_runs s) then
        (case rs_pc (s_runs s ! i) of
           L_Starting \<Rightarrow> start_returns i ch s
         | L_Select \<Rightarrow> select_step i ch s
         | L_Wait d \<Rightarrow> wait_step i ch s
         | pc \<Rightarrow> if ch = Step then internal_step now i pc s else None)
      else None)"

section \<open>The API calls\<close>

datatype api_call = CallConnect string ConnectionMode | CallDisconnect | CallReconnect

datatype caller_choice =
    Go
  | Invoke api_call
  | Resolved "goerror + ServerProfile"
  | FreshID string
  | TimedOut

definition call_entry :: "api_call \<Rightarrow> caller_pc" where
  "call_entry c =
     (case c of CallConnect i m \<Rightarrow> C_Connect i m | CallDisconnect \<Rightarrow> D_Read
      | CallReconnect \<Rightarrow> R_Read)"

text \<open>Waiting for a run's \<open>done\<close> channel or for the timer.\<close>

definition await_done :: "nat \<Rightarrow> nat \<Rightarrow> caller_choice \<Rightarrow> caller_pc \<Rightarrow> caller_pc \<Rightarrow> svc \<Rightarrow> svc option"
where
  "await_done t i ch k late s =
     (case ch of
        Go \<Rightarrow> if rs_done (s_runs s ! i) then Some (call_goto t k s) else None
      | TimedOut \<Rightarrow> Some (call_goto t late s)
      | _ \<Rightarrow> None)"

definition caller_go :: "gotime \<Rightarrow> nat \<Rightarrow> caller_pc \<Rightarrow> svc \<Rightarrow> svc option" where
  "caller_go now t pc s =
     (case pc of
        C_Check p m \<Rightarrow> Some (connect_check t p m s)
      | C_Reap i p m \<Rightarrow>
          Some (call_goto t (C_ReapStop i p m) (run_upd i (\<lambda>r. r\<lparr>rs_cancelled := True\<rparr>) s))
      | C_ReapStop i p m \<Rightarrow> map_option (call_goto t (C_ReapWait i p m)) (tunnel_Stop s)
      | D_Read \<Rightarrow> Some (disconnect_read t s)
      | D_Reset \<Rightarrow>
          Some (call_goto t (C_Emit StateDisconnected) (s\<lparr>s_state := StateDisconnected\<rparr>))
      | D_Send i \<Rightarrow> Some (call_goto t (D_Wait i) (sendCmd i cmdDisconnect s))
      | D_Force \<Rightarrow> Some (forceDisconnect now t s)
      | D_ForceStop \<Rightarrow> map_option (call_goto t (C_Emit StateDisconnected)) (tunnel_Stop s)
      | R_Read \<Rightarrow> Some (reconnect_read t s)
      | R_Send i \<Rightarrow> Some (call_goto t (C_Return None) (sendCmd i cmdReconnect s))
      | C_Emit st \<Rightarrow> Some (call_goto t (C_Return None) (emitState st s))
      | _ \<Rightarrow> None)"

definition caller_step :: "gotime \<Rightarrow> nat \<Rightarrow> caller_choice \<Rightarrow> svc \<Rightarrow> svc option" where
  "caller_step now t ch s =
     (case s_callers s t of
        C_Idle \<Rightarrow> (case ch of Invoke c \<Rightarrow> Some (call_goto t (call_entry c) s) | _ \<Rightarrow> None)
      | C_Return r \<Rightarrow> (case ch of Invoke c \<Rightarrow> Some (call_goto t (call_entry c) s) | _ \<Rightarrow> None)
      | C_Connect serverID m \<Rightarrow>
          (case ch of
             Resolved (Inl e) \<Rightarrow> Some (call_goto t (C_Return (Some e)) s)
           | Resolved (Inr p) \<Rightarrow>
               Some (call_goto t (C_Check p (if mode_Valid m then m else ModeVPN)) s)
           | _ \<Rightarrow> None)
      | C_Commit p m \<Rightarrow>
          (case ch of FreshID x \<Rightarrow> Some (connect_commit now x t p m s) | _ \<Rightarrow> None)
      | C_ReapWait i p m \<Rightarrow> await_done t i ch (C_Commit p m) (C_Commit p m) s
      | D_Wait i \<Rightarrow> await_done t i ch (C_Return None) D_Force s
      | pc \<Rightarrow> if ch = Go then caller_go now t pc s else None)"

section \<open>Executions\<close>

datatype event =
    LoopEv nat loop_choice
  | CallEv nat caller_choice
  | AutoEv bool
  | RetryEv "RetryPolicy option"

definition vpn_exec :: "gotime \<Rightarrow> event \<Rightarrow> svc \<Rightarrow> svc option" where
  "vpn_exec now ev s =
     (case ev of
        LoopEv i ch \<Rightarrow> runLoop_step now i ch s
      | CallEv t ch \<Rightarrow> caller_step now t ch s
      | AutoEv on \<Rightarrow> Some (SetAutoReconnect on s)
      | RetryEv p \<Rightarrow> Some (SetRetryPolicy p s))"

fun vpn_run :: "(gotime \<times> event) list \<Rightarrow> svc \<Rightarrow> svc option" where
  "vpn_run [] s = Some s"
| "vpn_run ((now, ev) # evs) s =
     (case vpn_exec now ev s of None \<Rightarrow> None | Some s' \<Rightarrow> vpn_run evs s')"

text \<open>
  The reachable states under any interleaving; \<open>orderly\<close> events are those of a bridge that
  serialises its requests (both transports hold one mutex across a request) and whose
  waits on a run loop never time out.
\<close>

inductive vpn_step :: "svc \<Rightarrow> svc \<Rightarrow> bool" where
  step: "vpn_exec now ev s = Some s' \<Longrightarrow> vpn_step s s'"

inductive reachable :: "svc \<Rightarrow> bool" where
  init: "reachable NewService"
| more: "reachable s \<Longrightarrow> vpn_step s s' \<Longrightarrow> reachable s'"

definition orderly :: "event \<Rightarrow> bool" where
  "orderly ev = (case ev of CallEv t ch \<Rightarrow> t = 0 \<and> ch \<noteq> TimedOut | _ \<Rightarrow> True)"

inductive orderly_reachable :: "svc \<Rightarrow> bool" where
  init: "orderly_reachable NewService"
| more: "orderly_reachable s \<Longrightarrow> vpn_exec now ev s = Some s' \<Longrightarrow> orderly ev \<Longrightarrow>
     orderly_reachable s'"

inductive_cases vpn_stepE: "vpn_step s s'"

end
