(* ===== verification/Config_Engine.thy ===== *)
theory Config_Engine
  imports Omni_Models Secrets Go_JSON
begin

text \<open>
  The configuration engine (\<open>core/config/engine.go\<close>): the file store with its atomic
  write, and the encrypted settings document with loading, recovery and updates.

  The mapping between the document's struct and the JSON tree is modelled field by field as
  \<open>encoding/json\<close> does it. AES-GCM is the parameter of the sealing functions. System calls
  may fail at any point: their outcome is a function of the call.
\<close>

section \<open>The document\<close>

record configDoc =
  cd_Version :: int
  cd_Settings :: AppSettings

definition zero_settings :: AppSettings where
  "zero_settings =
     \<lparr>as_Theme = '''', as_ConnectionMode = '''', as_AutoConnect = False, as_StartWithSystem = False,
      as_AdvancedModeEnabled = False, as_NotificationsEnabled = False, as_LogLevel = '''',
      as_IPv6Mode = ''''\<rparr>"

definition zero_doc :: configDoc where
  "zero_doc = \<lparr>cd_Version = 0, cd_Settings = zero_settings\<rparr>"

definition settings_json :: "AppSettings \<Rightarrow> json" where
  "settings_json s =
     JObject
       [(''theme'', JString (as_Theme s)), (''connectionMode'', JString (as_ConnectionMode s)),
        (''autoConnect'', JBool (as_AutoConnect s)), (''startWithSystem'', JBool (as_StartWithSystem s)),
        (''advancedModeEnabled'', JBool (as_AdvancedModeEnabled s)),
        (''notificationsEnabled'', JBool (as_NotificationsEnabled s)),
        (''logLevel'', JString (as_LogLevel s)), (''ipv6Mode'', JString (as_IPv6Mode s))]"

definition settings_field :: "string \<Rightarrow> json \<Rightarrow> AppSettings \<Rightarrow> AppSettings option" where
  "settings_field k v s =
     (if k = ''theme'' then into_string (\<lambda>x. as_Theme_update (\<lambda>_. x)) v s
      else if k = ''connectionmode'' then into_string (\<lambda>x. as_ConnectionMode_update (\<lambda>_. x)) v s
      else if k = ''autoconnect'' then into_bool (\<lambda>x. as_AutoConnect_update (\<lambda>_. x)) v s
      else if k = ''startwithsystem'' then into_bool (\<lambda>x. as_StartWithSystem_update (\<lambda>_. x)) v s
      else if k = ''advancedmodeenabled'' then into_bool (\<lambda>x. as_AdvancedModeEnabled_update (\<lambda>_. x)) v s
      else if k = ''notificationsenabled'' then into_bool (\<lambda>x. as_NotificationsEnabled_update (\<lambda>_. x)) v s
      else if k = ''loglevel'' then into_string (\<lambda>x. as_LogLevel_update (\<lambda>_. x)) v s
      else if k = ''ipv6mode'' then into_string (\<lambda>x. as_IPv6Mode_update (\<lambda>_. x)) v s
      else Some s)"

definition doc_json :: "configDoc \<Rightarrow> json" where
  "doc_json d = JObject [(''version'', JInt (cd_Version d)), (''settings'', settings_json (cd_Settings d))]"

definition doc_field :: "string \<Rightarrow> json \<Rightarrow> configDoc \<Rightarrow> configDoc option" where
  "doc_field k v d =
     (if k = ''version'' then into_int (\<lambda>x. cd_Version_update (\<lambda>_. x)) v d
      else if k = ''settings'' then
        map_option (\<lambda>s. d\<lparr>cd_Settings := s\<rparr>) (into_object settings_field v (cd_Settings d))
      else Some d)"

definition json_doc :: "json \<Rightarrow> configDoc option" where
  "json_doc v = into_object doc_field v zero_doc"

lemma ToLower_keys:
  "ToLower ''connectionMode'' = ''connectionmode''" "ToLower ''autoConnect'' = ''autoconnect''"
  "ToLower ''startWithSystem'' = ''startwithsystem''"
  "ToLower ''advancedModeEnabled'' = ''advancedmodeenabled''"
  "ToLower ''notificationsEnabled'' = ''notificationsenabled''"
  "ToLower ''logLevel'' = ''loglevel''" "ToLower ''ipv6Mode'' = ''ipv6mode''"
  "ToLower ''theme'' = ''theme''" "ToLower ''version'' = ''version''"
  "ToLower ''settings'' = ''settings''"
  by code_simp+

lemma settings_roundtrip: "into_object settings_field (settings_json s) z = Some s"
  by (simp add: into_object_def settings_json_def ToLower_keys settings_field_def into_string_def
    into_bool_def)

lemma doc_roundtrip: "- (2 ^ 63) \<le> cd_Version d \<Longrightarrow> cd_Version d < 2 ^ 63 \<Longrightarrow> json_doc (doc_json d) = Some d"
  by (simp add: json_doc_def into_object_def [of doc_field] doc_json_def ToLower_keys doc_field_def
    into_int_def settings_roundtrip)

text \<open>The printed document consists of fixed words, so the parser reads it back.\<close>

lemma settings_words_utf8:
  assumes "settings_ok s"
  shows "valid_utf8 (as_Theme s)" "valid_utf8 (as_ConnectionMode s)" "valid_utf8 (as_LogLevel s)"
    "valid_utf8 (as_IPv6Mode s)"
  using assms by (auto simp: settings_ok_def mode_Valid_def level_Valid_def ipv6_Valid_def)

lemma doc_json_ok: "settings_ok (cd_Settings d) \<Longrightarrow> json_ok (doc_json d)"
  by (simp add: doc_json_def settings_json_def settings_words_utf8)

section \<open>The file store\<close>

datatype fs_call = OpRead | OpMkdirAll | OpCreateTemp | OpWrite | OpChmod | OpSync | OpClose | OpRename

type_synonym files = "string \<rightharpoonup> string"
type_synonym faults = "fs_call \<Rightarrow> goerror option"

definition errNotExist :: goerror where
  "errNotExist = GoError ErrNotExist ''config: not found''"

definition file_Load :: "faults \<Rightarrow> string \<Rightarrow> files \<Rightarrow> goerror + string" where
  "file_Load fault path fs =
     (case fault OpRead of
        Some e \<Rightarrow> Inl e
      | None \<Rightarrow> (case fs path of None \<Rightarrow> Inl errNotExist | Some b \<Rightarrow> Inr b))"

text \<open>The system calls of \<open>Save\<close> in order, each with its effect on the files.\<close>

definition save_calls :: "string \<Rightarrow> string \<Rightarrow> string \<Rightarrow> (fs_call \<times> (files \<Rightarrow> files)) list" where
  "save_calls tmp path data =
     [(OpMkdirAll, id), (OpCreateTemp, \<lambda>fs. fs(tmp \<mapsto> '''')), (OpWrite, \<lambda>fs. fs(tmp \<mapsto> data)),
      (OpChmod, id), (OpSync, id), (OpClose, id),
      (OpRename, \<lambda>fs. (fs(path := fs tmp))(tmp := None))]"

fun run_calls :: "faults \<Rightarrow> (fs_call \<times> (files \<Rightarrow> files)) list \<Rightarrow> files \<Rightarrow> goerror option \<times> files list" where
  "run_calls fault [] fs = (None, [fs])"
| "run_calls fault ((c, f) # cs) fs =
     (case fault c of
        Some e \<Rightarrow> (Some e, [fs])
      | None \<Rightarrow> (fst (run_calls fault cs (f fs)), fs # snd (run_calls fault cs (f fs))))"

text \<open>The files at the points between the system calls, and the result of \<open>Save\<close>: the
  deferred removal of the temporary file runs once it was created.\<close>

definition save_trace :: "faults \<Rightarrow> string \<Rightarrow> string \<Rightarrow> string \<Rightarrow> files \<Rightarrow> goerror option \<times> files list" where
  "save_trace fault tmp path data fs = run_calls fault (save_calls tmp path data) fs"

definition file_Save :: "faults \<Rightarrow> string \<Rightarrow> string \<Rightarrow> string \<Rightarrow> files \<Rightarrow> goerror option \<times> files" where
  "file_Save fault tmp path data fs =
     (let (err, states) = save_trace fault tmp path data fs;
          created = (fault OpMkdirAll = None \<and> fault OpCreateTemp = None)
      in (err, if created then (last states)(tmp := None) else last states))"

definition file_backup :: "faults \<Rightarrow> string \<Rightarrow> string \<Rightarrow> files \<Rightarrow> files" where
  "file_backup fault bak path fs =
     (if fault OpRename = None \<and> fs path \<noteq> None then (fs(bak := fs path))(path := None) else fs)"

section \<open>The engine\<close>

record 's ConfigOps =
  co_Load :: "'s \<Rightarrow> goerror + string"
  co_Save :: "string \<Rightarrow> 's \<Rightarrow> goerror option \<times> 's"
  co_Backup :: "'s \<Rightarrow> 's"

definition file_ops :: "faults \<Rightarrow> string \<Rightarrow> string \<Rightarrow> string \<Rightarrow> files ConfigOps" where
  "file_ops fault tmp bak path =
     \<lparr>co_Load = file_Load fault path, co_Save = file_Save fault tmp path,
      co_Backup = file_backup fault bak path\<rparr>"

text \<open>What the engine gets from outside at one call: the cipher and a nonce.\<close>

record env =
  en_aead :: AEAD
  en_nonce :: "goerror + string"

definition default_doc :: configDoc where
  "default_doc = \<lparr>cd_Version = 1, cd_Settings = DefaultAppSettings\<rparr>"

definition saveLocked :: "'s ConfigOps \<Rightarrow> env \<Rightarrow> string \<Rightarrow> configDoc \<Rightarrow> 's \<Rightarrow> goerror option \<times> 's" where
  "saveLocked ops env key cfg s =
     (let doc = \<lparr>cd_Version = 1, cd_Settings = Normalize (cd_Settings cfg)\<rparr>;
          plain = json_print (doc_json doc)
      in case Seal (en_aead env) (en_nonce env) key plain of
           Inl e \<Rightarrow> (Some e, s)
         | Inr sealed \<Rightarrow>
             (case co_Save ops sealed s of
                (Some e, s') \<Rightarrow> (Some (wrap ''config: persist: '' e), s')
              | (None, s') \<Rightarrow> (None, s')))"

definition recoverCorrupt :: "'s ConfigOps \<Rightarrow> env \<Rightarrow> string \<Rightarrow> 's \<Rightarrow> configDoc \<times> 's" where
  "recoverCorrupt ops env key s =
     (default_doc, snd (saveLocked ops env key default_doc (co_Backup ops s)))"

definition decode_doc :: "env \<Rightarrow> string \<Rightarrow> string \<Rightarrow> configDoc option" where
  "decode_doc env key raw =
     (case Open (en_aead env) key raw of
        Inl e \<Rightarrow> None
      | Inr plain \<Rightarrow>
          (case json_parse plain of None \<Rightarrow> None | Some j \<Rightarrow> json_doc j))"

definition load :: "'s ConfigOps \<Rightarrow> env \<Rightarrow> string \<Rightarrow> 's \<Rightarrow> (goerror + configDoc) \<times> 's" where
  "load ops env key s =
     (case co_Load ops s of
        Inl e \<Rightarrow>
          (if err_is e = ErrNotExist then
             (case saveLocked ops env key default_doc s of
                (Some e', s') \<Rightarrow> (Inl e', s') | (None, s') \<Rightarrow> (Inr default_doc, s'))
           else (Inl e, s))
      | Inr raw \<Rightarrow>
          (case decode_doc env key raw of
             None \<Rightarrow> (let (cfg, s') = recoverCorrupt ops env key s in (Inr cfg, s'))
           | Some doc \<Rightarrow> (Inr (doc\<lparr>cd_Settings := Normalize (cd_Settings doc)\<rparr>), s)))"

definition config_New ::
  "'k SecretOps \<Rightarrow> goerror + string \<Rightarrow> 's ConfigOps \<Rightarrow> env \<Rightarrow> 'k \<Rightarrow> 's \<Rightarrow>
   (goerror + string \<times> configDoc) \<times> 'k \<times> 's" where
  "config_New sops rnd ops env ks s =
     (case GetOrCreateDataKey sops rnd '''' ks of
        (Inl e, ks') \<Rightarrow> (Inl (wrap ''config: data key: '' e), ks', s)
      | (Inr key, ks') \<Rightarrow>
          (case load ops env key s of
             (Inl e, s') \<Rightarrow> (Inl e, ks', s')
           | (Inr cfg, s') \<Rightarrow> (Inr (key, cfg), ks', s')))"

definition UpdateSettings ::
  "'s ConfigOps \<Rightarrow> env \<Rightarrow> string \<Rightarrow> AppSettings \<Rightarrow> configDoc \<Rightarrow> 's \<Rightarrow>
   (goerror + AppSettings) \<times> configDoc \<times> 's" where
  "UpdateSettings ops env key settings cfg s =
     (let n = Normalize settings;
          cfg' = cfg\<lparr>cd_Settings := n\<rparr>
      in case saveLocked ops env key cfg' s of
           (Some e, s') \<Rightarrow> (Inl e, cfg', s')
         | (None, s') \<Rightarrow> (Inr n, cfg', s'))"

section \<open>The store's contract\<close>

locale config_store =
  fixes ops :: "'s ConfigOps"
  assumes save_ok: "co_Save ops d s = (None, s') \<Longrightarrow> co_Load ops s' = Inr d"
    and save_failed: "co_Save ops d s = (Some e, s') \<Longrightarrow> co_Load ops s' = co_Load ops s"
begin

lemma saveLocked_load:
  assumes "saveLocked ops env key cfg s = (None, s')"
    and aead: "\<And>k n p. length k = 32 \<Longrightarrow> length n = NonceSize \<Longrightarrow>
      gcm_Open (en_aead env) k n (gcm_Seal (en_aead env) k n p) = Some p"
    and "length key = 32" "\<And>n. en_nonce env = Inr n \<Longrightarrow> length n = NonceSize"
  shows "load ops (env\<lparr>en_nonce := r\<rparr>) key s' = (Inr \<lparr>cd_Version = 1, cd_Settings = Normalize (cd_Settings cfg)\<rparr>, s')"
proof -
  let ?d = "\<lparr>cd_Version = 1, cd_Settings = Normalize (cd_Settings cfg)\<rparr> :: configDoc"
  let ?p = "json_print (doc_json ?d)"
  obtain sealed where sealed: "Seal (en_aead env) (en_nonce env) key ?p = Inr sealed"
    "co_Save ops sealed s = (None, s')"
    using assms(1) by (auto simp: saveLocked_def Let_def split: sum.splits prod.splits option.splits)
  then obtain n where n: "en_nonce env = Inr n" "sealed = n @ gcm_Seal (en_aead env) key n ?p"
    by (auto simp: Seal_def split: option.splits sum.splits)
  have "Open (en_aead env) key sealed = Inr ?p"
    using n assms(3,4) aead by (simp add: Open_def newGCM_def)
  moreover have "json_doc (doc_json ?d) = Some ?d" by (rule doc_roundtrip) simp_all
  ultimately have "decode_doc (env\<lparr>en_nonce := r\<rparr>) key sealed = Some ?d"
    using json_roundtrip [OF doc_json_ok [of ?d]] by (simp add: decode_doc_def)
  then show ?thesis
    using save_ok [OF sealed(2)] by (simp add: load_def Normalize_idem)
qed

lemma saveLocked_failed:
  assumes "saveLocked ops env key cfg s = (Some e, s')"
  shows "co_Load ops s' = co_Load ops s"
  using assms save_failed by (auto simp: saveLocked_def Let_def split: sum.splits prod.splits option.splits)

end

lemma save_trace_path:
  assumes "tmp \<noteq> path" "f \<in> set (snd (save_trace fault tmp path data fs))"
  shows "f path \<in> {fs path, Some data}"
  using assms by (auto simp: save_trace_def save_calls_def split: option.splits)

lemma file_Save_result:
  assumes "tmp \<noteq> path"
  shows "(case fst (file_Save fault tmp path data fs) of
      None \<Rightarrow> snd (file_Save fault tmp path data fs) = fs(path \<mapsto> data, tmp := None)
    | Some e \<Rightarrow> \<forall>p. p \<noteq> tmp \<longrightarrow> snd (file_Save fault tmp path data fs) p = fs p)"
  using assms by (auto simp: file_Save_def save_trace_def save_calls_def Let_def split: option.splits)

lemma file_config_store:
  assumes "tmp \<noteq> path" "fault OpRead = None"
  shows "config_store (file_ops fault tmp bak path)"
proof
  fix d s s'
  assume "co_Save (file_ops fault tmp bak path) d s = (None, s')"
  then show "co_Load (file_ops fault tmp bak path) s' = Inr d"
    using file_Save_result [OF assms(1), of fault d s] assms
    by (auto simp: file_ops_def file_Load_def)
next
  fix d s e s'
  assume "co_Save (file_ops fault tmp bak path) d s = (Some e, s')"
  then show "co_Load (file_ops fault tmp bak path) s' = co_Load (file_ops fault tmp bak path) s"
    using file_Save_result [OF assms(1), of fault d s] assms
    by (auto simp: file_ops_def file_Load_def)
qed

text \<open>The contract holds of the file store whenever reads succeed; in particular of a disk
  without faults.\<close>

definition disk_ops :: "files ConfigOps" where
  "disk_ops = file_ops (\<lambda>_. None) ''/data/.omniproxy-1.tmp'' ''/data/config.corrupt.1'' ''/data/config''"

interpretation disk: config_store disk_ops
  unfolding disk_ops_def by (rule file_config_store) simp_all

section \<open>Properties\<close>

text \<open>C38: writing the configuration file is atomic: at every point between the system calls of
  \<open>Save\<close>, whichever of them fails, the file holds its old content or the new one in full.
  \<open>Save\<close> returns nil exactly with the new content in place and the temporary file gone; when
  it returns an error every other file, the configuration included, is as before.\<close>

theorem file_save_atomic:
  assumes "tmp \<noteq> path"
  shows "(\<forall>f \<in> set (snd (save_trace fault tmp path data fs)). f path \<in> {fs path, Some data}) \<and>
    (case file_Save fault tmp path data fs of
       (None, fs') \<Rightarrow> fs' = fs(path \<mapsto> data, tmp := None)
     | (Some e, fs') \<Rightarrow> \<forall>p. p \<noteq> tmp \<longrightarrow> fs' p = fs p)"
proof -
  obtain err fs' where r: "file_Save fault tmp path data fs = (err, fs')" by fastforce
  show ?thesis
    using save_trace_path [OF assms] file_Save_result [OF assms, of fault data fs]
    by (cases err) (simp_all add: r)
qed

theorem file_save_atomic_witness:
  "\<exists>fs'. file_Save (\<lambda>c. if c = OpSync then Some (plain_error ''io'') else None) ''t'' ''p'' ''new''
      [''p'' \<mapsto> ''old''] = (Some (plain_error ''io''), fs') \<and> fs' ''p'' = Some ''old''"
proof -
  let ?fault = "\<lambda>c. if c = OpSync then Some (plain_error ''io'') else None"
  obtain err fs' where r: "file_Save ?fault ''t'' ''p'' ''new'' [''p'' \<mapsto> ''old''] = (err, fs')"
    by fastforce
  then have "err = Some (plain_error ''io'')"
    by (auto simp: file_Save_def save_trace_def save_calls_def)
  with r file_save_atomic [of "''t''" "''p''" ?fault "''new''" "[''p'' \<mapsto> ''old'']"] show ?thesis
    by simp
qed

text \<open>C39: settings survive a restart. After a successful update on the file store, loading with
  the same key (and any later nonce) returns exactly the normalised settings the update
  returned, without an error and without touching the files; after a failed update the file
  still loads as before, while the engine's memory already holds the new settings.\<close>

theorem settings_survive_restart:
  assumes "tmp \<noteq> path" "fault OpRead = None" "length key = 32"
    and nonce: "\<And>n. en_nonce env = Inr n \<Longrightarrow> length n = NonceSize"
    and aead: "\<And>k n p. length k = 32 \<Longrightarrow> length n = NonceSize \<Longrightarrow>
      gcm_Open (en_aead env) k n (gcm_Seal (en_aead env) k n p) = Some p"
    and "UpdateSettings (file_ops fault tmp bak path) env key settings cfg fs = (res, cfg', fs')"
  shows "cd_Settings cfg' = Normalize settings \<and>
    (case res of
       Inr n \<Rightarrow> n = Normalize settings \<and>
         load (file_ops fault tmp bak path) (env\<lparr>en_nonce := r\<rparr>) key fs' =
           (Inr \<lparr>cd_Version = 1, cd_Settings = n\<rparr>, fs')
     | Inl e \<Rightarrow> file_Load fault path fs' = file_Load fault path fs)"
proof -
  let ?ops = "file_ops fault tmp bak path"
  let ?cfg = "cfg\<lparr>cd_Settings := Normalize settings\<rparr>"
  have store: "config_store ?ops" using assms(1,2) by (rule file_config_store)
  show ?thesis
  proof (cases "saveLocked ?ops env key ?cfg fs")
    case (Pair err f)
    show ?thesis
    proof (cases err)
      case None
      with Pair config_store.saveLocked_load [OF store, of env key ?cfg fs f] assms(3,6) nonce aead
      show ?thesis by (auto simp: UpdateSettings_def Let_def Normalize_idem)
    next
      case (Some e)
      with Pair config_store.saveLocked_failed [OF store, of env key ?cfg fs e f] assms(6)
      show ?thesis by (auto simp: UpdateSettings_def Let_def file_ops_def)
    qed
  qed
qed

definition demo_env :: env where
  "demo_env = \<lparr>en_aead = demo_aead, en_nonce = Inr (replicate 12 CHR ''n'')\<rparr>"

lemma demo_env_ok:
  "\<And>n. en_nonce demo_env = Inr n \<Longrightarrow> length n = NonceSize"
  "\<And>k n p. length k = 32 \<Longrightarrow> length n = NonceSize \<Longrightarrow>
      gcm_Open (en_aead demo_env) k n (gcm_Seal (en_aead demo_env) k n p) = Some p"
proof -
  show "length n = NonceSize" if "en_nonce demo_env = Inr n" for n
  proof -
    have "n = replicate 12 CHR ''n''" using that by (simp only: demo_env_def env.select_convs sum.inject)
    then show ?thesis by (simp only: length_replicate NonceSize_def)
  qed
  show "gcm_Open (en_aead demo_env) k n (gcm_Seal (en_aead demo_env) k n p) = Some p" for k n p
    by (simp add: demo_env_def demo_aead_correct)
qed

lemma demo_save_ok:
  assumes "length k = 32"
  shows "\<exists>fs'. saveLocked disk_ops demo_env k cfg fs = (None, fs')"
proof -
  have "\<exists>c. Seal (en_aead demo_env) (en_nonce demo_env) k p = Inr c" for p
    using assms by (simp add: Seal_def newGCM_def demo_env_def)
  moreover have "\<exists>fs'. co_Save disk_ops c fs = (None, fs')" for c
    by (simp add: disk_ops_def file_ops_def file_Save_def save_trace_def save_calls_def)
  ultimately obtain c fs' where
    "Seal (en_aead demo_env) (en_nonce demo_env) k (json_print
       (doc_json \<lparr>cd_Version = 1, cd_Settings = Normalize (cd_Settings cfg)\<rparr>)) = Inr c"
    "co_Save disk_ops c fs = (None, fs')"
    by blast
  then show ?thesis by (simp add: saveLocked_def Let_def)
qed

theorem settings_survive_restart_witness:
  "\<exists>fs'. UpdateSettings disk_ops demo_env (replicate 32 CHR ''k'')
        (DefaultAppSettings\<lparr>as_Theme := ''neon'', as_AutoConnect := True\<rparr>) default_doc Map.empty =
      (Inr (DefaultAppSettings\<lparr>as_AutoConnect := True\<rparr>),
       default_doc\<lparr>cd_Settings := DefaultAppSettings\<lparr>as_AutoConnect := True\<rparr>\<rparr>, fs') \<and>
    load disk_ops demo_env (replicate 32 CHR ''k'') fs' =
      (Inr \<lparr>cd_Version = 1, cd_Settings = DefaultAppSettings\<lparr>as_AutoConnect := True\<rparr>\<rparr>, fs')"
proof -
  let ?s = "DefaultAppSettings\<lparr>as_Theme := ''neon'', as_AutoConnect := True\<rparr>"
  let ?n = "DefaultAppSettings\<lparr>as_AutoConnect := True\<rparr>"
  define k where "k = replicate 32 CHR ''k''"
  have len: "length k = 32" by (simp add: k_def)
  have norm: "Normalize ?s = ?n"
    by (simp add: Normalize_def DefaultAppSettings_def mode_Valid_def level_Valid_def ipv6_Valid_def)
  obtain fs' where "saveLocked disk_ops demo_env k (default_doc\<lparr>cd_Settings := ?n\<rparr>) Map.empty = (None, fs')"
    using demo_save_ok [OF len] by blast
  then have upd: "UpdateSettings disk_ops demo_env k ?s default_doc Map.empty =
      (Inr ?n, default_doc\<lparr>cd_Settings := ?n\<rparr>, fs')"
    by (simp only: UpdateSettings_def Let_def norm prod.case option.case)
  have env: "demo_env\<lparr>en_nonce := en_nonce demo_env\<rparr> = demo_env" by simp
  have "load disk_ops demo_env k fs' = (Inr \<lparr>cd_Version = 1, cd_Settings = ?n\<rparr>, fs')"
    using settings_survive_restart [OF _ _ len demo_env_ok upd [unfolded disk_ops_def], of "en_nonce demo_env"]
    by (simp add: disk_ops_def)
  with upd show ?thesis unfolding k_def by blast
qed

text \<open>A corrupt or tampered document never stops the start: when the stored bytes do not
  open and parse to a document, loading succeeds with the default settings whatever fails
  during recovery; on a disk without faults the old bytes are kept under the backup name and
  the file then loads as the defaults.\<close>

theorem corrupt_config_recovers:
  assumes "fs path = Some raw" "fault OpRead = None" "decode_doc env key raw = None"
  shows "\<exists>fs'. load (file_ops fault tmp bak path) env key fs = (Inr default_doc, fs') \<and>
    (fault = (\<lambda>_. None) \<and> path \<noteq> tmp \<and> bak \<noteq> tmp \<and> bak \<noteq> path \<longrightarrow>
       fs' bak = Some raw \<and>
       (\<forall>sealed. Seal (en_aead env) (en_nonce env) key (json_print (doc_json default_doc)) =
          Inr sealed \<longrightarrow> fs' path = Some sealed))"
proof -
  have def: "\<lparr>cd_Version = 1, cd_Settings = Normalize (cd_Settings default_doc)\<rparr> = default_doc"
    by (simp add: default_doc_def Normalize_id)
  have "load (file_ops fault tmp bak path) env key fs =
      (Inr default_doc, snd (recoverCorrupt (file_ops fault tmp bak path) env key fs))"
    using assms by (simp add: load_def file_ops_def file_Load_def recoverCorrupt_def)
  moreover have "snd (recoverCorrupt (file_ops (\<lambda>_. None) tmp bak path) env key fs) bak = Some raw \<and>
      (\<forall>sealed. Seal (en_aead env) (en_nonce env) key (json_print (doc_json default_doc)) =
          Inr sealed \<longrightarrow>
         snd (recoverCorrupt (file_ops (\<lambda>_. None) tmp bak path) env key fs) path = Some sealed)"
    if "path \<noteq> tmp" "bak \<noteq> tmp" "bak \<noteq> path"
    using that assms(1)
    by (auto simp: recoverCorrupt_def saveLocked_def Let_def def file_ops_def file_backup_def
      file_Save_def save_trace_def save_calls_def split: sum.split)
  ultimately show ?thesis by blast
qed

theorem corrupt_config_recovers_witness:
  "\<exists>fs'. load disk_ops demo_env (replicate 32 CHR ''k'') [''/data/config'' \<mapsto> ''tampered''] =
     (Inr default_doc, fs') \<and> fs' ''/data/config.corrupt.1'' = Some ''tampered''"
proof -
  have "decode_doc demo_env (replicate 32 CHR ''k'') ''tampered'' = None"
    by (simp add: decode_doc_def Open_def newGCM_def NonceSize_def)
  with corrupt_config_recovers [of "[''/data/config'' \<mapsto> ''tampered'']" "''/data/config''" "''tampered''"
      "\<lambda>_. None" demo_env "replicate 32 CHR ''k''" "''/data/.omniproxy-1.tmp''" "''/data/config.corrupt.1''"]
  show ?thesis by (auto simp: disk_ops_def)
qed

end
