(* ===== verification/Bridge_API.thy ===== *)
theory Bridge_API
  imports Server_Exchange VPN_Service Config_Engine Logging "HOL-Library.List_Lexorder" "HOL-Library.Char_ord"
begin

text \<open>
  The bridge contract (\<open>core/api/contract.go\<close>, \<open>handler.go\<close>) and the dispatcher
  (\<open>core/api/dispatch.go\<close>): requests read from JSON, a response per method, the canonical
  envelope, and the routing of a request onto a handler. The handler is a record of operations over
  a state; an operation that does not return, because the schedule of the other goroutines it waits
  for does not let it, is the value \<open>None\<close>. Errors of the JSON decoder have one fixed text.
\<close>

section \<open>Methods, codes and envelopes\<close>

definition methods :: "string list" where
  "methods =
     [''getVersion'', ''listServers'', ''getServer'', ''addServer'', ''updateServer'', ''deleteServer'',
      ''duplicateServer'', ''importServers'', ''exportServers'', ''testServerLatency'', ''connect'', ''disconnect'',
      ''getConnectionState'', ''getLogs'', ''getSettings'', ''updateSettings'', ''subscribe'', ''unsubscribe'']"

abbreviation (input) EventStateChanged :: string where "EventStateChanged \<equiv> ''stateChanged''"
abbreviation (input) EventLogAppended :: string where "EventLogAppended \<equiv> ''logAppended''"
abbreviation (input) EventLatencyTested :: string where "EventLatencyTested \<equiv> ''latencyTested''"

abbreviation (input) ErrCodeNotFound :: string where "ErrCodeNotFound \<equiv> ''not_found''"
abbreviation (input) ErrCodeInvalidArgument :: string where "ErrCodeInvalidArgument \<equiv> ''invalid_argument''"
abbreviation (input) ErrCodeValidation :: string where "ErrCodeValidation \<equiv> ''validation_failed''"
abbreviation (input) ErrCodeConnected :: string where "ErrCodeConnected \<equiv> ''connected''"
abbreviation (input) ErrCodeInternal :: string where "ErrCodeInternal \<equiv> ''internal''"

definition error_codes :: "string list" where
  "error_codes =
     [ErrCodeNotFound, ErrCodeInvalidArgument, ErrCodeValidation, ErrCodeEngine, ErrCodeBusy, ErrCodeConnected,
      ErrCodeUnauthorized, ErrCodeInternal]"

record Error =
  er_Code :: string
  er_Message :: string

section \<open>Requests\<close>

record IDRequest =
  iq_ID :: string

type_synonym DuplicateRequest = IDRequest
type_synonym LatencyRequest = IDRequest

record ServerRequest =
  vq_Server :: "ServerProfile option"

record ImportSource =
  is_Kind :: string
  is_Data :: string

record ImportRequest =
  mq_Source :: ImportSource

record ExportRequest =
  xq_IDs :: "string list"
  xq_Format :: string

record ServerListRequest =
  lq_Search :: string
  lq_Protocol :: string
  lq_Group :: string
  lq_Enabled :: "bool option"
  lq_Favorite :: "bool option"
  lq_Sort :: string

record ConnectRequest =
  cq_ServerID :: string
  cq_Mode :: ConnectionMode

record LogsRequest =
  gq_AfterSeq :: "64 word"
  gq_Limit :: int

record SettingsRequest =
  sq_Settings :: AppSettings

record SubscribeRequest =
  bq_Events :: "string list"

definition into_uint64 :: "(64 word \<Rightarrow> 'a \<Rightarrow> 'a) \<Rightarrow> json \<Rightarrow> 'a \<Rightarrow> 'a option" where
  "into_uint64 f v a =
     (case v of
        JNull \<Rightarrow> Some a
      | JInt i \<Rightarrow> if 0 \<le> i \<and> i < 2 ^ 64 then Some (f (word_of_int i) a) else None
      | _ \<Rightarrow> None)"

definition id_field :: "string \<Rightarrow> json \<Rightarrow> IDRequest \<Rightarrow> IDRequest option" where
  "id_field k v r = (if k = ''id'' then into_string (\<lambda>x. iq_ID_update (\<lambda>_. x)) v r else Some r)"

definition server_field :: "string \<Rightarrow> json \<Rightarrow> ServerRequest \<Rightarrow> ServerRequest option" where
  "server_field k v r =
     (if k = ''server'' then into_pointer zero_profile into_profile vq_Server (\<lambda>x. vq_Server_update (\<lambda>_. x)) v r
      else Some r)"

definition source_field :: "string \<Rightarrow> json \<Rightarrow> ImportSource \<Rightarrow> ImportSource option" where
  "source_field k v r =
     (if k = ''kind'' then into_string (\<lambda>x. is_Kind_update (\<lambda>_. x)) v r
      else if k = ''data'' then into_string (\<lambda>x. is_Data_update (\<lambda>_. x)) v r
      else Some r)"

definition import_field :: "string \<Rightarrow> json \<Rightarrow> ImportRequest \<Rightarrow> ImportRequest option" where
  "import_field k v r =
     (if k = ''source'' then map_option (\<lambda>x. r\<lparr>mq_Source := x\<rparr>) (into_object source_field v (mq_Source r)) else Some r)"

definition export_field :: "string \<Rightarrow> json \<Rightarrow> ExportRequest \<Rightarrow> ExportRequest option" where
  "export_field k v r =
     (if k = ''ids'' then into_strings (\<lambda>x. xq_IDs_update (\<lambda>_. x)) v r
      else if k = ''format'' then into_string (\<lambda>x. xq_Format_update (\<lambda>_. x)) v r
      else Some r)"

definition list_field :: "string \<Rightarrow> json \<Rightarrow> ServerListRequest \<Rightarrow> ServerListRequest option" where
  "list_field k v r =
     (if k = ''search'' then into_string (\<lambda>x. lq_Search_update (\<lambda>_. x)) v r
      else if k = ''protocol'' then into_string (\<lambda>x. lq_Protocol_update (\<lambda>_. x)) v r
      else if k = ''group'' then into_string (\<lambda>x. lq_Group_update (\<lambda>_. x)) v r
      else if k = ''enabled'' then
        into_pointer False (into_bool (\<lambda>x _. x)) lq_Enabled (\<lambda>x. lq_Enabled_update (\<lambda>_. x)) v r
      else if k = ''favorite'' then
        into_pointer False (into_bool (\<lambda>x _. x)) lq_Favorite (\<lambda>x. lq_Favorite_update (\<lambda>_. x)) v r
      else if k = ''sort'' then into_string (\<lambda>x. lq_Sort_update (\<lambda>_. x)) v r
      else Some r)"

definition connect_field :: "string \<Rightarrow> json \<Rightarrow> ConnectRequest \<Rightarrow> ConnectRequest option" where
  "connect_field k v r =
     (if k = ''serverid'' then into_string (\<lambda>x. cq_ServerID_update (\<lambda>_. x)) v r
      else if k = ''mode'' then into_string (\<lambda>x. cq_Mode_update (\<lambda>_. x)) v r
      else Some r)"

definition logs_field :: "string \<Rightarrow> json \<Rightarrow> LogsRequest \<Rightarrow> LogsRequest option" where
  "logs_field k v r =
     (if k = ''afterseq'' then into_uint64 (\<lambda>x. gq_AfterSeq_update (\<lambda>_. x)) v r
      else if k = ''limit'' then into_int (\<lambda>x. gq_Limit_update (\<lambda>_. x)) v r
      else Some r)"

definition settings_request_field :: "string \<Rightarrow> json \<Rightarrow> SettingsRequest \<Rightarrow> SettingsRequest option" where
  "settings_request_field k v r =
     (if k = ''settings'' then map_option (\<lambda>x. r\<lparr>sq_Settings := x\<rparr>) (into_object settings_field v (sq_Settings r))
      else Some r)"

definition subscribe_field :: "string \<Rightarrow> json \<Rightarrow> SubscribeRequest \<Rightarrow> SubscribeRequest option" where
  "subscribe_field k v r = (if k = ''events'' then into_strings (\<lambda>x. bq_Events_update (\<lambda>_. x)) v r else Some r)"

definition errDecode :: goerror where
  "errDecode = plain_error ''invalid JSON request''"

definition decode :: "(string \<Rightarrow> json \<Rightarrow> 'a \<Rightarrow> 'a option) \<Rightarrow> 'a \<Rightarrow> string \<Rightarrow> goerror + 'a" where
  "decode field zero requestJSON =
     (if TrimSpace requestJSON = '''' then Inr zero
      else (case Option.bind (json_parse requestJSON) (\<lambda>j. into_object field j zero) of
              None \<Rightarrow> Inl errDecode
            | Some r \<Rightarrow> Inr r))"

section \<open>Responses\<close>

record GetVersionResponse =
  vr_Version :: string
  vr_EngineVersion :: string
  vr_Platform :: string

record IDResponse =
  ir_ID :: string

record ImportResponse =
  mr_Added :: nat
  mr_Failed :: nat
  mr_Errors :: "ImportError list"

record ExportResponse =
  xr_Format :: string
  xr_Blob :: string

record LatencyResponse =
  ar_LatencyMS :: int

record StateResponse =
  sr_State :: ConnectionState
  sr_Session :: "VPNSession option"

record LogsResponse =
  gr_Logs :: "LogEntry list"

record SettingsResponse =
  tr_Settings :: AppSettings

record ServerListResponse =
  lr_Servers :: "ServerProfile list"

text \<open>What the \<open>data\<close> field of a response can hold.\<close>

datatype payload =
    DataVersion GetVersionResponse
  | DataServers ServerListResponse
  | DataServer ServerProfile
  | DataID IDResponse
  | DataImport ImportResponse
  | DataExport ExportResponse
  | DataLatency LatencyResponse
  | DataState StateResponse
  | DataLogs LogsResponse
  | DataSettings SettingsResponse

record Response =
  rp_OK :: bool
  rp_Data :: "payload option"
  rp_Error :: "Error option"

text \<open>A nil slice is \<open>null\<close>: a list that no element was ever appended to.\<close>

definition slice_json :: "('a \<Rightarrow> json) \<Rightarrow> 'a list \<Rightarrow> json" where
  "slice_json f xs = (if xs = [] then JNull else JArray (map f xs))"

definition import_error_json :: "ImportError \<Rightarrow> json" where
  "import_error_json e =
     JObject (opt (ie_Index e \<noteq> 0) ''index'' (JInt (int (ie_Index e))) @ [(''message'', JString (ie_Message e))])"

definition status_json :: "StatusChange \<Rightarrow> json" where
  "status_json c = JObject [(''state'', JString (state_string (sc_State c))), (''at'', time_json (sc_At c))]"

definition session_error_json :: "SessionError \<Rightarrow> json" where
  "session_error_json e = JObject [(''code'', JString (se_Code e)), (''message'', JString (se_Message e))]"

definition session_json :: "VPNSession \<Rightarrow> json" where
  "session_json s =
     JObject ([(''id'', JString (vs_ID s)), (''serverId'', JString (vs_ServerID s)), (''mode'', JString (vs_Mode s)),
        (''startedAt'', time_json (vs_StartedAt s))] @
       opt_pointer ''endedAt'' time_json (vs_EndedAt s) @
       [(''bytesUp'', JInt (uint (vs_BytesUp s))), (''bytesDown'', JInt (uint (vs_BytesDown s))),
        (''statusHistory'', slice_json status_json (vs_StatusHistory s))] @
       opt_pointer ''error'' session_error_json (vs_Error s))"

text \<open>The context of a log entry is a map, printed in the order of its keys; a value that is no
  text, map or array carries its own JSON text.\<close>

fun context_json :: "jvalue \<Rightarrow> json" where
  "context_json (JStr s) = JString s"
| "context_json (JMap kvs) = JObject (sort_key fst (map (\<lambda>kv. (fst kv, context_json (snd kv))) kvs))"
| "context_json (JArr vs) = JArray (map context_json vs)"
| "context_json (JOther t) = JReal t"

definition log_entry_json :: "LogEntry \<Rightarrow> json" where
  "log_entry_json e =
     JObject ([(''seq'', JInt (uint (le_Seq e))), (''timestamp'', time_json (le_Timestamp e)),
        (''level'', JString (le_Level e)), (''component'', JString (le_Component e)),
        (''message'', JString (le_Message e))] @
       opt (le_Context e \<noteq> []) ''context'' (context_json (JMap (le_Context e))))"

fun payload_json :: "payload \<Rightarrow> json" where
  "payload_json (DataVersion r) =
     JObject [(''version'', JString (vr_Version r)), (''engineVersion'', JString (vr_EngineVersion r)),
       (''platform'', JString (vr_Platform r))]"
| "payload_json (DataServers r) = JObject [(''servers'', slice_json profile_json (lr_Servers r))]"
| "payload_json (DataServer p) = profile_json p"
| "payload_json (DataID r) = JObject [(''id'', JString (ir_ID r))]"
| "payload_json (DataImport r) =
     JObject [(''added'', JInt (int (mr_Added r))), (''failed'', JInt (int (mr_Failed r))),
       (''errors'', slice_json import_error_json (mr_Errors r))]"
| "payload_json (DataExport r) = JObject [(''format'', JString (xr_Format r)), (''blob'', JString (xr_Blob r))]"
| "payload_json (DataLatency r) = JObject [(''latencyMs'', JInt (ar_LatencyMS r))]"
| "payload_json (DataState r) =
     JObject [(''state'', JString (state_string (sr_State r))),
       (''session'', case sr_Session r of None \<Rightarrow> JNull | Some s \<Rightarrow> session_json s)]"
| "payload_json (DataLogs r) = JObject [(''logs'', JArray (map log_entry_json (gr_Logs r)))]"
| "payload_json (DataSettings r) = JObject [(''settings'', settings_json (tr_Settings r))]"

text \<open>Encoding fails for a time whose year has not four digits.\<close>

definition session_times_ok :: "VPNSession \<Rightarrow> bool" where
  "session_times_ok s \<longleftrightarrow>
     time_ok (vs_StartedAt s) \<and> (case vs_EndedAt s of None \<Rightarrow> True | Some t \<Rightarrow> time_ok t) \<and>
     list_all (\<lambda>c. time_ok (sc_At c)) (vs_StatusHistory s)"

fun encodable :: "payload \<Rightarrow> bool" where
  "encodable (DataServers r) = list_all marshalable (lr_Servers r)"
| "encodable (DataServer p) = marshalable p"
| "encodable (DataState r) = (case sr_Session r of None \<Rightarrow> True | Some s \<Rightarrow> session_times_ok s)"
| "encodable (DataLogs r) = list_all (\<lambda>e. time_ok (le_Timestamp e)) (gr_Logs r)"
| "encodable _ = True"

definition error_json :: "Error \<Rightarrow> json" where
  "error_json e = JObject [(''code'', JString (er_Code e)), (''message'', JString (er_Message e))]"

definition response_json :: "Response \<Rightarrow> json" where
  "response_json r =
     JObject ([(''ok'', JBool (rp_OK r))] @ opt_pointer ''data'' payload_json (rp_Data r) @
       opt_pointer ''error'' error_json (rp_Error r))"

definition marshal_response :: "Response \<Rightarrow> string option" where
  "marshal_response r =
     (if (case rp_Data r of None \<Rightarrow> True | Some d \<Rightarrow> encodable d) then Some (json_print (response_json r)) else None)"

section \<open>The handler and the dispatcher\<close>

record 's Handler =
  hd_GetVersion :: "'s \<Rightarrow> (GetVersionResponse \<times> 's) option"
  hd_ListServers :: "ServerListRequest \<Rightarrow> 's \<Rightarrow> (ServerListResponse \<times> 's) option"
  hd_GetServer :: "string \<Rightarrow> 's \<Rightarrow> ((goerror + ServerProfile) \<times> 's) option"
  hd_AddServer :: "ServerProfile \<Rightarrow> 's \<Rightarrow> ((goerror + IDResponse) \<times> 's) option"
  hd_UpdateServer :: "ServerProfile \<Rightarrow> 's \<Rightarrow> ((goerror + ServerProfile) \<times> 's) option"
  hd_DeleteServer :: "string \<Rightarrow> 's \<Rightarrow> (goerror option \<times> 's) option"
  hd_DuplicateServer :: "string \<Rightarrow> 's \<Rightarrow> ((goerror + IDResponse) \<times> 's) option"
  hd_ImportServers :: "ImportRequest \<Rightarrow> 's \<Rightarrow> ((goerror + ImportResponse) \<times> 's) option"
  hd_ExportServers :: "ExportRequest \<Rightarrow> 's \<Rightarrow> ((goerror + ExportResponse) \<times> 's) option"
  hd_TestServerLatency :: "string \<Rightarrow> 's \<Rightarrow> ((goerror + LatencyResponse) \<times> 's) option"
  hd_Connect :: "ConnectRequest \<Rightarrow> 's \<Rightarrow> ((goerror + StateResponse) \<times> 's) option"
  hd_Disconnect :: "'s \<Rightarrow> ((goerror + StateResponse) \<times> 's) option"
  hd_ConnectionState :: "'s \<Rightarrow> (StateResponse \<times> 's) option"
  hd_GetLogs :: "LogsRequest \<Rightarrow> 's \<Rightarrow> ((goerror + LogsResponse) \<times> 's) option"
  hd_GetSettings :: "'s \<Rightarrow> ((goerror + SettingsResponse) \<times> 's) option"
  hd_UpdateSettings :: "SettingsRequest \<Rightarrow> 's \<Rightarrow> ((goerror + SettingsResponse) \<times> 's) option"
  hd_Subscribe :: "SubscribeRequest \<Rightarrow> 's \<Rightarrow> (goerror option \<times> 's) option"
  hd_Unsubscribe :: "'s \<Rightarrow> (goerror option \<times> 's) option"

record 's Dispatcher =
  dp_Handler :: "'s Handler"
  dp_MapError :: "(goerror \<Rightarrow> Error option) option"

definition ok_response :: "payload \<Rightarrow> Response" where
  "ok_response d = \<lparr>rp_OK = True, rp_Data = Some d, rp_Error = None\<rparr>"

definition error_response :: "Error \<Rightarrow> Response" where
  "error_response e = \<lparr>rp_OK = False, rp_Data = None, rp_Error = Some e\<rparr>"

definition invalid :: "goerror \<Rightarrow> Response" where
  "invalid e = error_response \<lparr>er_Code = ErrCodeInvalidArgument, er_Message = err_text e\<rparr>"

definition fail :: "'s Dispatcher \<Rightarrow> goerror \<Rightarrow> Response" where
  "fail d e =
     (case Option.bind (dp_MapError d) (\<lambda>f. f e) of
        Some er \<Rightarrow> error_response er
      | None \<Rightarrow> error_response \<lparr>er_Code = ErrCodeInternal, er_Message = err_text e\<rparr>)"

definition result :: "'s Dispatcher \<Rightarrow> ('a \<Rightarrow> payload) \<Rightarrow> goerror + 'a \<Rightarrow> Response" where
  "result d mk r = (case r of Inl e \<Rightarrow> fail d e | Inr a \<Rightarrow> ok_response (mk a))"

definition result_nil :: "'s Dispatcher \<Rightarrow> goerror option \<Rightarrow> Response" where
  "result_nil d r = (case r of Some e \<Rightarrow> fail d e | None \<Rightarrow> \<lparr>rp_OK = True, rp_Data = None, rp_Error = None\<rparr>)"

text \<open>A handler operation answered by \<open>f\<close>, and a request that is decoded first.\<close>

definition answer :: "('r \<Rightarrow> Response) \<Rightarrow> ('r \<times> 's) option \<Rightarrow> (Response \<times> 's) option" where
  "answer f res = map_option (map_prod f id) res"

definition with_request ::
  "(string \<Rightarrow> json \<Rightarrow> 'a \<Rightarrow> 'a option) \<Rightarrow> 'a \<Rightarrow> string \<Rightarrow> 's \<Rightarrow> ('a \<Rightarrow> (Response \<times> 's) option) \<Rightarrow> (Response \<times> 's) option" where
  "with_request field zero requestJSON s k =
     (case decode field zero requestJSON of Inl e \<Rightarrow> Some (invalid e, s) | Inr r \<Rightarrow> k r)"

definition with_server ::
  "string \<Rightarrow> 's \<Rightarrow> (ServerProfile \<Rightarrow> (Response \<times> 's) option) \<Rightarrow> (Response \<times> 's) option" where
  "with_server requestJSON s k =
     with_request server_field \<lparr>vq_Server = None\<rparr> requestJSON s
       (\<lambda>req. case vq_Server req of
                None \<Rightarrow> Some (invalid (plain_error ''server is required''), s)
              | Some p \<Rightarrow> k p)"

abbreviation (input) zero_list_request :: ServerListRequest where
  "zero_list_request \<equiv>
     \<lparr>lq_Search = '''', lq_Protocol = '''', lq_Group = '''', lq_Enabled = None, lq_Favorite = None, lq_Sort = ''''\<rparr>"

definition dispatch :: "'s Dispatcher \<Rightarrow> string \<Rightarrow> string \<Rightarrow> 's \<Rightarrow> (Response \<times> 's) option" where
  "dispatch d method req s =
     (let h = dp_Handler d; by_id = with_request id_field \<lparr>iq_ID = ''''\<rparr> req s
      in if method = ''getVersion'' then answer (\<lambda>r. ok_response (DataVersion r)) (hd_GetVersion h s)
         else if method = ''listServers'' then
           with_request list_field zero_list_request req s
             (\<lambda>r. answer (\<lambda>a. ok_response (DataServers a)) (hd_ListServers h r s))
         else if method = ''getServer'' then by_id (\<lambda>r. answer (result d DataServer) (hd_GetServer h (iq_ID r) s))
         else if method = ''addServer'' then with_server req s (\<lambda>p. answer (result d DataID) (hd_AddServer h p s))
         else if method = ''updateServer'' then with_server req s (\<lambda>p. answer (result d DataServer) (hd_UpdateServer h p s))
         else if method = ''deleteServer'' then by_id (\<lambda>r. answer (result_nil d) (hd_DeleteServer h (iq_ID r) s))
         else if method = ''duplicateServer'' then by_id (\<lambda>r. answer (result d DataID) (hd_DuplicateServer h (iq_ID r) s))
         else if method = ''importServers'' then
           with_request import_field \<lparr>mq_Source = \<lparr>is_Kind = '''', is_Data = ''''\<rparr>\<rparr> req s
             (\<lambda>r. answer (result d DataImport) (hd_ImportServers h r s))
         else if method = ''exportServers'' then
           with_request export_field \<lparr>xq_IDs = [], xq_Format = ''''\<rparr> req s
             (\<lambda>r. answer (result d DataExport) (hd_ExportServers h r s))
         else if method = ''testServerLatency'' then
           by_id (\<lambda>r. answer (result d DataLatency) (hd_TestServerLatency h (iq_ID r) s))
         else if method = ''connect'' then
           with_request connect_field \<lparr>cq_ServerID = '''', cq_Mode = ''''\<rparr> req s
             (\<lambda>r. answer (result d DataState) (hd_Connect h r s))
         else if method = ''disconnect'' then answer (result d DataState) (hd_Disconnect h s)
         else if method = ''getConnectionState'' then answer (\<lambda>r. ok_response (DataState r)) (hd_ConnectionState h s)
         else if method = ''getLogs'' then
           with_request logs_field \<lparr>gq_AfterSeq = 0, gq_Limit = 0\<rparr> req s
             (\<lambda>r. answer (result d DataLogs) (hd_GetLogs h r s))
         else if method = ''getSettings'' then answer (result d DataSettings) (hd_GetSettings h s)
         else if method = ''updateSettings'' then
           with_request settings_request_field \<lparr>sq_Settings = zero_settings\<rparr> req s
             (\<lambda>r. answer (result d DataSettings) (hd_UpdateSettings h r s))
         else if method = ''subscribe'' then
           with_request subscribe_field \<lparr>bq_Events = []\<rparr> req s (\<lambda>r. answer (result_nil d) (hd_Subscribe h r s))
         else if method = ''unsubscribe'' then answer (result_nil d) (hd_Unsubscribe h s)
         else Some (invalid (plain_error (''unknown method '' @ method)), s))"

definition encode_failure :: Response where
  "encode_failure = error_response \<lparr>er_Code = ErrCodeInternal, er_Message = ''internal: encode response''\<rparr>"

definition Dispatch :: "'s Dispatcher \<Rightarrow> string \<Rightarrow> string \<Rightarrow> 's \<Rightarrow> (string \<times> 's) option" where
  "Dispatch d method req s =
     map_option
       (map_prod (\<lambda>r. case marshal_response r of Some b \<Rightarrow> b | None \<Rightarrow> json_print (response_json encode_failure)) id)
       (dispatch d method req s)"

section \<open>Well-formed answers\<close>

text \<open>The shape of an envelope: data and no error, or an error with a code of the contract and no
  data.\<close>

definition envelope_ok :: "Response \<Rightarrow> bool" where
  "envelope_ok r \<longleftrightarrow>
     (case rp_Error r of
        None \<Rightarrow> rp_OK r
      | Some e \<Rightarrow> \<not> rp_OK r \<and> rp_Data r = None \<and> er_Code e \<in> set error_codes)"

definition contract_codes :: "'s Dispatcher \<Rightarrow> bool" where
  "contract_codes d \<longleftrightarrow>
     (\<forall>f e er. dp_MapError d = Some f \<longrightarrow> f e = Some er \<longrightarrow> er_Code er \<in> set error_codes)"

lemma envelope_ok_invalid: "envelope_ok (invalid e)"
  by (simp add: envelope_ok_def invalid_def error_response_def error_codes_def)

lemma envelope_ok_fail: "contract_codes d \<Longrightarrow> envelope_ok (fail d e)"
  by (auto simp: envelope_ok_def fail_def error_response_def contract_codes_def error_codes_def
    split: option.split bind_split)

lemma envelope_ok_result:
  "envelope_ok (ok_response p)" "contract_codes d \<Longrightarrow> envelope_ok (result d mk x)"
  "contract_codes d \<Longrightarrow> envelope_ok (result_nil d y)"
proof -
  show "envelope_ok (ok_response p)" for p by (simp add: envelope_ok_def ok_response_def)
  then show "contract_codes d \<Longrightarrow> envelope_ok (result d mk x)"
    by (simp add: result_def envelope_ok_fail split: sum.split)
  show "contract_codes d \<Longrightarrow> envelope_ok (result_nil d y)"
    by (cases y) (simp_all add: result_nil_def envelope_ok_fail envelope_ok_def [of "\<lparr>rp_OK = _, rp_Data = _, rp_Error = _\<rparr>"])
qed

text \<open>Every way through the dispatcher ends in a well-formed envelope.\<close>

definition answers :: "(Response \<times> 's) option \<Rightarrow> bool" where
  "answers res \<longleftrightarrow> (\<forall>r s. res = Some (r, s) \<longrightarrow> envelope_ok r)"

lemma answers_answer: "(\<And>x. envelope_ok (f x)) \<Longrightarrow> answers (answer f res)"
  by (auto simp: answers_def answer_def)

lemma answers_request: "(\<And>x. answers (k x)) \<Longrightarrow> answers (with_request field zero req s k)"
  by (auto simp: answers_def with_request_def envelope_ok_invalid split: sum.splits)

lemma answers_server: "(\<And>x. answers (k x)) \<Longrightarrow> answers (with_server req s k)"
  unfolding with_server_def
  by (rule answers_request) (auto simp: answers_def envelope_ok_invalid split: option.splits)

lemma answers_unknown: "answers (Some (invalid e, s))"
  by (simp add: answers_def envelope_ok_invalid)

lemma answers_if: "\<lbrakk>answers a; answers b\<rbrakk> \<Longrightarrow> answers (if c then a else b)"
  by simp

lemmas answers_intros =
  answers_if answers_unknown answers_server answers_request answers_answer envelope_ok_result

lemma dispatch_answers:
  assumes "contract_codes d"
  shows "answers (dispatch d method req s)"
  unfolding dispatch_def Let_def using assms by (intro answers_intros)

section \<open>Where a request leads\<close>

text \<open>A property of the state that holds after each operation a request can call holds after the
  request.\<close>

definition leads :: "('s \<Rightarrow> bool) \<Rightarrow> ('r \<times> 's) option \<Rightarrow> bool" where
  "leads P res \<longleftrightarrow> (\<forall>r s. res = Some (r, s) \<longrightarrow> P s)"

lemma leads_answer: "leads P res \<Longrightarrow> leads P (answer f res)"
  by (auto simp: leads_def answer_def)

lemma leads_request: "\<lbrakk>P s; \<And>x. leads P (k x)\<rbrakk> \<Longrightarrow> leads P (with_request field zero req s k)"
  by (auto simp: leads_def with_request_def split: sum.splits)

lemma leads_server: "\<lbrakk>P s; \<And>x. leads P (k x)\<rbrakk> \<Longrightarrow> leads P (with_server req s k)"
  unfolding with_server_def by (rule leads_request) (auto simp: leads_def split: option.splits)

lemma leads_same: "P s \<Longrightarrow> leads P (Some (r, s))"
  by (simp add: leads_def)

lemma leads_if: "\<lbrakk>c \<Longrightarrow> leads P a; \<not> c \<Longrightarrow> leads P b\<rbrakk> \<Longrightarrow> leads P (if c then a else b)"
  by simp

lemmas leads_intros = leads_if leads_same leads_server leads_request leads_answer

lemma dispatch_leads:
  assumes "P s"
    and "leads P (hd_GetVersion (dp_Handler d) s)" "\<And>x. leads P (hd_ListServers (dp_Handler d) x s)"
      "\<And>x. leads P (hd_GetServer (dp_Handler d) x s)" "\<And>x. leads P (hd_AddServer (dp_Handler d) x s)"
      "\<And>x. leads P (hd_UpdateServer (dp_Handler d) x s)" "\<And>x. leads P (hd_DeleteServer (dp_Handler d) x s)"
      "\<And>x. leads P (hd_DuplicateServer (dp_Handler d) x s)" "\<And>x. leads P (hd_ImportServers (dp_Handler d) x s)"
      "\<And>x. leads P (hd_ExportServers (dp_Handler d) x s)" "\<And>x. leads P (hd_TestServerLatency (dp_Handler d) x s)"
      "\<And>x. leads P (hd_Connect (dp_Handler d) x s)" "leads P (hd_Disconnect (dp_Handler d) s)"
      "leads P (hd_ConnectionState (dp_Handler d) s)" "\<And>x. leads P (hd_GetLogs (dp_Handler d) x s)"
      "leads P (hd_GetSettings (dp_Handler d) s)" "\<And>x. leads P (hd_UpdateSettings (dp_Handler d) x s)"
      "\<And>x. method = ''subscribe'' \<Longrightarrow> leads P (hd_Subscribe (dp_Handler d) x s)"
      "method = ''unsubscribe'' \<Longrightarrow> leads P (hd_Unsubscribe (dp_Handler d) s)"
  shows "leads P (dispatch d method req s)"
  unfolding dispatch_def Let_def by (intro leads_intros assms)

section \<open>Properties\<close>

text \<open>The methods that take no request.\<close>

definition plain_methods :: "string list" where
  "plain_methods = [''getVersion'', ''disconnect'', ''getConnectionState'', ''getSettings'', ''unsubscribe'']"

definition not_json :: "string \<Rightarrow> bool" where
  "not_json req \<longleftrightarrow> TrimSpace req \<noteq> '''' \<and> json_parse req = None"

lemma decode_not_json: "not_json req \<Longrightarrow> decode field zero req = Inl errDecode"
  by (simp add: decode_def not_json_def)

text \<open>C14: A bad request touches nothing. A method outside the contract, or a request of a method
  that takes one whose text is not JSON, is answered with the code \<open>invalid_argument\<close> whatever the
  handler does, and the state is the one before: no operation of the handler is called.\<close>

theorem bad_request_is_inert:
  assumes "method \<notin> set methods \<or> method \<notin> set plain_methods \<and> not_json req"
  shows "\<exists>r e. dispatch d method req s = Some (r, s) \<and> \<not> rp_OK r \<and> rp_Data r = None \<and>
    rp_Error r = Some e \<and> er_Code e = ErrCodeInvalidArgument"
proof (cases "method \<in> set methods")
  case True
  then have n: "not_json req" "method \<notin> set plain_methods" using assms by auto
  have "method \<in> set (filter (\<lambda>m. m \<notin> set plain_methods) methods)" using True n(2) by simp
  also have "filter (\<lambda>m. m \<notin> set plain_methods) methods =
    [''listServers'', ''getServer'', ''addServer'', ''updateServer'', ''deleteServer'', ''duplicateServer'', ''importServers'',
     ''exportServers'', ''testServerLatency'', ''connect'', ''getLogs'', ''updateSettings'', ''subscribe'']"
    by (simp add: methods_def plain_methods_def)
  finally have "dispatch d method req s = Some (invalid errDecode, s)"
    unfolding list.set insert_iff empty_iff
    by (elim disjE) (simp_all add: dispatch_def with_server_def with_request_def decode_not_json [OF n(1)])
  then show ?thesis by (simp add: invalid_def error_response_def)
next
  case False
  then have "dispatch d method req s = Some (invalid (plain_error (''unknown method '' @ method)), s)"
    by (simp add: dispatch_def methods_def)
  then show ?thesis by (simp add: invalid_def error_response_def)
qed

text \<open>A handler that only knows its version.\<close>

definition version_handler :: "unit Handler" where
  "version_handler =
     \<lparr>hd_GetVersion = (\<lambda>s. Some (\<lparr>vr_Version = ''1.0.0'', vr_EngineVersion = ''v1.13.15'', vr_Platform = ''linux''\<rparr>, s)),
      hd_ListServers = (\<lambda>_ _. None), hd_GetServer = (\<lambda>_ _. None), hd_AddServer = (\<lambda>_ _. None),
      hd_UpdateServer = (\<lambda>_ _. None), hd_DeleteServer = (\<lambda>_ _. None), hd_DuplicateServer = (\<lambda>_ _. None),
      hd_ImportServers = (\<lambda>_ _. None), hd_ExportServers = (\<lambda>_ _. None), hd_TestServerLatency = (\<lambda>_ _. None),
      hd_Connect = (\<lambda>_ _. None), hd_Disconnect = (\<lambda>_. None), hd_ConnectionState = (\<lambda>_. None), hd_GetLogs = (\<lambda>_ _. None),
      hd_GetSettings = (\<lambda>_. None), hd_UpdateSettings = (\<lambda>_ _. None), hd_Subscribe = (\<lambda>_ _. None),
      hd_Unsubscribe = (\<lambda>_. None)\<rparr>"

theorem bad_request_is_inert_witness:
  "\<exists>r e. dispatch \<lparr>dp_Handler = version_handler, dp_MapError = None\<rparr> ''connect'' ''{'' () = Some (r, ()) \<and> \<not> rp_OK r \<and>
     rp_Data r = None \<and> rp_Error r = Some e \<and> er_Code e = ErrCodeInvalidArgument"
proof -
  have "not_json ''{''" by code_simp
  then show ?thesis
    using bad_request_is_inert [of "''connect''" "''{''"] by (simp add: plain_methods_def)
qed



end
