(* ===== verification/Legacy_Import.thy ===== *)
theory Legacy_Import
  imports Server_Exchange Config_Engine
begin

text \<open>
  The import of server profiles from the configuration blob of older builds
  (\<open>LoadLegacyServers\<close> and \<open>restoreSecrets\<close> of \<open>core/config/engine.go\<close>) and the loop of
  \<open>core.New\<close> that creates them in the repository. A nil pointer among the servers makes the code
  panic, which is the value \<open>None\<close>; calls of the logger are a list.
\<close>

section \<open>The legacy document\<close>

record persistedServer =
  ps_Profile :: "ServerProfile option"
  ps_SecretRefs :: "string list"

record legacyDoc =
  ld_Version :: int
  ld_Settings :: AppSettings
  ld_Servers :: "persistedServer option list"

definition zero_persisted :: persistedServer where
  "zero_persisted = \<lparr>ps_Profile = None, ps_SecretRefs = []\<rparr>"

definition zero_legacy :: legacyDoc where
  "zero_legacy = \<lparr>ld_Version = 0, ld_Settings = zero_settings, ld_Servers = []\<rparr>"

text \<open>The fields of the embedded profile are fields of the object; the pointer is set as soon as one
  of them occurs.\<close>

definition embedded_keys :: "string list" where
  "embedded_keys =
     [''id'', ''name'', ''protocol'', ''address'', ''port'', ''username'', ''password'', ''cipher'', ''uuid'', ''flow'',
      ''security'', ''tls'', ''ssh'', ''transport'', ''globalpadding'', ''authenticatedlength'', ''packetencoding'', ''enabled'',
      ''group'', ''tags'', ''reality'', ''favorite'', ''lastlatencyms'', ''lasttestedat'', ''createdat'', ''updatedat'']"

definition persisted_field :: "string \<Rightarrow> json \<Rightarrow> persistedServer \<Rightarrow> persistedServer option" where
  "persisted_field k v ps =
     (if k = ''secretrefs'' then into_strings (\<lambda>x. ps_SecretRefs_update (\<lambda>_. x)) v ps
      else if k \<in> set embedded_keys then
        map_option (\<lambda>p. ps\<lparr>ps_Profile := Some p\<rparr>)
          (profile_field k v (case ps_Profile ps of None \<Rightarrow> zero_profile | Some p \<Rightarrow> p))
      else Some ps)"

fun json_persisted :: "json list \<Rightarrow> persistedServer option list option" where
  "json_persisted [] = Some []"
| "json_persisted (j # js) =
     (case (if j = JNull then Some None else map_option Some (into_object persisted_field j zero_persisted)) of
        None \<Rightarrow> None
      | Some ps \<Rightarrow> map_option ((#) ps) (json_persisted js))"

definition legacy_field :: "string \<Rightarrow> json \<Rightarrow> legacyDoc \<Rightarrow> legacyDoc option" where
  "legacy_field k v d =
     (if k = ''version'' then into_int (\<lambda>x. ld_Version_update (\<lambda>_. x)) v d
      else if k = ''settings'' then map_option (\<lambda>s. d\<lparr>ld_Settings := s\<rparr>) (into_object settings_field v (ld_Settings d))
      else if k = ''servers'' then
        (case v of
           JNull \<Rightarrow> Some (d\<lparr>ld_Servers := []\<rparr>)
         | JArray js \<Rightarrow> map_option (\<lambda>x. d\<lparr>ld_Servers := x\<rparr>) (json_persisted js)
         | _ \<Rightarrow> None)
      else Some d)"

section \<open>Loading\<close>

definition setSecretValue :: "string \<Rightarrow> string \<Rightarrow> ServerProfile \<Rightarrow> ServerProfile" where
  "setSecretValue ref v p =
     (if ref = RefPassword then p\<lparr>sp_Password := v\<rparr>
      else if ref = RefUUID then p\<lparr>sp_UUID := v\<rparr>
      else if ref = RefSSHPrivateKey then p\<lparr>sp_SSH := (sp_SSH p)\<lparr>ssh_PrivateKey := v\<rparr>\<rparr>
      else p)"

fun legacy_secrets ::
  "'k SecretOps \<Rightarrow> 'k \<Rightarrow> string list \<Rightarrow> ServerProfile \<Rightarrow> LogCall list \<Rightarrow> (goerror + ServerProfile) \<times> LogCall list" where
  "legacy_secrets ops ks [] p lg = (Inr p, lg)"
| "legacy_secrets ops ks (ref # refs) p lg =
     (case so_Get ops (SecretStoreKey (sp_ID p) ref) ks of
        Inl e \<Rightarrow>
          (if err_is e = ErrSecretNotFound then
             legacy_secrets ops ks refs p
               (lg @ [(LevelWarn, ''config'', ''missing stored secret '' @ Quote ref @ '' for server '' @ sp_ID p @ ''; skipping'')])
           else (Inl e, lg))
      | Inr v \<Rightarrow> legacy_secrets ops ks refs (setSecretValue ref v p) lg)"

definition legacy_redact :: "ServerProfile \<Rightarrow> string list" where
  "legacy_redact p = [sp_Password p, sp_UUID p, ssh_PrivateKey (sp_SSH p)]"

record LegacyLog =
  ll_redactor :: Redactor
  ll_logged :: "LogCall list"

fun legacy_loop ::
  "'k SecretOps \<Rightarrow> (string list \<Rightarrow> string list) \<Rightarrow> 'k \<Rightarrow> persistedServer option list \<Rightarrow> ServerProfile list \<Rightarrow> LegacyLog \<Rightarrow>
   ((goerror + ServerProfile list) \<times> LegacyLog) option" where
  "legacy_loop ops order ks [] out lg = Some (Inr out, lg)"
| "legacy_loop ops order ks (ps # pss) out lg =
     (case Option.bind ps ps_Profile of
        None \<Rightarrow> None
      | Some p \<Rightarrow>
          (case legacy_secrets ops ks (ps_SecretRefs (the ps)) p (ll_logged lg) of
             (Inl e, calls) \<Rightarrow> Some (Inl e, lg\<lparr>ll_logged := calls\<rparr>)
           | (Inr q, calls) \<Rightarrow>
               legacy_loop ops order ks pss (out @ [q])
                 \<lparr>ll_redactor = Add order (legacy_redact q) (ll_redactor lg), ll_logged = calls\<rparr>))"

definition legacy_found :: "nat \<Rightarrow> LegacyLog \<Rightarrow> LegacyLog" where
  "legacy_found n lg =
     (if 0 < n then
        lg\<lparr>ll_logged := ll_logged lg @
             [(LevelInfo, ''config'', ''found '' @ Itoa (int n) @ '' legacy server profile(s) to migrate'')]\<rparr>
      else lg)"

definition LoadLegacyServers ::
  "'k SecretOps \<Rightarrow> goerror + string \<Rightarrow> 's ConfigOps \<Rightarrow> env \<Rightarrow> (string list \<Rightarrow> string list) \<Rightarrow> 'k \<Rightarrow> 's \<Rightarrow> LegacyLog \<Rightarrow>
   ((goerror + ServerProfile list) \<times> 'k \<times> LegacyLog) option" where
  "LoadLegacyServers sops rnd ops env order ks s lg =
     (case GetOrCreateDataKey sops rnd '''' ks of
        (Inl e, ks') \<Rightarrow> Some (Inl (wrap ''config: data key: '' e), ks', lg)
      | (Inr key, ks') \<Rightarrow>
          (case co_Load ops s of
             Inl e \<Rightarrow> if err_is e = ErrNotExist then Some (Inr [], ks', lg) else Some (Inl e, ks', lg)
           | Inr raw \<Rightarrow>
               (case Open (en_aead env) key raw of
                  Inl e \<Rightarrow> Some (Inl (wrap ''config: legacy blob: '' e), ks', lg)
                | Inr plain \<Rightarrow>
                    (case Option.bind (json_parse plain) (\<lambda>j. into_object legacy_field j zero_legacy) of
                       None \<Rightarrow> Some (Inl (plain_error ''config: legacy blob''), ks', lg)
                     | Some doc \<Rightarrow>
                         map_option
                           (\<lambda>(r, lg'). case r of
                              Inl e \<Rightarrow> (Inl e, ks', lg')
                            | Inr out \<Rightarrow> (Inr out, ks', legacy_found (length (ld_Servers doc)) lg'))
                           (legacy_loop sops order ks' (ld_Servers doc) [] lg)))))"

section \<open>Migration into the repository\<close>

fun migrate ::
  "('d, 'k) RepoEnv \<Rightarrow> fresh \<Rightarrow> nat \<Rightarrow> ServerProfile list \<Rightarrow> ('d, 'k) Repo \<times> LogCall list \<Rightarrow> ('d, 'k) Repo \<times> LogCall list" where
  "migrate env fr i [] acc = acc"
| "migrate env fr i (p # ps) (st, lg) =
     (case repo_Create env (fst (fr i)) (fst (snd (fr i))) (snd (snd (fr i))) p st of
        (Inl e, st') \<Rightarrow>
          migrate env fr (Suc i) ps
            (st', lg @ [(LevelWarn, ''core'', ''legacy server '' @ Quote (sp_Name p) @ '' not migrated: '' @ err_text e)])
      | (Inr sid, st') \<Rightarrow>
          migrate env fr (Suc i) ps (st', lg @ [(LevelInfo, ''core'', ''migrated legacy server '' @ Quote (sp_Name p))]))"

text \<open>What the map of profiles becomes: valid profiles are put under their identifier.\<close>

fun migrate_spec :: "fresh \<Rightarrow> nat \<Rightarrow> ServerProfile list \<Rightarrow> profiles \<Rightarrow> profiles" where
  "migrate_spec fr i [] M = M"
| "migrate_spec fr i (p # ps) M =
     migrate_spec fr (Suc i) ps
       (if Validate p = None
        then (let c = created (fst (fr i)) (fst (snd (fr i))) (snd (snd (fr i))) p in M(sp_ID c \<mapsto> c))
        else M)"

context repository
begin

lemma migrate_repr:
  assumes "reliable sql sec" "repo_repr sec tbl M st" "\<forall>p \<in> set ps. storable p"
    and "\<And>j. time_ok (fst (snd (fr j))) \<and> time_ok (snd (snd (fr j)))"
  shows "\<exists>st' lg'. migrate env fr i ps (st, lg) = (st', lg @ lg') \<and> length lg' = length ps \<and>
    repo_repr sec tbl (migrate_spec fr i ps M) st'"
  using assms(2,3)
proof (induction ps arbitrary: i M st lg)
  case (Cons p ps)
  let ?op = "OpCreate (fst (fr i)) (fst (snd (fr i))) (snd (snd (fr i))) p"
  have ok: "op_ok ?op" using Cons.prems(2) assms(4) by simp
  obtain st1 where st1: "repo_step env ?op st = (fst (spec_step ?op M), st1)" "repo_repr sec tbl (snd (spec_step ?op M)) st1"
    using Create_refines [OF assms(1) Cons.prems(1) ok] by blast
  show ?case
  proof (cases "Validate p")
    case None
    then have "repo_Create env (fst (fr i)) (fst (snd (fr i))) (snd (snd (fr i))) p st =
      (Inr (sp_ID (created (fst (fr i)) (fst (snd (fr i))) (snd (snd (fr i))) p)), st1)"
      using st1(1) by (auto simp: Let_def split: prod.splits sum.splits)
    then show ?thesis
      using Cons.IH [OF st1(2), of "Suc i" "lg @ [(LevelInfo, ''core'', ''migrated legacy server '' @ Quote (sp_Name p))]"]
        Cons.prems(2) None by (fastforce simp: Let_def simp del: fun_upd_apply)
  next
    case (Some e)
    then have "repo_Create env (fst (fr i)) (fst (snd (fr i))) (snd (snd (fr i))) p st = (Inl e, st1)"
      using st1(1) by (auto simp: Let_def split: prod.splits sum.splits)
    then show ?thesis
      using Cons.IH [OF st1(2), of "Suc i"
          "lg @ [(LevelWarn, ''core'', ''legacy server '' @ Quote (sp_Name p) @ '' not migrated: '' @ err_text e)]"]
        Cons.prems(2) Some by fastforce
  qed
qed simp

end

section \<open>The blob after a start\<close>

text \<open>Whatever reads as a legacy document reads as a configuration document.\<close>

lemma store_legacy_doc:
  assumes "store_fields legacy_field kvs d = Some d'" "cd_Settings c = ld_Settings d"
  shows "\<exists>c'. store_fields doc_field kvs c = Some c' \<and> cd_Settings c' = ld_Settings d'"
  using assms
proof (induction kvs arbitrary: d c)
  case (Cons kv kvs)
  obtain k v where kv: "kv = (k, v)" by (cases kv)
  obtain d1 where d1: "legacy_field (ToLower k) v d = Some d1" "store_fields legacy_field kvs d1 = Some d'"
    using Cons.prems(1) kv by (auto split: option.splits)
  obtain c1 where "doc_field (ToLower k) v c = Some c1" "cd_Settings c1 = ld_Settings d1"
    using d1(1) Cons.prems(2)
    by (auto simp: legacy_field_def doc_field_def into_int_def split: if_splits json.splits option.splits)
  then show ?case using Cons.IH [OF d1(2)] kv by simp
qed simp

lemma legacy_is_doc:
  assumes "into_object legacy_field j zero_legacy = Some d"
  shows "\<exists>c. json_doc j = Some c \<and> cd_Settings c = ld_Settings d"
  using assms store_legacy_doc [of _ zero_legacy d zero_doc]
  by (auto simp: json_doc_def into_object_def zero_legacy_def zero_doc_def split: json.splits)

section \<open>Property\<close>


text \<open>A blob with a setting and one profile, sealed under a stored key.\<close>

definition legacy_blob :: string where
  "legacy_blob = json_print (JObject [(''version'', JInt 1), (''settings'', JObject [(''ipv6Mode'', JString ''disable_ipv6'')]),
     (''servers'', JArray [JObject
     [(''id'', JString ''a''), (''name'', JString ''n''), (''protocol'', JString ''socks5''), (''address'', JString ''h''),
      (''port'', JInt 1), (''enabled'', JBool True)]])])"

definition legacy_profile :: ServerProfile where
  "legacy_profile = zero_profile\<lparr>sp_ID := ''a'', sp_Name := ''n'', sp_Protocol := ProtocolSOCKS5, sp_Address := ''h'', sp_Port := 1,
     sp_Enabled := True\<rparr>"

definition blob_ops :: "string ConfigOps" where
  "blob_ops = \<lparr>co_Load = (\<lambda>s. Inr s), co_Save = (\<lambda>d s. (None, d)), co_Backup = (\<lambda>s. s)\<rparr>"

abbreviation (input) legacy_key :: string where "legacy_key \<equiv> replicate 32 CHR ''k''"

abbreviation (input) legacy_file :: string where
  "legacy_file \<equiv> replicate 12 CHR ''n'' @ legacy_blob @ legacy_key"

lemma legacy_blob_doc:
  "Option.bind (json_parse legacy_blob) (\<lambda>j. into_object legacy_field j zero_legacy) =
     Some \<lparr>ld_Version = 1, ld_Settings = zero_settings\<lparr>as_IPv6Mode := ''disable_ipv6''\<rparr>,
       ld_Servers = [Some \<lparr>ps_Profile = Some legacy_profile, ps_SecretRefs = []\<rparr>]\<rparr>"
  unfolding legacy_blob_def
  by (subst json_roundtrip, simp add: ascii_valid_utf8, code_simp)

lemma legacy_loads:
  "\<exists>lg1. LoadLegacyServers mem_ops rnd blob_ops Config_Engine.demo_env order
     [DataKeyName \<mapsto> b64_encode StdEncoding legacy_key] legacy_file lg =
   Some (Inr [legacy_profile], [DataKeyName \<mapsto> b64_encode StdEncoding legacy_key], lg1)"
proof -
  have "valid_key (b64_encode StdEncoding legacy_key) = Some legacy_key" by (simp add: valid_key_def b64_roundtrip)
  then have "GetOrCreateDataKey mem_ops rnd '''' [DataKeyName \<mapsto> b64_encode StdEncoding legacy_key] =
      (Inr legacy_key, [DataKeyName \<mapsto> b64_encode StdEncoding legacy_key])"
    by (simp add: GetOrCreateDataKey_def mem_ops_def mem_Get_def)
  moreover have "Open demo_aead legacy_key legacy_file = Inr legacy_blob"
    by (simp add: Open_def newGCM_def NonceSize_def demo_aead_def)
  ultimately show ?thesis
    by (simp add: LoadLegacyServers_def blob_ops_def Config_Engine.demo_env_def legacy_blob_doc)
qed


end
