(* ===== verification/VPN_Invariants.thy ===== *)
theory VPN_Invariants
  imports VPN_Service
begin

text \<open>
  Invariants of the VPN service under every interleaving of callers, run loops, failing
  starts and timeouts: what a live state guarantees, that ended sessions are final, and that
  a replaced run cannot disturb its successor.
\<close>

section \<open>Selectors of the state updates\<close>

lemma run_upd_sel [simp]:
  "s_state (run_upd i f s) = s_state s"
  "s_session (run_upd i f s) = s_session s"
  "s_active (run_upd i f s) = s_active s"
  "s_auto (run_upd i f s) = s_auto s"
  "s_retry (run_upd i f s) = s_retry s"
  "s_callers (run_upd i f s) = s_callers s"
  "s_tunnel (run_upd i f s) = s_tunnel s"
  "s_events (run_upd i f s) = s_events s"
  "length (s_runs (run_upd i f s)) = length (s_runs s)"
  by (simp_all add: run_upd_def)

lemma run_upd_nth [simp]:
  "j < length (s_runs s) \<Longrightarrow>
     s_runs (run_upd i f s) ! j = (if i = j then f (s_runs s ! j) else s_runs s ! j)"
  by (simp add: run_upd_def nth_list_update)

lemma call_goto_sel [simp]:
  "s_state (call_goto t k s) = s_state s"
  "s_session (call_goto t k s) = s_session s"
  "s_active (call_goto t k s) = s_active s"
  "s_auto (call_goto t k s) = s_auto s"
  "s_retry (call_goto t k s) = s_retry s"
  "s_runs (call_goto t k s) = s_runs s"
  "s_tunnel (call_goto t k s) = s_tunnel s"
  "s_events (call_goto t k s) = s_events s"
  "s_callers (call_goto t k s) = (s_callers s)(t := k)"
  by (simp_all add: call_goto_def)

lemma emitState_sel [simp]:
  "s_state (emitState st s) = s_state s"
  "s_session (emitState st s) = s_session s"
  "s_active (emitState st s) = s_active s"
  "s_auto (emitState st s) = s_auto s"
  "s_retry (emitState st s) = s_retry s"
  "s_runs (emitState st s) = s_runs s"
  "s_tunnel (emitState st s) = s_tunnel s"
  "s_callers (emitState st s) = s_callers s"
  by (simp_all add: emitState_def)

lemma set_error_sel [simp]:
  "vs_EndedAt (set_error st err sess) = vs_EndedAt sess"
  "vs_StatusHistory (set_error st err sess) = vs_StatusHistory sess"
  "vs_ServerID (set_error st err sess) = vs_ServerID sess"
  by (simp_all add: set_error_def split: option.splits)

lemma end_session_ended [simp]:
  "\<exists>e. vs_EndedAt (end_session now sess) = Some e"
  "\<exists>e. vs_EndedAt (end_session_state now st sess) = Some e"
  by (auto simp: end_session_def end_session_state_def)

lemma tunnel_Stop_Some:
  "tunnel_Stop s = Some s' \<longleftrightarrow> tunnel_free s \<and> s' = s\<lparr>s_tunnel := False\<rparr>"
  by (auto simp: tunnel_Stop_def)

section \<open>The invariant\<close>

text \<open>The program points of a loop on its way out.\<close>

fun closing :: "loop_pc \<Rightarrow> bool" where
  "closing (L_Emit st k) = closing k"
| "closing L_TeardownStop = True"
| "closing L_Finish = True"
| "closing L_Exited = True"
| "closing _ = False"

text \<open>Where a loop goes on after a publication.\<close>

fun emit_target :: "loop_pc \<Rightarrow> bool" where
  "emit_target L_Start = True"
| "emit_target L_Select = True"
| "emit_target (L_Wait d) = True"
| "emit_target L_ReconnectStop = True"
| "emit_target L_Finish = True"
| "emit_target _ = False"

fun pc_ok :: "loop_pc \<Rightarrow> bool" where
  "pc_ok (L_Emit st k) = emit_target k"
| "pc_ok _ = True"

lemma emit_target_pc [simp]: "emit_target k \<Longrightarrow> pc_ok k" "emit_target k \<Longrightarrow> k \<noteq> L_Exited"
  by (cases k; simp)+

text \<open>What a run's own record satisfies.\<close>

definition run_ok :: "run_state \<Rightarrow> bool" where
  "run_ok r \<longleftrightarrow>
     length (rs_cmds r) \<le> 1 \<and> pc_ok (rs_pc r) \<and> rs_done r = (rs_pc r = L_Exited) \<and>
     (rs_done r \<longrightarrow> vs_EndedAt (rs_session r) \<noteq> None)"

text \<open>What the active run satisfies, given the state the service reports.\<close>

definition active_run_ok :: "ConnectionState \<Rightarrow> run_state \<Rightarrow> bool" where
  "active_run_ok st r \<longleftrightarrow>
     rs_pc r \<noteq> L_Exited \<and>
     (\<not> closing (rs_pc r) \<longrightarrow> vs_EndedAt (rs_session r) = None) \<and>
     (live_state st \<longrightarrow>
        \<not> closing (rs_pc r) \<and> vs_StatusHistory (rs_session r) \<noteq> [] \<and>
        sc_State (last (vs_StatusHistory (rs_session r))) = st)"

definition svc_inv :: "svc \<Rightarrow> bool" where
  "svc_inv s \<longleftrightarrow>
     (\<forall>i < length (s_runs s). run_ok (s_runs s ! i)) \<and>
     (case s_active s of
        None \<Rightarrow> \<not> live_state (s_state s)
      | Some i \<Rightarrow>
          i < length (s_runs s) \<and> s_session s = Some i \<and>
          active_run_ok (s_state s) (s_runs s ! i))"

lemma svc_inv_init: "svc_inv NewService"
  by (simp add: svc_inv_def NewService_def)

lemma inv_update:
  assumes "svc_inv s" "i < length (s_runs s)"
    and "run_ok r'" "s_runs s' = (s_runs s)[i := r']" "s_session s' = s_session s"
    and "s_active s = Some i \<Longrightarrow>
      s_active s' = Some i \<and> active_run_ok (s_state s') r' \<or>
      s_active s' = None \<and> \<not> live_state (s_state s')"
    and "s_active s \<noteq> Some i \<Longrightarrow> s_active s' = s_active s \<and> s_state s' = s_state s"
  shows "svc_inv s'"
proof (cases "s_active s = Some i")
  case True
  with assms show ?thesis
    by (auto simp: svc_inv_def nth_list_update split: option.splits)
next
  case False
  with assms show ?thesis
    by (auto simp: svc_inv_def nth_list_update split: option.splits)
qed

lemmas loop_defs = goto_def start_returns_def select_step_def wait_step_def take_cmd_def
  internal_step_def isActive_def transition_def teardown_def finish_def tunnel_Stop_def
  run_upd_def emitState_def

lemma runLoop_step_shape:
  assumes "runLoop_step now i ch s = Some s'"
  shows "i < length (s_runs s)"
    and "s_runs s' = (s_runs s)[i := s_runs s' ! i]"
    and "s_session s' = s_session s"
    and "s_active s \<noteq> Some i \<Longrightarrow> s_active s' = s_active s \<and> s_state s' = s_state s"
proof -
  show i: "i < length (s_runs s)"
    using assms by (simp add: runLoop_step_def split: if_splits)
  show "s_runs s' = (s_runs s)[i := s_runs s' ! i]"
    using assms i
    by (cases "rs_pc (s_runs s ! i)"; cases ch)
      (auto simp: runLoop_step_def loop_defs split: if_splits option.splits list.splits)
  show "s_session s' = s_session s"
    using assms i
    by (cases "rs_pc (s_runs s ! i)"; cases ch)
      (auto simp: runLoop_step_def loop_defs split: if_splits option.splits list.splits)
  show "s_active s' = s_active s \<and> s_state s' = s_state s" if "s_active s \<noteq> Some i"
    using assms i that
    by (cases "rs_pc (s_runs s ! i)"; cases ch)
      (auto simp: runLoop_step_def loop_defs split: if_splits option.splits list.splits)
qed

lemma runLoop_step_run_ok:
  assumes "runLoop_step now i ch s = Some s'" "run_ok (s_runs s ! i)"
  shows "run_ok (s_runs s' ! i)"
    using assms runLoop_step_shape(1) [OF assms(1)]
    by (cases "rs_pc (s_runs s ! i)"; cases ch)
      (auto simp: runLoop_step_def loop_defs run_ok_def select_pc_def waitcmd_pc_def split: if_splits option.splits list.splits command.splits)

lemma active_run_ok_goto:
  "active_run_ok st r \<Longrightarrow> \<not> closing (rs_pc r) \<Longrightarrow> \<not> closing k \<Longrightarrow>
     active_run_ok st (r\<lparr>rs_pc := k\<rparr>)"
  by (auto simp: active_run_ok_def)

lemma not_closing_exited [simp]: "\<not> closing k \<Longrightarrow> k \<noteq> L_Exited"
  by auto

lemma closing_simps [simp]:
  "\<not> closing (select_pc c)" "\<not> closing (waitcmd_pc c)"
  by (simp_all add: select_pc_def waitcmd_pc_def split: command.splits)

definition active_post :: "nat \<Rightarrow> svc \<Rightarrow> bool" where
  "active_post i s' \<longleftrightarrow>
     s_active s' = Some i \<and> active_run_ok (s_state s') (s_runs s' ! i) \<or>
     s_active s' = None \<and> \<not> live_state (s_state s')"

lemma active_post_goto:
  assumes "s_active s = Some i" "i < length (s_runs s)"
    "active_run_ok (s_state s) (s_runs s ! i)" "\<not> closing (rs_pc (s_runs s ! i))" "\<not> closing k"
  shows "active_post i (goto i k s)"
  using assms by (simp add: active_post_def goto_def active_run_ok_goto)

lemma transition_active:
  assumes "s_active s = Some i" "i < length (s_runs s)"
    "active_run_ok (s_state s) (s_runs s ! i)" "\<not> closing (rs_pc (s_runs s ! i))"
    "live_state st \<longrightarrow> \<not> closing k"
  shows "active_post i (transition now i st err k s)"
  using assms by (auto simp: active_post_def transition_def active_run_ok_def)

lemma select_step_active:
  assumes "select_step i ch s = Some s'" "s_active s = Some i" "i < length (s_runs s)"
    "active_run_ok (s_state s) (s_runs s ! i)" "rs_pc (s_runs s ! i) = L_Select"
  shows "active_post i s'"
  using assms
  by (cases ch) (auto simp: select_step_def take_cmd_def active_post_goto active_post_def
    active_run_ok_def goto_def split: list.splits if_splits)

lemma wait_step_active:
  assumes "wait_step i ch s = Some s'" "s_active s = Some i" "i < length (s_runs s)"
    "active_run_ok (s_state s) (s_runs s ! i)" "rs_pc (s_runs s ! i) = L_Wait d"
  shows "active_post i s'"
  using assms
  by (cases ch) (auto simp: wait_step_def take_cmd_def active_post_def
    active_run_ok_def goto_def split: list.splits if_splits)

lemma start_returns_active:
  assumes "start_returns i ch s = Some s'" "s_active s = Some i" "i < length (s_runs s)"
    "active_run_ok (s_state s) (s_runs s ! i)" "rs_pc (s_runs s ! i) = L_Starting"
  shows "active_post i s'"
  using assms
  by (cases ch) (auto simp: start_returns_def active_post_def
    active_run_ok_def goto_def split: if_splits)

lemma internal_step_active:
  assumes "internal_step now i (rs_pc (s_runs s ! i)) s = Some s'" "s_active s = Some i" "i < length (s_runs s)"
    "active_run_ok (s_state s) (s_runs s ! i)" "pc_ok (rs_pc (s_runs s ! i))"
  shows "active_post i s'"
proof (cases "rs_pc (s_runs s ! i)")
  case L_Finish
  with assms show ?thesis
    by (auto simp: internal_step_def active_post_def finish_def active_run_ok_def)
next
  case L_Teardown
  with assms show ?thesis
    by (auto simp: internal_step_def active_post_def teardown_def active_run_ok_def)
next
  case L_TeardownStop
  with assms show ?thesis
    by (auto simp: internal_step_def active_post_def tunnel_Stop_Some goto_def active_run_ok_def)
next
  case (L_Emit st k)
  with assms show ?thesis
    by (auto simp: internal_step_def active_post_def goto_def active_run_ok_def)
next
  case (L_Started err)
  with assms show ?thesis
    by (cases err) (auto simp: internal_step_def active_post_def goto_def active_run_ok_def isActive_def)
qed (use assms in \<open>auto simp: internal_step_def isActive_def tunnel_Stop_Some goto_def active_post_def active_run_ok_def
   transition_def split: if_splits\<close>)

lemma runLoop_step_active:
  assumes "runLoop_step now i ch s = Some s'" "s_active s = Some i"
    "active_run_ok (s_state s) (s_runs s ! i)" "pc_ok (rs_pc (s_runs s ! i))"
  shows "active_post i s'"
proof -
  have i: "i < length (s_runs s)" using assms(1) by (rule runLoop_step_shape)
  note step = assms(1)[unfolded runLoop_step_def]
  show ?thesis
  proof (cases "rs_pc (s_runs s ! i) = L_Starting \<or> rs_pc (s_runs s ! i) = L_Select \<or> (\<exists>d. rs_pc (s_runs s ! i) = L_Wait d)")
    case True
    then show ?thesis
      using step i assms(2-) by (auto intro: start_returns_active select_step_active wait_step_active)
  next
    case False
    then have "internal_step now i (rs_pc (s_runs s ! i)) s = Some s'"
      using step i by (simp split: loop_pc.splits if_splits)
    then show ?thesis using i assms(2-) by (intro internal_step_active)
  qed
qed

lemma inv_loop_step:
  assumes "svc_inv s" "runLoop_step now i ch s = Some s'"
  shows "svc_inv s'"
proof (rule inv_update)
  note shape = runLoop_step_shape [OF assms(2)]
  show "svc_inv s" "i < length (s_runs s)" "s_session s' = s_session s"
    "s_runs s' = (s_runs s)[i := s_runs s' ! i]"
    using assms(1) shape by blast+
  then have ok: "run_ok (s_runs s ! i)" by (simp add: svc_inv_def)
  with assms(2) show "run_ok (s_runs s' ! i)" by (rule runLoop_step_run_ok)
  show "s_active s' = Some i \<and> active_run_ok (s_state s') (s_runs s' ! i) \<or>
      s_active s' = None \<and> \<not> live_state (s_state s')" if "s_active s = Some i"
    using runLoop_step_active [OF assms(2) that] that assms(1) ok
    by (simp add: active_post_def svc_inv_def run_ok_def)
  show "s_active s' = s_active s \<and> s_state s' = s_state s" if "s_active s \<noteq> Some i"
    using shape(4) that by blast
qed

text \<open>The callers: what a call does to the invariant.\<close>

lemma svc_inv_call_goto [simp]: "svc_inv (call_goto t k s) = svc_inv s"
  by (simp add: svc_inv_def split: option.split)

lemma svc_inv_emit [simp]: "svc_inv (emitState st s) = svc_inv s"
  by (simp add: svc_inv_def split: option.split)

lemma svc_inv_tunnel [simp]: "svc_inv (s\<lparr>s_tunnel := b\<rparr>) = svc_inv s"
  by (simp add: svc_inv_def split: option.split)

lemma svc_inv_reset: "svc_inv s \<Longrightarrow> svc_inv (s\<lparr>s_state := StateDisconnected\<rparr>)"
  by (auto simp: svc_inv_def active_run_ok_def split: option.splits)

lemma svc_inv_run_upd:
  assumes "svc_inv s" "\<And>r. run_ok r \<Longrightarrow> run_ok (f r)"
    "\<And>st r. active_run_ok st r \<Longrightarrow> active_run_ok st (f r)"
  shows "svc_inv (run_upd i f s)"
  using assms by (auto simp: svc_inv_def split: option.splits)

lemma svc_inv_sendCmd: "svc_inv s \<Longrightarrow> svc_inv (sendCmd i c s)"
  unfolding sendCmd_def by (erule svc_inv_run_upd) (auto simp: run_ok_def active_run_ok_def)

lemma svc_inv_cancel: "svc_inv s \<Longrightarrow> svc_inv (run_upd i (\<lambda>r. r\<lparr>rs_cancelled := True\<rparr>) s)"
  by (erule svc_inv_run_upd) (auto simp: run_ok_def active_run_ok_def)

lemma svc_inv_force: "svc_inv s \<Longrightarrow> svc_inv (forceDisconnect now t s)"
  by (auto simp: forceDisconnect_def svc_inv_def run_ok_def split: option.splits)

lemma new_run_ok: "run_ok (new_run now x p m)"
  "active_run_ok StateConnecting (new_run now x p m)"
  by (simp_all add: run_ok_def active_run_ok_def new_run_def new_session_def)

lemma svc_inv_commit: "svc_inv s \<Longrightarrow> svc_inv (connect_commit now x t p m s)"
  by (auto simp: connect_commit_def svc_inv_def nth_append new_run_ok less_Suc_eq
    split: option.splits)

lemma caller_go_inv:
  assumes "svc_inv s" "caller_go now t pc s = Some s'"
  shows "svc_inv s'"
  using assms
  by (cases pc) (auto simp: caller_go_def connect_check_def disconnect_read_def reconnect_read_def
    tunnel_Stop_Some svc_inv_sendCmd svc_inv_cancel svc_inv_force svc_inv_reset
    split: option.splits if_splits)

lemma caller_step_inv:
  assumes "svc_inv s" "caller_step now t ch s = Some s'"
  shows "svc_inv s'"
  using assms
  by (auto simp: caller_step_def await_done_def svc_inv_commit
    split: caller_pc.splits caller_choice.splits sum.splits if_splits elim: caller_go_inv [rotated])

lemma vpn_exec_inv:
  assumes "svc_inv s" "vpn_exec now ev s = Some s'"
  shows "svc_inv s'"
proof (cases ev)
  case (LoopEv i ch)
  with assms show ?thesis by (auto simp: vpn_exec_def intro: inv_loop_step)
next
  case (CallEv t ch)
  with assms show ?thesis by (auto simp: vpn_exec_def intro: caller_step_inv)
next
  case (AutoEv on)
  with assms show ?thesis by (auto simp: vpn_exec_def SetAutoReconnect_def svc_inv_def split: option.splits)
next
  case (RetryEv p)
  with assms show ?thesis by (auto simp: vpn_exec_def SetRetryPolicy_def svc_inv_def split: option.splits)
qed

lemma reachable_inv: "reachable s \<Longrightarrow> svc_inv s"
  by (induction rule: reachable.induct) (auto simp: svc_inv_init elim!: vpn_stepE intro: vpn_exec_inv)

section \<open>Ended sessions\<close>

lemma end_session_noop [simp]:
  "vs_EndedAt sess = Some e \<Longrightarrow> end_session now sess = sess"
  "vs_EndedAt sess = Some e \<Longrightarrow> end_session_state now st sess = sess"
  by (simp_all add: end_session_def end_session_state_def)

lemma loop_step_frozen:
  assumes "svc_inv s" "runLoop_step now i ch s = Some s'" "j < length (s_runs s)"
    "vs_EndedAt (rs_session (s_runs s ! j)) = Some e"
  shows "rs_session (s_runs s' ! j) = rs_session (s_runs s ! j)"
proof (cases "i = j")
  case False
  then show ?thesis
    using runLoop_step_shape(2) [OF assms(2)] by (metis nth_list_update_neq)
next
  case True
  have "s_active s = Some i \<Longrightarrow> closing (rs_pc (s_runs s ! i))"
    using assms True by (auto simp: svc_inv_def active_run_ok_def)
  then show ?thesis
    using assms(2-) True
    by (cases "rs_pc (s_runs s ! i)"; cases ch)
      (auto simp: runLoop_step_def loop_defs split: if_splits option.splits list.splits)
qed

lemma caller_go_frozen:
  assumes "caller_go now t pc s = Some s'" "j < length (s_runs s)"
    "vs_EndedAt (rs_session (s_runs s ! j)) = Some e"
  shows "rs_session (s_runs s' ! j) = rs_session (s_runs s ! j)"
  using assms
  by (cases pc) (auto simp: caller_go_def connect_check_def disconnect_read_def reconnect_read_def
    tunnel_Stop_Some sendCmd_def forceDisconnect_def
    split: option.splits if_splits)

lemma caller_step_frozen:
  assumes "caller_step now t ch s = Some s'" "j < length (s_runs s)"
    "vs_EndedAt (rs_session (s_runs s ! j)) = Some e"
  shows "rs_session (s_runs s' ! j) = rs_session (s_runs s ! j)"
  using assms
  by (auto simp: caller_step_def await_done_def connect_commit_def nth_append
    split: caller_pc.splits caller_choice.splits sum.splits if_splits elim: caller_go_frozen)

lemma vpn_exec_frozen:
  assumes "svc_inv s" "vpn_exec now ev s = Some s'" "j < length (s_runs s)"
    "vs_EndedAt (rs_session (s_runs s ! j)) = Some e"
  shows "rs_session (s_runs s' ! j) = rs_session (s_runs s ! j)"
  using assms
  by (cases ev) (auto simp: vpn_exec_def SetAutoReconnect_def SetRetryPolicy_def
    intro: loop_step_frozen caller_step_frozen)

lemma vpn_exec_runs_grow:
  assumes "vpn_exec now ev s = Some s'"
  shows "length (s_runs s) \<le> length (s_runs s')"
proof (cases ev)
  case (LoopEv i ch)
  with assms have "runLoop_step now i ch s = Some s'" by (simp add: vpn_exec_def)
  from runLoop_step_shape(2) [OF this] show ?thesis by (metis length_list_update order_refl)
next
  case (CallEv t ch)
  with assms show ?thesis
    by (auto simp: vpn_exec_def caller_step_def await_done_def connect_commit_def caller_go_def
      connect_check_def disconnect_read_def reconnect_read_def tunnel_Stop_Some sendCmd_def
      forceDisconnect_def
      split: caller_pc.splits caller_choice.splits sum.splits if_splits option.splits)
qed (use assms in \<open>auto simp: vpn_exec_def SetAutoReconnect_def SetRetryPolicy_def\<close>)

text \<open>A run that is not the active one stays that way.\<close>

lemma caller_step_active:
  assumes "caller_step now t ch s = Some s'"
  shows "s_active s' = s_active s \<or> s_active s' = None \<or> s_active s' = Some (length (s_runs s))"
  using assms
  by (auto simp: caller_step_def await_done_def connect_commit_def caller_go_def
      connect_check_def disconnect_read_def reconnect_read_def tunnel_Stop_Some sendCmd_def
      forceDisconnect_def
      split: caller_pc.splits caller_choice.splits sum.splits if_splits option.splits)

lemma vpn_exec_active:
  assumes "svc_inv s" "vpn_exec now ev s = Some s'"
  shows "s_active s' = s_active s \<or> s_active s' = None \<or> s_active s' = Some (length (s_runs s))"
proof (cases ev)
  case (LoopEv i ch)
  with assms have step: "runLoop_step now i ch s = Some s'" by (simp add: vpn_exec_def)
  show ?thesis
  proof (cases "s_active s = Some i")
    case True
    then have "active_run_ok (s_state s) (s_runs s ! i)" "pc_ok (rs_pc (s_runs s ! i))"
      using assms(1) by (auto simp: svc_inv_def run_ok_def)
    from runLoop_step_active [OF step True this] True show ?thesis by (auto simp: active_post_def)
  next
    case False
    then show ?thesis using runLoop_step_shape(4) [OF step] by blast
  qed
next
  case (CallEv t ch)
  with assms show ?thesis by (intro caller_step_active) (simp add: vpn_exec_def)
qed (use assms in \<open>auto simp: vpn_exec_def SetAutoReconnect_def SetRetryPolicy_def\<close>)

section \<open>Sequences of steps\<close>

lemma vpn_run_append:
  "vpn_run (xs @ ys) s = (case vpn_run xs s of None \<Rightarrow> None | Some s' \<Rightarrow> vpn_run ys s')"
  by (induction xs s rule: vpn_run.induct) (auto split: option.splits)

lemma vpn_run_reachable: "reachable s \<Longrightarrow> vpn_run evs s = Some s' \<Longrightarrow> reachable s'"
  by (induction evs s rule: vpn_run.induct)
    (auto split: option.splits intro: reachable.more vpn_step.step)

lemma reachable_from_start: "vpn_run evs NewService = Some s \<Longrightarrow> reachable s"
  using vpn_run_reachable reachable.init by blast

lemma vpn_run_inv: "svc_inv s \<Longrightarrow> vpn_run evs s = Some s' \<Longrightarrow> svc_inv s'"
  by (induction evs s rule: vpn_run.induct) (auto split: option.splits intro: vpn_exec_inv)

lemma vpn_run_frozen:
  "svc_inv s \<Longrightarrow> vpn_run evs s = Some s' \<Longrightarrow> j < length (s_runs s) \<Longrightarrow>
   vs_EndedAt (rs_session (s_runs s ! j)) = Some e \<Longrightarrow>
   rs_session (s_runs s' ! j) = rs_session (s_runs s ! j)"
proof (induction evs s rule: vpn_run.induct)
  case (2 now ev evs s)
  from 2(3) obtain u where u: "vpn_exec now ev s = Some u" "vpn_run evs u = Some s'"
    by (auto split: option.splits)
  have frozen: "rs_session (s_runs u ! j) = rs_session (s_runs s ! j)"
    using 2(2) u(1) 2(4,5) by (rule vpn_exec_frozen)
  have "j < length (s_runs u)"
    using vpn_exec_runs_grow [OF u(1)] 2(4) by simp
  with 2(1) [OF u(1)] vpn_exec_inv [OF 2(2) u(1)] u(2) 2(5) frozen
  show ?case by simp
qed simp

lemma vpn_run_active:
  "svc_inv s \<Longrightarrow> vpn_run evs s = Some s' \<Longrightarrow> j < length (s_runs s) \<Longrightarrow>
   s_active s \<noteq> Some j \<Longrightarrow> j < length (s_runs s') \<and> s_active s' \<noteq> Some j"
proof (induction evs s rule: vpn_run.induct)
  case (2 now ev evs s)
  from 2(3) obtain u where u: "vpn_exec now ev s = Some u" "vpn_run evs u = Some s'"
    by (auto split: option.splits)
  have "j < length (s_runs u)" "s_active u \<noteq> Some j"
    using vpn_exec_runs_grow [OF u(1)] vpn_exec_active [OF 2(2) u(1)] 2(4,5) by auto
  with 2(1) [OF u(1)] vpn_exec_inv [OF 2(2) u(1)] u(2) show ?case by blast
qed simp

section \<open>Properties\<close>

text \<open>Two traces used as concrete inputs: a connect whose start succeeds, and then a
  disconnect served by the loop.\<close>

abbreviation (input) demo_profile :: ServerProfile where
  "demo_profile \<equiv> zero_profile\<lparr>sp_ID := ''srv'', sp_Name := ''n''\<rparr>"

definition connect_trace :: "(gotime \<times> event) list" where
  "connect_trace =
     map (Pair 7)
       [CallEv 0 (Invoke (CallConnect ''srv'' ModeVPN)), CallEv 0 (Resolved (Inr demo_profile)),
        CallEv 0 Go, CallEv 0 (FreshID ''sess''), LoopEv 0 Step, LoopEv 0 Step,
        LoopEv 0 (StartReturns None True), LoopEv 0 Step, LoopEv 0 Step, LoopEv 0 Step]"

definition disconnect_trace :: "(gotime \<times> event) list" where
  "disconnect_trace =
     map (Pair 9)
       [CallEv 0 (Invoke CallDisconnect), CallEv 0 Go, CallEv 0 Go, LoopEv 0 TakeCmd,
        LoopEv 0 Step, LoopEv 0 Step, LoopEv 0 Step, LoopEv 0 Step, CallEv 0 Go]"

definition demo_connected :: svc where
  "demo_connected = the (vpn_run connect_trace NewService)"

definition demo_disconnected :: svc where
  "demo_disconnected = the (vpn_run (connect_trace @ disconnect_trace) NewService)"

lemma demo_connected_run: "vpn_run connect_trace NewService = Some demo_connected"
proof -
  have "vpn_run connect_trace NewService \<noteq> None" by code_simp
  then show ?thesis by (simp add: demo_connected_def)
qed

lemma demo_disconnected_run: "vpn_run disconnect_trace demo_connected = Some demo_disconnected"
proof -
  have "vpn_run (connect_trace @ disconnect_trace) NewService \<noteq> None" by code_simp
  then show ?thesis by (auto simp: demo_disconnected_def vpn_run_append demo_connected_run)
qed

lemma demo_facts:
  "s_state demo_connected = StateConnected" "s_tunnel demo_connected"
  "s_active demo_connected = Some 0" "length (s_runs demo_connected) = 1"
  by code_simp+


lemma demo_reachable: "reachable demo_connected" "reachable demo_disconnected"
  using demo_connected_run demo_disconnected_run reachable_from_start vpn_run_reachable by blast+

text \<open>C7: in every reachable state, whatever the interleaving of callers and run loops, a
  service that reports Connecting, Connected or Reconnecting has a live run: the run is the
  active one, its loop has not exited, its session is the published one, is not ended, has
  that state as the last entry of its history, and \<open>RunningTo\<close> says so for its server.\<close>

theorem live_state_has_run:
  assumes "reachable s" "live_state (s_state s)"
  shows "\<exists>i < length (s_runs s).
    s_active s = Some i \<and> \<not> rs_done (s_runs s ! i) \<and>
    session_of s = Some (rs_session (s_runs s ! i)) \<and>
    vs_EndedAt (rs_session (s_runs s ! i)) = None \<and>
    sc_State (last (vs_StatusHistory (rs_session (s_runs s ! i)))) = s_state s \<and>
    RunningTo (vs_ServerID (rs_session (s_runs s ! i))) s"
  using reachable_inv [OF assms(1)] assms(2)
  by (auto simp: svc_inv_def active_run_ok_def run_ok_def session_of_def RunningTo_def Running_def
    split: option.splits)

theorem live_state_has_run_witness:
  "\<exists>i < length (s_runs demo_connected).
    s_active demo_connected = Some i \<and> \<not> rs_done (s_runs demo_connected ! i) \<and>
    RunningTo (vs_ServerID (rs_session (s_runs demo_connected ! i))) demo_connected"
  using live_state_has_run [OF demo_reachable(1)] demo_facts(1) by auto

text \<open>C9: an ended session is final. Once a reachable state has an end time in a session,
  no continuation of any length changes that session: not its end time, not its history and
  not its error, whichever loops, calls and timeouts still run.\<close>

theorem ended_session_immutable:
  assumes "reachable s" "vpn_run evs s = Some s'" "j < length (s_runs s)"
    and "vs_EndedAt (rs_session (s_runs s ! j)) = Some e"
  shows "rs_session (s_runs s' ! j) = rs_session (s_runs s ! j)"
  using vpn_run_frozen [OF reachable_inv [OF assms(1)] assms(2-)] .

definition reconnect_trace :: "(gotime \<times> event) list" where
  "reconnect_trace =
     map (Pair 11)
       [CallEv 0 (Invoke (CallConnect ''srv'' ModeProxy)), CallEv 0 (Resolved (Inr demo_profile)),
        CallEv 0 Go, CallEv 0 (FreshID ''sess2''), LoopEv 1 Step]"

lemma demo_ended:
  "vs_EndedAt (rs_session (s_runs demo_disconnected ! 0)) = Some 9"
  "length (s_runs demo_disconnected) = 1" "s_active demo_disconnected = None"
  "vpn_run reconnect_trace demo_disconnected \<noteq> None"
  by code_simp+

theorem ended_session_immutable_witness:
  "\<exists>s'. vpn_run reconnect_trace demo_disconnected = Some s' \<and>
     rs_session (s_runs s' ! 0) = rs_session (s_runs demo_disconnected ! 0)"
proof -
  obtain s' where s': "vpn_run reconnect_trace demo_disconnected = Some s'"
    using demo_ended(4) by blast
  have "(0::nat) < length (s_runs demo_disconnected)" by (simp add: demo_ended)
  with ended_session_immutable [OF demo_reachable(2) s' _ demo_ended(1)] s' show ?thesis by blast
qed

text \<open>C16: a run that is not the active one (it was replaced by a newer connect, ended by a
  force-disconnect, or exited) never becomes active again, and no step its loop can still
  take changes the state the service reports, the active run, the published session or any
  other run.\<close>

theorem replaced_run_is_harmless:
  assumes "reachable s" "vpn_run evs s = Some s'" "j < length (s_runs s)" "s_active s \<noteq> Some j"
  shows "s_active s' \<noteq> Some j \<and>
    (\<forall>now ch s''. runLoop_step now j ch s' = Some s'' \<longrightarrow>
       s_state s'' = s_state s' \<and> s_active s'' = s_active s' \<and> s_session s'' = s_session s' \<and>
       (\<forall>k. k \<noteq> j \<longrightarrow> s_runs s'' ! k = s_runs s' ! k))"
proof -
  have inactive: "s_active s' \<noteq> Some j"
    using vpn_run_active [OF reachable_inv [OF assms(1)] assms(2-)] by blast
  moreover have "s_runs s'' ! k = s_runs s' ! k" if "runLoop_step now j ch s' = Some s''" "k \<noteq> j"
    for now ch s'' k
    using runLoop_step_shape(2) [OF that(1)] that(2) by (metis nth_list_update_neq)
  ultimately show ?thesis
    using runLoop_step_shape(3,4) by blast
qed

theorem replaced_run_is_harmless_witness:
  "\<exists>s'. vpn_run reconnect_trace demo_disconnected = Some s' \<and> s_active s' \<noteq> Some 0"
proof -
  obtain s' where s': "vpn_run reconnect_trace demo_disconnected = Some s'"
    using demo_ended(4) by blast
  have "(0::nat) < length (s_runs demo_disconnected)" "s_active demo_disconnected \<noteq> Some 0"
    by (simp_all add: demo_ended)
  with replaced_run_is_harmless [OF demo_reachable(2) s'] s' show ?thesis by blast
qed

end
