(* ===== verification/VPN_Orderly.thy ===== *)
theory VPN_Orderly
  imports VPN_Invariants
begin

text \<open>
  The VPN service behind a bridge that serialises its requests: the reported state follows
  the connection state machine and traffic is routed only under an active run. Then the
  progress of a single run (retries, exhaustion, disconnect), the backoff, and the trace in
  which a caller's timeout leaves the tunnel up.
\<close>

section \<open>The invariant of orderly executions\<close>

text \<open>Where the tunnel may be up, and which state is reported, at each point of the loop.\<close>

fun may_route :: "loop_pc \<Rightarrow> bool" where
  "may_route (L_Started e) = True"
| "may_route L_Connected = True"
| "may_route L_Select = True"
| "may_route L_Lost = True"
| "may_route (L_Failed e) = True"
| "may_route (L_FailedStop e) = True"
| "may_route L_Reconnect = True"
| "may_route L_ReconnectStop = True"
| "may_route L_Teardown = True"
| "may_route L_TeardownStop = True"
| "may_route (L_Emit st k) = may_route k"
| "may_route _ = False"

fun reported :: "loop_pc \<Rightarrow> ConnectionState set" where
  "reported L_Start = {StateConnecting, StateReconnecting}"
| "reported L_Starting = {StateConnecting, StateReconnecting}"
| "reported (L_Started e) = {StateConnecting, StateReconnecting}"
| "reported L_Connected = {StateConnecting, StateReconnecting}"
| "reported L_Select = {StateConnected}"
| "reported L_Lost = {StateConnected}"
| "reported L_Reconnect = {StateConnected}"
| "reported L_ReconnectStop = {StateReconnecting}"
| "reported (L_Wait d) = {StateReconnecting}"
| "reported (L_WaitCmd c) = {StateReconnecting}"
| "reported L_WaitTimer = {StateReconnecting}"
| "reported L_Teardown = {StateConnected, StateReconnecting}"
| "reported L_TeardownStop = {StateDisconnected}"
| "reported (L_Emit st k) = reported k \<inter> {st}"
| "reported L_Finish = {StateDisconnected, StateError}"
| "reported L_Exited = {}"
| "reported _ = {StateConnecting, StateConnected, StateReconnecting}"

fun orderly_caller :: "svc \<Rightarrow> caller_pc \<Rightarrow> bool" where
  "orderly_caller s (C_Reap i p m) = (s_active s \<in> {Some i, None} \<and> i < length (s_runs s) \<and> \<not> live_state (s_state s))"
| "orderly_caller s (C_ReapStop i p m) = (s_active s \<in> {Some i, None} \<and> i < length (s_runs s) \<and> \<not> live_state (s_state s))"
| "orderly_caller s (C_ReapWait i p m) = (s_active s \<in> {Some i, None} \<and> i < length (s_runs s) \<and> \<not> live_state (s_state s))"
| "orderly_caller s (C_Commit p m) = (s_active s = None)"
| "orderly_caller s D_Reset = (s_active s = None \<and> s_state s = StateError)"
| "orderly_caller s D_Force = False"
| "orderly_caller s D_ForceStop = False"
| "orderly_caller s _ = True"

definition orderly_inv :: "svc \<Rightarrow> bool" where
  "orderly_inv s \<longleftrightarrow>
     (\<forall>j < length (s_runs s). rs_pc (s_runs s ! j) \<noteq> L_Exited \<longrightarrow> s_active s = Some j) \<and>
     (case s_active s of
        None \<Rightarrow> \<not> s_tunnel s \<and> s_state s \<in> {StateDisconnected, StateError}
      | Some i \<Rightarrow> i < length (s_runs s) \<and> s_state s \<in> reported (rs_pc (s_runs s ! i)) \<and>
          (s_tunnel s \<longrightarrow> may_route (rs_pc (s_runs s ! i)))) \<and>
     orderly_caller s (s_callers s 0) \<and> (\<forall>t. t \<noteq> 0 \<longrightarrow> s_callers s t = C_Idle)"

text \<open>The specification: the transitions of the connection state machine.\<close>

inductive spec_step :: "ConnectionState \<Rightarrow> ConnectionState \<Rightarrow> bool" where
  stay: "spec_step st st"
| connect: "st \<in> {StateDisconnected, StateError} \<Longrightarrow> spec_step st StateConnecting"
| connected: "st \<in> {StateConnecting, StateReconnecting} \<Longrightarrow> spec_step st StateConnected"
| retry: "live_state st \<Longrightarrow> spec_step st StateReconnecting"
| fail: "live_state st \<Longrightarrow> spec_step st StateError"
| disconnect: "st \<in> {StateConnected, StateReconnecting, StateError} \<Longrightarrow>
    spec_step st StateDisconnected"

lemma spec_step_facts [simp]:
  "spec_step st st" "live_state st \<Longrightarrow> spec_step st StateReconnecting"
  "live_state st \<Longrightarrow> spec_step st StateError"
  "spec_step StateDisconnected StateConnecting" "spec_step StateError StateConnecting"
  "spec_step StateConnecting StateConnected" "spec_step StateReconnecting StateConnected"
  "spec_step StateConnected StateDisconnected" "spec_step StateReconnecting StateDisconnected"
  "spec_step StateError StateDisconnected"
  by (rule spec_step.intros; simp)+

definition run_post :: "svc \<Rightarrow> nat \<Rightarrow> svc \<Rightarrow> bool" where
  "run_post s i s' \<longleftrightarrow>
     s_callers s' = s_callers s \<and> length (s_runs s') = length (s_runs s) \<and>
     spec_step (s_state s) (s_state s') \<and>
     (live_state (s_state s') \<longrightarrow> live_state (s_state s)) \<and>
     (if s_active s' = Some i
      then s_state s' \<in> reported (rs_pc (s_runs s' ! i)) \<and>
          (s_tunnel s' \<longrightarrow> may_route (rs_pc (s_runs s' ! i)))
      else s_active s' = None \<and> rs_pc (s_runs s' ! i) = L_Exited \<and> \<not> s_tunnel s' \<and> 
        s_state s' \<in> {StateDisconnected, StateError})"

lemma select_step_orderly:
  assumes "select_step i ch s = Some s'" "s_active s = Some i" "i < length (s_runs s)"
    "s_state s \<in> reported (rs_pc (s_runs s ! i))" "rs_pc (s_runs s ! i) = L_Select"
  shows "run_post s i s'"
  using assms
  by (cases ch) (auto simp: select_step_def take_cmd_def run_post_def goto_def select_pc_def split: list.splits if_splits command.splits)

lemma wait_step_orderly:
  assumes "wait_step i ch s = Some s'" "s_active s = Some i" "i < length (s_runs s)"
    "s_state s \<in> reported (rs_pc (s_runs s ! i))"
    "s_tunnel s \<longrightarrow> may_route (rs_pc (s_runs s ! i))" "rs_pc (s_runs s ! i) = L_Wait d"
  shows "run_post s i s'"
  using assms
  by (cases ch) (auto simp: wait_step_def take_cmd_def run_post_def goto_def split: list.splits if_splits)

lemma start_returns_orderly:
  assumes "start_returns i ch s = Some s'" "s_active s = Some i" "i < length (s_runs s)"
    "s_state s \<in> reported (rs_pc (s_runs s ! i))" "rs_pc (s_runs s ! i) = L_Starting"
  shows "run_post s i s'"
  using assms
  by (cases ch) (auto simp: start_returns_def run_post_def goto_def split: if_splits)

lemma run_post_goto:
  assumes "s_active s = Some i" "i < length (s_runs s)" "s_state s \<in> reported k"
    "b \<longrightarrow> may_route k" "\<And>r. rs_pc (f r) = k"
  shows "run_post s i (run_upd i f (s\<lparr>s_tunnel := b\<rparr>))"
  using assms by (simp add: run_post_def)

lemma run_post_transition:
  assumes "s_active s = Some i" "i < length (s_runs s)" "st \<in> reported k"
    "s_tunnel s \<longrightarrow> may_route k" "spec_step (s_state s) st"
    "live_state st \<longrightarrow> live_state (s_state s)"
  shows "run_post s i (transition now i st err k s)"
  using assms by (simp add: run_post_def transition_def)

lemma run_post_loop:
  assumes "s_active s = Some i" "i < length (s_runs s)" "s_state s \<in> reported k"
    "s_tunnel s \<longrightarrow> may_route k" "\<And>r. rs_pc (f r) = k"
  shows "run_post s i (run_upd i f s)"
  using assms by (simp add: run_post_def)

lemma live_reported: "s_state s \<in> {StateConnecting, StateConnected, StateReconnecting} \<Longrightarrow> live_state (s_state s)"
  by auto

lemma internal_step_orderly:
  assumes "internal_step now i (rs_pc (s_runs s ! i)) s = Some s'" "s_active s = Some i"
    "i < length (s_runs s)" "s_state s \<in> reported (rs_pc (s_runs s ! i))"
    "s_tunnel s \<longrightarrow> may_route (rs_pc (s_runs s ! i))"
  shows "run_post s i s'"
proof (cases "rs_pc (s_runs s ! i)")
  case (L_Started err)
  with assms show ?thesis
    by (cases err) (auto simp: internal_step_def run_post_def goto_def isActive_def)
next
  case L_Finish
  with assms show ?thesis
    by (auto simp: internal_step_def run_post_def finish_def)
next
  case (L_WaitCmd c)
  with assms show ?thesis
    by (cases c) (auto simp: internal_step_def run_post_def goto_def isActive_def waitcmd_pc_def)
next
  case (L_GiveUp e)
  with assms show ?thesis
    by (auto simp: internal_step_def intro!: run_post_transition)
next
  case (L_Backoff e d)
  with assms show ?thesis
    by (auto simp: internal_step_def intro!: run_post_transition)
next
  case L_Connected
  with assms show ?thesis
    by (auto simp: internal_step_def intro!: run_post_transition)
next
  case L_Reconnect
  with assms show ?thesis
    by (auto simp: internal_step_def intro!: run_post_transition)
next
  case L_Teardown
  with assms show ?thesis
    by (auto simp: internal_step_def run_post_def teardown_def)
next
  case (L_FailedStop e)
  with assms show ?thesis
    by (auto simp: internal_step_def tunnel_Stop_Some goto_def intro!: run_post_goto)
next
  case L_ReconnectStop
  with assms show ?thesis
    by (auto simp: internal_step_def tunnel_Stop_Some goto_def intro!: run_post_goto)
next
  case L_TeardownStop
  with assms show ?thesis
    by (auto simp: internal_step_def tunnel_Stop_Some goto_def intro!: run_post_goto)
next
  case (L_Emit st k)
  with assms show ?thesis
    by (auto simp: internal_step_def run_post_def goto_def)
next
  case (L_Delay e)
  with assms show ?thesis
    by (auto simp: internal_step_def run_post_def)
qed (use assms in \<open>auto simp: internal_step_def isActive_def goto_def
   intro!: run_post_loop split: if_splits\<close>)

lemma runLoop_step_orderly:
  assumes "runLoop_step now i ch s = Some s'" "s_active s = Some i"
    "s_state s \<in> reported (rs_pc (s_runs s ! i))"
    "s_tunnel s \<longrightarrow> may_route (rs_pc (s_runs s ! i))"
  shows "run_post s i s'"
proof -
  have i: "i < length (s_runs s)" using assms(1) by (rule runLoop_step_shape)
  note step = assms(1)[unfolded runLoop_step_def]
  show ?thesis
  proof (cases "rs_pc (s_runs s ! i) = L_Starting \<or> rs_pc (s_runs s ! i) = L_Select \<or> (\<exists>d. rs_pc (s_runs s ! i) = L_Wait d)")
    case True
    then show ?thesis
      using step i assms(2-) start_returns_orderly select_step_orderly wait_step_orderly
      by (elim disjE exE) simp_all
  next
    case False
    then have "internal_step now i (rs_pc (s_runs s ! i)) s = Some s'"
      using step i by (simp split: loop_pc.splits if_splits)
    then show ?thesis using i assms(2-) by (intro internal_step_orderly)
  qed
qed

lemma exited_stuck: "rs_pc (s_runs s ! i) = L_Exited \<Longrightarrow> runLoop_step now i ch s = None"
  by (simp add: runLoop_step_def internal_step_def)

lemma orderly_caller_mono:
  assumes "orderly_caller s pc" "s_active s = Some i" "s_active s' \<in> {Some i, None}"
    "length (s_runs s') = length (s_runs s)" "live_state (s_state s') \<longrightarrow> live_state (s_state s)"
  shows "orderly_caller s' pc"
  using assms by (cases pc) auto

lemma orderly_invD:
  assumes "orderly_inv s"
  shows "\<And>j. j < length (s_runs s) \<Longrightarrow> rs_pc (s_runs s ! j) \<noteq> L_Exited \<Longrightarrow> s_active s = Some j"
    and "\<And>i. s_active s = Some i \<Longrightarrow> s_state s \<in> reported (rs_pc (s_runs s ! i))"
    and "\<And>i. s_active s = Some i \<Longrightarrow> s_tunnel s \<longrightarrow> may_route (rs_pc (s_runs s ! i))"
    and "s_active s = None \<Longrightarrow> \<not> s_tunnel s \<and> s_state s \<in> {StateDisconnected, StateError}"
    and "orderly_caller s (s_callers s 0)"
    and "\<And>t. t \<noteq> 0 \<Longrightarrow> s_callers s t = C_Idle"
    and "\<And>i. s_active s = Some i \<Longrightarrow> i < length (s_runs s)"
  using assms by (auto simp: orderly_inv_def)

lemma run_post_inv:
  assumes "orderly_inv s" "run_post s i s'" "s_active s = Some i"
    and others: "\<And>j. j < length (s_runs s) \<Longrightarrow> j \<noteq> i \<Longrightarrow> s_runs s' ! j = s_runs s ! j"
  shows "orderly_inv s'"
proof -
  note post = assms(2)[unfolded run_post_def]
  have act: "s_active s' \<in> {Some i, None}" using post by (simp split: if_splits)
  have "s_active s' = Some j" if j: "j < length (s_runs s')" "rs_pc (s_runs s' ! j) \<noteq> L_Exited" for j
  proof (cases "j = i")
    case True
    with j post show ?thesis by (simp split: if_splits)
  next
    case False
    then have "s_active s = Some j"
      using j post others orderly_invD(1) [OF assms(1), of j] by simp
    with False assms(3) show ?thesis by simp
  qed
  moreover have "orderly_caller s' (s_callers s' 0)"
    using orderly_caller_mono [OF orderly_invD(5) [OF assms(1)] assms(3) act] post by simp
  moreover have "s_callers s' t = C_Idle" if "t \<noteq> 0" for t
    using orderly_invD(6) [OF assms(1)] that post by simp
  moreover have "case s_active s' of
        None \<Rightarrow> \<not> s_tunnel s' \<and> s_state s' \<in> {StateDisconnected, StateError}
      | Some i \<Rightarrow> i < length (s_runs s') \<and> s_state s' \<in> reported (rs_pc (s_runs s' ! i)) \<and>
          (s_tunnel s' \<longrightarrow> may_route (rs_pc (s_runs s' ! i)))"
    using post orderly_invD(7) [OF assms(1,3)] by (simp split: if_splits)
  ultimately show ?thesis unfolding orderly_inv_def by blast
qed

lemma orderly_loop_step:
  assumes "orderly_inv s" "runLoop_step now i ch s = Some s'"
  shows "orderly_inv s' \<and> spec_step (s_state s) (s_state s')"
proof -
  note shape = runLoop_step_shape [OF assms(2)]
  have "rs_pc (s_runs s ! i) \<noteq> L_Exited"
    using assms(2) by (metis exited_stuck option.distinct(1))
  with orderly_invD(1) [OF assms(1) shape(1)] have active: "s_active s = Some i" by blast
  then have post: "run_post s i s'"
    using assms orderly_invD(2,3) [OF assms(1)] by (intro runLoop_step_orderly) blast+
  moreover have "s_runs s' ! j = s_runs s ! j" if "j \<noteq> i" for j
    using shape(2) that by (metis nth_list_update_neq)
  ultimately show ?thesis
    using run_post_inv [OF assms(1) post active] by (simp add: run_post_def)
qed

text \<open>The caller's steps.\<close>

lemma orderly_caller_upd [simp]:
  "orderly_caller (run_upd i f s) k = orderly_caller s k"
  "orderly_caller (emitState st s) k = orderly_caller s k"
  "orderly_caller (call_goto t k' s) k = orderly_caller s k"
  "orderly_caller (s\<lparr>s_tunnel := b\<rparr>) k = orderly_caller s k"
  "orderly_caller (SetAutoReconnect on s) k = orderly_caller s k"
  "orderly_caller (SetRetryPolicy p s) k = orderly_caller s k"
  by (cases k; simp add: SetAutoReconnect_def SetRetryPolicy_def)+

lemma orderly_call_goto:
  assumes "orderly_inv s" "orderly_caller s k"
  shows "orderly_inv (call_goto 0 k s)"
  using assms by (simp add: orderly_inv_def split: option.splits)

lemma orderly_tunnel_stop:
  assumes "orderly_inv s"
  shows "orderly_inv (s\<lparr>s_tunnel := False\<rparr>)"
  using assms by (simp add: orderly_inv_def split: option.splits)

lemma orderly_emit:
  assumes "orderly_inv s"
  shows "orderly_inv (emitState st s)"
  using assms by (simp add: orderly_inv_def split: option.splits)

lemma orderly_run_upd:
  assumes "orderly_inv s" "\<And>r. rs_pc (f r) = rs_pc r"
  shows "orderly_inv (run_upd i f s)"
  using assms by (simp add: orderly_inv_def split: option.splits)

lemma orderly_sendCmd: "orderly_inv s \<Longrightarrow> orderly_inv (sendCmd i c s)"
  unfolding sendCmd_def by (rule orderly_run_upd) simp_all

lemma orderly_caller_sendCmd [simp]: "orderly_caller (sendCmd i c s) k = orderly_caller s k"
  by (simp add: sendCmd_def)

lemma orderly_check:
  assumes "orderly_inv s"
  shows "orderly_inv (connect_check 0 p m s)"
  using assms orderly_invD(7) [OF assms]
  by (auto simp: connect_check_def intro!: orderly_call_goto split: option.splits)

lemma orderly_disconnect_read:
  assumes "orderly_inv s"
  shows "orderly_inv (disconnect_read 0 s)"
  using assms orderly_invD(4) [OF assms]
  by (auto simp: disconnect_read_def intro!: orderly_call_goto split: option.splits)

lemma orderly_reconnect_read:
  assumes "orderly_inv s"
  shows "orderly_inv (reconnect_read 0 s)"
  using assms
  by (auto simp: reconnect_read_def intro!: orderly_call_goto split: option.splits)

lemma orderly_reset:
  assumes "orderly_inv s" "s_active s = None"
  shows "orderly_inv (call_goto 0 (C_Emit StateDisconnected) (s\<lparr>s_state := StateDisconnected\<rparr>))"
  using assms by (simp add: orderly_inv_def)

lemma orderly_commit:
  assumes "orderly_inv s" "s_active s = None"
  shows "orderly_inv (connect_commit now x 0 p m s)"
  using assms
  by (auto simp: orderly_inv_def connect_commit_def nth_append new_run_def less_Suc_eq)

lemma read_state [simp]:
  "s_state (connect_check t p m s) = s_state s" "s_state (disconnect_read t s) = s_state s"
  "s_state (reconnect_read t s) = s_state s" "s_state (sendCmd i c s) = s_state s"
  by (simp_all add: connect_check_def disconnect_read_def reconnect_read_def sendCmd_def
    split: option.split)

lemma caller_go_orderly:
  assumes "orderly_inv s" "caller_go now 0 (s_callers s 0) s = Some s'"
  shows "orderly_inv s' \<and> spec_step (s_state s) (s_state s')"
  using assms orderly_invD(5) [OF assms(1)]
  by (cases "s_callers s 0")
    (auto simp: caller_go_def tunnel_Stop_Some
    intro!: orderly_call_goto orderly_sendCmd orderly_check orderly_disconnect_read
      orderly_reconnect_read orderly_reset orderly_emit orderly_tunnel_stop orderly_run_upd)

text \<open>Every run of the callers' own steps.\<close>

lemma reap_done:
  assumes "svc_inv s" "orderly_caller s (C_ReapWait i p m)" "rs_done (s_runs s ! i)"
  shows "s_active s = None"
  using assms by (auto simp: svc_inv_def active_run_ok_def run_ok_def)

lemma orderly_entry:
  assumes "orderly_inv s" "(case ch of Invoke c \<Rightarrow> Some (call_goto 0 (call_entry c) s) | _ \<Rightarrow> None) = Some s'"
  shows "orderly_inv s' \<and> spec_step (s_state s) (s_state s')"
  using assms
  by (cases ch) (auto simp: call_entry_def intro!: orderly_call_goto split: api_call.split)

lemma caller_step_orderly:
  assumes "orderly_inv s" "svc_inv s" "caller_step now 0 ch s = Some s'" "ch \<noteq> TimedOut"
  shows "orderly_inv s' \<and> spec_step (s_state s) (s_state s')"
proof -
  note inv = assms(1) and caller = orderly_invD(5) [OF assms(1)]
    and step = assms(3) [unfolded caller_step_def] and dest = orderly_invD(4) [OF assms(1)]
  have go: ?thesis if "s_callers s 0 = pc" "(if ch = Go then caller_go now 0 pc s else None) = Some s'" for pc
    using that inv by (intro caller_go_orderly) (simp_all split: if_splits)
  show ?thesis
  proof (cases "s_callers s 0")
    case C_Idle
    with step inv show ?thesis by (intro orderly_entry) simp_all
  next
    case (C_Return r)
    with step inv show ?thesis by (intro orderly_entry) simp_all
  next
    case (C_Connect serverID m)
    with step inv show ?thesis
      by (cases ch) (auto intro!: orderly_call_goto split: sum.splits)
  next
    case (C_Commit p m)
    with step obtain x where "s' = connect_commit now x 0 p m s" by (cases ch) auto
    with C_Commit orderly_commit [OF inv] caller dest show ?thesis
      by (auto simp: connect_commit_def)
  next
    case (C_ReapWait i p m)
    with step assms(4) have "rs_done (s_runs s ! i)" "s' = call_goto 0 (C_Commit p m) s"
      by (cases ch; simp add: await_done_def split: if_splits)+
    with C_ReapWait orderly_call_goto [OF inv, of "C_Commit p m"] caller
      reap_done [OF assms(2), of i p m]
    show ?thesis by simp
  next
    case (D_Wait i)
    with step assms(4) have "s' = call_goto 0 (C_Return None) s"
      by (cases ch; simp add: await_done_def split: if_splits)
    with inv show ?thesis by (simp add: orderly_call_goto)
  qed (rule go, assumption, use step in simp)+
qed

lemma settings_sel [simp]:
  "s_state (SetAutoReconnect on s) = s_state s" "s_state (SetRetryPolicy p s) = s_state s"
  by (simp_all add: SetAutoReconnect_def SetRetryPolicy_def)

lemma orderly_settings:
  assumes "orderly_inv s"
  shows "orderly_inv (SetAutoReconnect on s)" "orderly_inv (SetRetryPolicy p s)"
proof -
  have "orderly_caller (s\<lparr>s_auto := on\<rparr>) (s_callers s 0) \<and>
      orderly_caller (s\<lparr>s_retry := q\<rparr>) (s_callers s 0)" for q
    using orderly_invD(5) [OF assms] by (cases "s_callers s 0") simp_all
  then show "orderly_inv (SetAutoReconnect on s)" "orderly_inv (SetRetryPolicy p s)"
    using assms
    by (simp_all add: SetAutoReconnect_def SetRetryPolicy_def orderly_inv_def split: option.splits)
qed

lemma vpn_exec_orderly:
  assumes "orderly_inv s" "svc_inv s" "vpn_exec now ev s = Some s'" "orderly ev"
  shows "orderly_inv s' \<and> spec_step (s_state s) (s_state s')"
proof (cases ev)
  case (LoopEv i ch)
  with assms show ?thesis by (intro orderly_loop_step) (auto simp: vpn_exec_def)
next
  case (CallEv t ch)
  with assms show ?thesis
    by (intro caller_step_orderly) (auto simp: vpn_exec_def orderly_def)
next
  case (AutoEv on)
  with assms show ?thesis using orderly_settings [OF assms(1)] by (auto simp: vpn_exec_def)
next
  case (RetryEv p)
  with assms show ?thesis using orderly_settings [OF assms(1)] by (auto simp: vpn_exec_def)
qed

lemma orderly_reachable_inv: "orderly_reachable s \<Longrightarrow> orderly_inv s \<and> svc_inv s"
proof (induction rule: orderly_reachable.induct)
  case init
  then show ?case by (simp add: orderly_inv_def NewService_def svc_inv_init [unfolded NewService_def])
next
  case (more s now ev s')
  then show ?case using vpn_exec_orderly vpn_exec_inv by blast
qed

lemma orderly_run:
  "orderly_reachable s \<Longrightarrow> vpn_run evs s = Some s' \<Longrightarrow> list_all (\<lambda>p. orderly (snd p)) evs \<Longrightarrow>
   orderly_reachable s'"
  by (induction evs s rule: vpn_run.induct)
    (auto split: option.splits intro: orderly_reachable.more)

lemma demo_orderly: "orderly_reachable demo_connected"
proof -
  have "list_all (\<lambda>p. orderly (snd p)) connect_trace" by code_simp
  with orderly_run [OF orderly_reachable.init demo_connected_run] show ?thesis .
qed

section \<open>Progress of a single run\<close>

definition others_free :: "nat \<Rightarrow> svc \<Rightarrow> bool" where
  "others_free i s \<longleftrightarrow> (\<forall>j < length (s_runs s). j \<noteq> i \<longrightarrow> rs_pc (s_runs s ! j) \<noteq> L_Starting)"

lemma tunnel_free_upd [simp]:
  "i < length (s_runs s) \<Longrightarrow>
     tunnel_free (run_upd i f s) = (others_free i s \<and> rs_pc (f (s_runs s ! i)) \<noteq> L_Starting)"
  by (auto simp: tunnel_free_def others_free_def list_all_length)

lemma others_freeD: "others_free i s \<Longrightarrow> rs_pc (s_runs s ! i) \<noteq> L_Starting \<Longrightarrow> tunnel_free s"
  by (auto simp: tunnel_free_def others_free_def list_all_length)

lemma others_free_upd [simp]:
  "others_free i (run_upd i f s) = others_free i s"
  "others_free i (call_goto t k s) = others_free i s"
  "others_free i (emitState st s) = others_free i s"
  "others_free i (s\<lparr>s_tunnel := b\<rparr>) = others_free i s"
  "others_free i (s\<lparr>s_state := x\<rparr>) = others_free i s"
  by (auto simp: others_free_def)

text \<open>The steps of a loop whose start fails and that then waits out the backoff.\<close>

definition failed_start :: "nat \<Rightarrow> gotime \<Rightarrow> goerror \<Rightarrow> bool \<Rightarrow> (gotime \<times> event) list" where
  "failed_start i now e up =
     map (\<lambda>ch. (now, LoopEv i ch))
       [Step, StartReturns (Some e) up, Step, Step, Step, Step]"

definition waited_out :: "nat \<Rightarrow> gotime \<Rightarrow> (gotime \<times> event) list" where
  "waited_out i now =
     map (\<lambda>ch. (now, LoopEv i ch)) [Step, Step, Step, TimerFires, Step]"

definition gave_up :: "nat \<Rightarrow> gotime \<Rightarrow> (gotime \<times> event) list" where
  "gave_up i now = map (\<lambda>ch. (now, LoopEv i ch)) [Step, Step, Step]"

definition at_start :: "nat \<Rightarrow> int \<Rightarrow> svc \<Rightarrow> bool" where
  "at_start i a s \<longleftrightarrow>
     i < length (s_runs s) \<and> s_active s = Some i \<and> rs_pc (s_runs s ! i) = L_Start \<and>
     rs_attempt (s_runs s ! i) = a \<and> others_free i s"

lemmas exec_simps = vpn_exec_def runLoop_step_def internal_step_def start_returns_def goto_def
  isActive_def tunnel_Stop_def shouldRetry_def transition_def wait_step_def finish_def

lemma retry_round:
  assumes "at_start i a s" "s_auto s" "rp_MaxAttempts (s_retry s) \<le> 0 \<or> a < rp_MaxAttempts (s_retry s)"
  shows "\<exists>u. vpn_run (failed_start i now e up @ waited_out i now) s = Some u \<and>
    at_start i (a + 1) u \<and> s_auto u \<and> s_retry u = s_retry s \<and> \<not> s_tunnel u \<and>
    s_state u = StateReconnecting"
proof -
  have "tunnel_free s" using assms(1) by (intro others_freeD [of i]) (simp_all add: at_start_def)
  with assms show ?thesis
    by (simp add: failed_start_def waited_out_def at_start_def exec_simps)
qed

lemma last_round:
  assumes "at_start i a s" "\<not> shouldRetry a s" "vs_EndedAt (rs_session (s_runs s ! i)) = None"
  shows "\<exists>u. vpn_run (failed_start i now e up @ gave_up i now) s = Some u \<and>
    s_state u = StateError \<and> s_active u = None \<and> \<not> s_tunnel u \<and> rs_done (s_runs u ! i) \<and>
    vs_Error (rs_session (s_runs u ! i)) = Some \<lparr>se_Code = classify e, se_Message = err_text e\<rparr> \<and>
    vs_EndedAt (rs_session (s_runs u ! i)) = Some now"
proof -
  have "tunnel_free s" using assms(1) by (intro others_freeD [of i]) (simp_all add: at_start_def)
  with assms show ?thesis
    by (simp add: failed_start_def gave_up_def at_start_def exec_simps set_error_def end_session_def)
qed


definition failing_starts :: "nat \<Rightarrow> gotime \<Rightarrow> goerror \<Rightarrow> bool \<Rightarrow> nat \<Rightarrow> (gotime \<times> event) list" where
  "failing_starts i now e up n =
     concat (replicate n (failed_start i now e up @ waited_out i now)) @
     failed_start i now e up @ gave_up i now"

lemma failing_starts_Suc:
  "vpn_run (failed_start i now e up @ waited_out i now) s = Some u \<Longrightarrow>
   vpn_run (failing_starts i now e up (Suc n)) s = vpn_run (failing_starts i now e up n) u"
  using vpn_run_append [of "failed_start i now e up @ waited_out i now" "failing_starts i now e up n" s]
  by (simp add: failing_starts_def)

lemma retry_round_session:
  assumes "at_start i a s" "vs_EndedAt (rs_session (s_runs s ! i)) = None"
    "vpn_run (failed_start i now e up @ waited_out i now) s = Some u"
    "s_auto s" "rp_MaxAttempts (s_retry s) \<le> 0 \<or> a < rp_MaxAttempts (s_retry s)"
  shows "vs_EndedAt (rs_session (s_runs u ! i)) = None"
proof -
  have "tunnel_free s" using assms(1) by (intro others_freeD [of i]) (simp_all add: at_start_def)
  with assms show ?thesis
    by (auto simp: failed_start_def waited_out_def at_start_def exec_simps)
qed

lemma failing_starts_from:
  assumes "at_start i a s" "s_auto s" "vs_EndedAt (rs_session (s_runs s ! i)) = None"
    "a + int n = rp_MaxAttempts (s_retry s)" "0 < rp_MaxAttempts (s_retry s)"
  shows "\<exists>u. vpn_run (failing_starts i now e up n) s = Some u \<and>
    s_state u = StateError \<and> s_active u = None \<and> \<not> s_tunnel u \<and> rs_done (s_runs u ! i) \<and>
    vs_Error (rs_session (s_runs u ! i)) = Some \<lparr>se_Code = classify e, se_Message = err_text e\<rparr> \<and>
    vs_EndedAt (rs_session (s_runs u ! i)) = Some now"
  using assms
proof (induction n arbitrary: a s)
  case 0
  then show ?case
    using last_round [of i a s now e up] by (simp add: failing_starts_def shouldRetry_def)
next
  case (Suc n)
  then have lt: "a < rp_MaxAttempts (s_retry s)" by linarith
  then obtain u where u: "vpn_run (failed_start i now e up @ waited_out i now) s = Some u"
    "at_start i (a + 1) u" "s_auto u" "s_retry u = s_retry s"
    using retry_round [OF Suc.prems(1,2)] by blast
  have "vs_EndedAt (rs_session (s_runs u ! i)) = None"
    using retry_round_session [OF Suc.prems(1,3) u(1) Suc.prems(2)] lt by blast
  then have "\<exists>v. vpn_run (failing_starts i now e up n) u = Some v \<and>
    s_state v = StateError \<and> s_active v = None \<and> \<not> s_tunnel v \<and> rs_done (s_runs v ! i) \<and>
    vs_Error (rs_session (s_runs v ! i)) = Some \<lparr>se_Code = classify e, se_Message = err_text e\<rparr> \<and>
    vs_EndedAt (rs_session (s_runs v ! i)) = Some now"
    using Suc.prems u by (intro Suc.IH [of "a + 1"]) simp_all
  then show ?case
    by (simp only: failing_starts_Suc [OF u(1)])
qed

lemma backoff_loop_le: "d \<le> 32 * second \<Longrightarrow> 0 < d \<Longrightarrow>
   d \<in> {second, 2 * second, 4 * second, 8 * second, 16 * second, 32 * second} \<Longrightarrow>
   d \<le> backoff_loop n d \<and> backoff_loop n d \<le> 32 * second"
  by (induction n d rule: backoff_loop.induct) (auto split: if_splits)

lemma backoff_loop_Suc: "backoff_loop n d \<le> backoff_loop (Suc n) d" if "0 \<le> d"
  using that by (induction n d rule: backoff_loop.induct) auto

section \<open>The loss counter\<close>

fun attempt_reset :: "loop_pc \<Rightarrow> bool" where
  "attempt_reset L_Connected = True"
| "attempt_reset L_Select = True"
| "attempt_reset L_Lost = True"
| "attempt_reset (L_Emit st k) = attempt_reset k"
| "attempt_reset _ = False"

definition attempt_inv :: "svc \<Rightarrow> bool" where
  "attempt_inv s \<longleftrightarrow>
     (\<forall>i < length (s_runs s). attempt_reset (rs_pc (s_runs s ! i)) \<longrightarrow> rs_attempt (s_runs s ! i) = 0)"

lemma select_not_reset [simp]: "\<not> attempt_reset (select_pc c)" "\<not> attempt_reset (waitcmd_pc c)"
  by (simp_all add: select_pc_def waitcmd_pc_def split: command.split)

lemma loop_step_attempt:
  assumes "runLoop_step now i ch s = Some s'"
    "attempt_reset (rs_pc (s_runs s ! i)) \<longrightarrow> rs_attempt (s_runs s ! i) = 0"
  shows "attempt_reset (rs_pc (s_runs s' ! i)) \<longrightarrow> rs_attempt (s_runs s' ! i) = 0"
  using assms runLoop_step_shape(1) [OF assms(1)]
  by (cases "rs_pc (s_runs s ! i)"; cases ch)
    (auto simp: runLoop_step_def loop_defs split: if_splits option.splits list.splits)

lemma caller_step_attempt:
  assumes "caller_step now t ch s = Some s'" "attempt_inv s"
  shows "attempt_inv s'"
  using assms
  by (auto simp: caller_step_def await_done_def connect_commit_def caller_go_def new_run_def
      connect_check_def disconnect_read_def reconnect_read_def tunnel_Stop_Some sendCmd_def
      forceDisconnect_def attempt_inv_def nth_append
      split: caller_pc.splits caller_choice.splits sum.splits if_splits option.splits)

lemma reachable_attempt: "reachable s \<Longrightarrow> attempt_inv s"
proof (induction rule: reachable.induct)
  case (more s s')
  then obtain now ev where step: "vpn_exec now ev s = Some s'" by (auto elim: vpn_stepE)
  show ?case
  proof (cases ev)
    case (LoopEv i ch)
    with step have l: "runLoop_step now i ch s = Some s'" by (simp add: vpn_exec_def)
    then have "s_runs s' ! j = s_runs s ! j" if "j \<noteq> i" for j
      using runLoop_step_shape(2) that by (metis nth_list_update_neq)
    moreover have "length (s_runs s') = length (s_runs s)"
      using runLoop_step_shape(2) [OF l] by (metis length_list_update)
    moreover note loop_step_attempt [OF l] runLoop_step_shape(1) [OF l] more.IH
    ultimately show ?thesis unfolding attempt_inv_def by metis
  next
    case (CallEv t ch)
    with step more.IH show ?thesis by (auto simp: vpn_exec_def intro: caller_step_attempt)
  qed (use step more.IH in \<open>auto simp: vpn_exec_def SetAutoReconnect_def SetRetryPolicy_def attempt_inv_def\<close>)
qed (simp add: attempt_inv_def NewService_def)


section \<open>Properties\<close>



text \<open>When callers are serialised and no wait times out, traffic is routed only under
  an active run: with no active run the tunnel is down and the reported state is
  Disconnected or Error, a loop waiting out a backoff (or about to start again, or leaving)
  has stopped the tunnel, and a run that is not active has exited.\<close>

theorem orderly_tunnel_safety:
  assumes "orderly_reachable s"
  shows "(s_active s = None \<longrightarrow> \<not> s_tunnel s \<and> s_state s \<in> {StateDisconnected, StateError}) \<and>
    (\<forall>i. s_active s = Some i \<longrightarrow> s_tunnel s \<longrightarrow> may_route (rs_pc (s_runs s ! i))) \<and>
    (\<forall>j < length (s_runs s). s_active s \<noteq> Some j \<longrightarrow> rs_pc (s_runs s ! j) = L_Exited)"
  using orderly_invD [of s] orderly_reachable_inv [OF assms] by blast

theorem orderly_tunnel_safety_witness:
  "s_tunnel demo_connected \<and> s_active demo_connected = Some 0 \<and>
   may_route (rs_pc (s_runs demo_connected ! 0))"
  using orderly_tunnel_safety [OF demo_orderly] demo_facts by simp

text \<open>C17: a run whose every start fails makes exactly one start more than the policy's
  limit and then gives up: after the given number of failed starts, each followed by a
  waited-out backoff, and one last failed start, the service reports Error, the tunnel is
  stopped, no run is active, the loop has exited, and the session is ended with the
  classified error.\<close>

theorem exhausted_retries_end_in_error:
  assumes "at_start i 0 s" "s_auto s" "vs_EndedAt (rs_session (s_runs s ! i)) = None"
    "int n = rp_MaxAttempts (s_retry s)" "0 < n"
  shows "\<exists>u. vpn_run (failing_starts i now e up n) s = Some u \<and>
    s_state u = StateError \<and> s_active u = None \<and> \<not> s_tunnel u \<and> rs_done (s_runs u ! i) \<and>
    vs_Error (rs_session (s_runs u ! i)) = Some \<lparr>se_Code = classify e, se_Message = err_text e\<rparr> \<and>
    vs_EndedAt (rs_session (s_runs u ! i)) = Some now"
  using failing_starts_from [of i 0 s n now e up] assms by simp

definition demo_starting :: svc where
  "demo_starting = the (vpn_run (take 5 connect_trace) NewService)"

theorem exhausted_retries_end_in_error_witness:
  "\<exists>u. vpn_run (failing_starts 0 8 (plain_error ''dial: Permission denied'') True 5) demo_starting =
      Some u \<and> s_state u = StateError \<and> \<not> s_tunnel u"
proof -
  have "at_start 0 0 demo_starting" "s_auto demo_starting"
    "vs_EndedAt (rs_session (s_runs demo_starting ! 0)) = None"
    "int 5 = rp_MaxAttempts (s_retry demo_starting)" "0 < (5::nat)"
    unfolding at_start_def others_free_def by code_simp+
  from exhausted_retries_end_in_error [OF this] show ?thesis by blast
qed

text \<open>A failed start that is retried stops the tunnel before the service waits, and waits
  for the policy's backoff of the number of failures so far: after the failed start the loop
  is at the backoff wait with that delay, has counted the failure, reports Reconnecting and
  routes nothing, even if the failed start left the tunnel up.\<close>

theorem failed_start_backs_off:
  assumes "at_start i a s" "shouldRetry a s"
  shows "\<exists>u. vpn_run (failed_start i now e up @ map (\<lambda>ch. (now, LoopEv i ch)) [Step, Step, Step]) s = Some u \<and>
    rs_pc (s_runs u ! i) = L_Wait (rp_Backoff (s_retry s) a) \<and>
    rs_attempt (s_runs u ! i) = a + 1 \<and> s_state u = StateReconnecting \<and> \<not> s_tunnel u"
proof -
  have "tunnel_free s" using assms(1) by (intro others_freeD [of i]) (simp_all add: at_start_def)
  with assms show ?thesis
    by (simp add: failed_start_def at_start_def exec_simps backoff_def)
qed

theorem failed_start_backs_off_witness:
  "\<exists>u. vpn_run (failed_start 0 8 (plain_error ''x'') True @
        map (\<lambda>ch. (8, LoopEv 0 ch)) [Step, Step, Step]) demo_starting = Some u \<and>
     rs_pc (s_runs u ! 0) = L_Wait second \<and> \<not> s_tunnel u"
proof -
  have "at_start 0 0 demo_starting" "shouldRetry 0 demo_starting"
    "rp_Backoff (s_retry demo_starting) 0 = second"
    unfolding at_start_def others_free_def by code_simp+
  with failed_start_backs_off [OF this(1,2)] show ?thesis by (metis (no_types))
qed

text \<open>C18: the default backoff never decreases with the attempt, lies between one second and
  32 seconds, and reaches 32 seconds from the fifth attempt on (the comment of the policy
  names a cap of 30 seconds).\<close>

theorem Backoff_bounds:
  "second \<le> Backoff a \<and> Backoff a \<le> 32 * second \<and> Backoff a \<le> Backoff (a + 1) \<and>
   Backoff 5 = 32 * second"
proof -
  have "nat (if a + 1 < 0 then 0 else a + 1) = Suc (nat (if a < 0 then 0 else a)) \<or>
      (if a + 1 < 0 then 0 else a + 1) = (0::int) \<and> (if a < 0 then 0 else a) = 0"
    by auto
  moreover have "Backoff 5 = 32 * second" by code_simp
  ultimately show ?thesis
    using backoff_loop_le [of second "nat (if a < 0 then 0 else a)"]
      backoff_loop_Suc [of second "nat (if a < 0 then 0 else a)"]
    by (auto simp: Backoff_def)
qed

text \<open>A lost tunnel is retried exactly when automatic reconnection is on. The failure
  counter is reset by every successful start, so in every reachable state in which the loop
  handles a loss the counter is zero and the retry limit, whatever it is, does not end the
  session (the comment promises an Error once the limit is reached).\<close>

theorem lost_tunnel_retried_iff_auto:
  assumes "reachable s" "i < length (s_runs s)" "rs_pc (s_runs s ! i) = L_Lost"
  shows "rs_attempt (s_runs s ! i) = 0 \<and> shouldRetry (rs_attempt (s_runs s ! i)) s = s_auto s"
  using reachable_attempt [OF assms(1)] assms(2,3) by (auto simp: attempt_inv_def shouldRetry_def)

definition demo_lost :: svc where
  "demo_lost = the (vpn_run (connect_trace @ [(9, LoopEv 0 LostFires)]) NewService)"

theorem lost_tunnel_retried_iff_auto_witness:
  "rs_pc (s_runs demo_lost ! 0) = L_Lost \<and> shouldRetry (rs_attempt (s_runs demo_lost ! 0)) demo_lost"
proof -
  have "vpn_run (connect_trace @ [(9, LoopEv 0 LostFires)]) NewService \<noteq> None" by code_simp
  then have "reachable demo_lost"
    by (intro reachable_from_start) (auto simp: demo_lost_def)
  moreover have "0 < length (s_runs demo_lost)" "rs_pc (s_runs demo_lost ! 0) = L_Lost" "s_auto demo_lost"
    by code_simp+
  ultimately show ?thesis using lost_tunnel_retried_iff_auto [of demo_lost 0] by blast
qed

definition disconnect_run :: "nat \<Rightarrow> nat \<Rightarrow> gotime \<Rightarrow> (gotime \<times> event) list" where
  "disconnect_run t i now =
     map (Pair now)
       [CallEv t (Invoke CallDisconnect), CallEv t Go, CallEv t Go, LoopEv i TakeCmd,
        LoopEv i Step, LoopEv i Step, LoopEv i Step, LoopEv i Step, CallEv t Go]"

text \<open>Disconnect while connected: the caller's command and the loop's own steps end in
  Disconnected with the tunnel stopped, no active run, the loop exited, the session ended at
  that time with Disconnected as the last state of its history, and a nil error for the
  caller.\<close>

theorem disconnect_when_connected:
  assumes "i < length (s_runs s)" "s_active s = Some i" "rs_pc (s_runs s ! i) = L_Select"
    "rs_cmds (s_runs s ! i) = []" "others_free i s" "s_callers s t = C_Idle"
    "vs_EndedAt (rs_session (s_runs s ! i)) = None"
  shows "\<exists>u. vpn_run (disconnect_run t i now) s = Some u \<and>
    s_state u = StateDisconnected \<and> s_active u = None \<and> \<not> s_tunnel u \<and> rs_done (s_runs u ! i) \<and>
    vs_EndedAt (rs_session (s_runs u ! i)) = Some now \<and>
    last (vs_StatusHistory (rs_session (s_runs u ! i))) =
      \<lparr>sc_State = StateDisconnected, sc_At = now\<rparr> \<and>
    s_callers u t = C_Return None"
  using assms
  by (simp add: disconnect_run_def exec_simps caller_step_def caller_go_def disconnect_read_def
    call_entry_def sendCmd_def select_step_def take_cmd_def select_pc_def teardown_def
    await_done_def end_session_state_def end_session_def)

theorem disconnect_when_connected_witness:
  "\<exists>u. vpn_run (disconnect_run 1 0 9) demo_connected = Some u \<and> s_state u = StateDisconnected \<and>
     \<not> s_tunnel u \<and> s_callers u 1 = C_Return None"
proof -
  have "0 < length (s_runs demo_connected)" "s_active demo_connected = Some 0"
    "rs_pc (s_runs demo_connected ! 0) = L_Select" "rs_cmds (s_runs demo_connected ! 0) = []"
    "others_free 0 demo_connected" "s_callers demo_connected 1 = C_Idle"
    "vs_EndedAt (rs_session (s_runs demo_connected ! 0)) = None"
    unfolding others_free_def by code_simp+
  from disconnect_when_connected [OF this] show ?thesis by blast
qed

definition race_trace :: "event list" where
  "race_trace =
     [CallEv 0 (Invoke (CallConnect ''srv'' ModeVPN)), CallEv 0 (Resolved (Inr demo_profile)),
      CallEv 0 Go, CallEv 0 (FreshID ''sess''), LoopEv 0 Step, LoopEv 0 Step,
      LoopEv 0 (StartReturns (Some (plain_error ''x'')) False)] @ replicate 7 (LoopEv 0 Step) @
     [LoopEv 0 TimerFires, LoopEv 0 Step, LoopEv 0 Step,
      CallEv 0 (Invoke CallReconnect), CallEv 0 Go, CallEv 0 Go,
      CallEv 0 (Invoke CallDisconnect), CallEv 0 Go, CallEv 0 Go,
      LoopEv 0 (StartReturns (Some (plain_error ''x'')) False)] @ replicate 7 (LoopEv 0 Step) @
     [LoopEv 0 TakeCmd, LoopEv 0 Step, CallEv 0 TimedOut, CallEv 0 Go, CallEv 0 Go, CallEv 0 Go,
      LoopEv 0 Step, LoopEv 0 (StartReturns None True), LoopEv 0 Step, LoopEv 0 Step]"

text \<open>C19: the callers' timeouts break the safety of the tunnel. There is a reachable state,
  reached by one caller alone (a Reconnect and a Disconnect issued while a start is in flight, the
  Disconnect's wait timing out), in which the service reports Disconnected, no run is active, every
  loop has exited, every session is ended and the caller has returned, and the tunnel is
  still up.\<close>

theorem tunnel_up_after_disconnect:
  "\<exists>s. reachable s \<and> s_state s = StateDisconnected \<and> s_active s = None \<and> s_runs s \<noteq> [] \<and>
     list_all (\<lambda>r. rs_done r \<and> vs_EndedAt (rs_session r) \<noteq> None) (s_runs s) \<and>
     s_callers s 0 = C_Return None \<and> s_tunnel s"
proof -
  have "case vpn_run (map (Pair 7) race_trace) NewService of
      None \<Rightarrow> False
    | Some s \<Rightarrow> s_state s = StateDisconnected \<and> s_active s = None \<and> s_runs s \<noteq> [] \<and>
        list_all (\<lambda>r. rs_done r \<and> vs_EndedAt (rs_session r) \<noteq> None) (s_runs s) \<and>
        s_callers s 0 = C_Return None \<and> s_tunnel s"
    by code_simp
  then show ?thesis
    by (auto split: option.splits dest: reachable_from_start)
qed

end
