(* ===== verification/Engine_Options.thy ===== *)
theory Engine_Options
  imports Omni_Models Go_Text
begin

text \<open>
  The engine's configuration (\<open>engine/config.go\<close>, \<open>engine/log.go\<close>, \<open>engine/errors.go\<close>)
  and the mapping of a server profile onto it (\<open>core/tunnel/options.go\<close>). The structs of the
  engine's option package are records with the fields the code sets; addresses and prefixes
  are their texts, and \<open>netip.MustParseAddr\<close>, which panics on a text that is not an address,
  is decided by a parameter.
\<close>

section \<open>Levels\<close>

type_synonym Level = int

abbreviation (input) EngTrace :: Level where "EngTrace \<equiv> 0"
abbreviation (input) EngDebug :: Level where "EngDebug \<equiv> 1"
abbreviation (input) EngInfo :: Level where "EngInfo \<equiv> 2"
abbreviation (input) EngWarn :: Level where "EngWarn \<equiv> 3"
abbreviation (input) EngError :: Level where "EngError \<equiv> 4"
abbreviation (input) EngFatal :: Level where "EngFatal \<equiv> 5"
abbreviation (input) EngPanic :: Level where "EngPanic \<equiv> 6"

definition level_String :: "Level \<Rightarrow> string" where
  "level_String l =
     (if l = EngTrace then ''trace'' else if l = EngDebug then ''debug''
      else if l = EngInfo then ''info'' else if l = EngWarn then ''warn''
      else if l = EngError then ''error'' else if l = EngFatal then ''fatal''
      else if l = EngPanic then ''panic'' else ''info'')"

text \<open>The engine library numbers its levels the other way round: panic is 0, trace is 6.\<close>

definition levelFromBox :: "int \<Rightarrow> Level" where
  "levelFromBox level =
     (if level = 0 then EngPanic else if level = 1 then EngFatal
      else if level = 2 then EngError else if level = 3 then EngWarn
      else if level = 4 then EngInfo else if level = 5 then EngDebug
      else if level = 6 then EngTrace else EngInfo)"

section \<open>Engine options\<close>

record TransportSettings =
  ts_Type :: string
  ts_Path :: string
  ts_Host :: string
  ts_MaxEarlyData :: "32 word"
  ts_EarlyDataHeaderName :: string

record TLSSettings =
  es_ServerName :: string
  es_Insecure :: bool
  es_ALPN :: "string list"
  es_Fingerprint :: string

record SSHSettings =
  eh_User :: string
  eh_Password :: string
  eh_PrivateKey :: string
  eh_PrivateKeyPass :: string
  eh_HostKey :: string

record Outbound =
  ob_Protocol :: string
  ob_Address :: string
  ob_Port :: "16 word"
  ob_Username :: string
  ob_Password :: string
  ob_Cipher :: string
  ob_UUID :: string
  ob_Flow :: string
  ob_Security :: string
  ob_GlobalPadding :: bool
  ob_AuthenticatedLength :: bool
  ob_PacketEncoding :: string
  ob_TLS :: "TLSSettings option"
  ob_SSH :: "SSHSettings option"
  ob_Transport :: "TransportSettings option"

record ProxyOptions =
  po_Listen :: string
  po_Port :: "16 word"

record TunOptions =
  tn_InterfaceName :: string
  tn_MTU :: "32 word"
  tn_Address :: "string list"
  tn_AutoRoute :: bool
  tn_Stack :: string
  tn_StrictRoute :: bool

record Options =
  op_Mode :: string
  op_LogLevel :: Level
  op_Outbound :: Outbound
  op_Proxy :: ProxyOptions
  op_Tun :: TunOptions
  op_IPv6Mode :: string
  op_CacheFilePath :: string

section \<open>The engine library's options\<close>

record UTLSOptions =
  ut_Enabled :: bool
  ut_Fingerprint :: string

record TLSOptions =
  to_Enabled :: bool
  to_ServerName :: string
  to_Insecure :: bool
  to_ALPN :: "string list"
  to_UTLS :: "UTLSOptions option"

record WSOptions =
  ws_Path :: string
  ws_Headers :: "(string \<times> string list) list"
  ws_MaxEarlyData :: "32 word"
  ws_EarlyDataHeaderName :: string

type_synonym server = "string \<times> 16 word"

datatype OutboundOptions =
    DirectOut
  | StubOut
  | VLESSOut server string string "string option" "TLSOptions option" "WSOptions option"
  | VMessOut server string string bool bool string "TLSOptions option" "WSOptions option"
  | TrojanOut server string "TLSOptions option" "WSOptions option"
  | ShadowsocksOut server string string
  | SOCKSOut server string string string
  | HTTPOut server string string "TLSOptions option"
  | SSHOut server string string "string list" string "string list"

record OutboundCfg =
  oc_Type :: string
  oc_Tag :: string
  oc_Options :: OutboundOptions

datatype RuleAction = HijackDNS | RouteTo string

record Rule =
  ru_Protocol :: "string list"
  ru_IPVersion :: nat
  ru_Action :: RuleAction

datatype DomainStrategy = StrategyAsIS | StrategyPreferIPv4 | StrategyPreferIPv6 | StrategyIPv4Only

record DNSServer =
  ds_Type :: string
  ds_Tag :: string
  ds_Detour :: string
  ds_Server :: string

record DNSOptions =
  do_Servers :: "DNSServer list"
  do_Rules :: "(string list \<times> string) list"
  do_Final :: string
  do_ReverseMapping :: bool
  do_Strategy :: DomainStrategy
  do_IndependentCache :: bool

datatype Inbound =
    TunInbound string string "32 word" "string list" bool string bool
  | MixedInbound string string "16 word"

record BoxOptions =
  bo_Level :: string
  bo_Timestamp :: bool
  bo_Outbounds :: "OutboundCfg list"
  bo_Inbounds :: "Inbound list"
  bo_Rules :: "Rule list"
  bo_Final :: string
  bo_AutoDetectInterface :: bool
  bo_DNS :: "DNSOptions option"
  bo_CacheFile :: "string option"

datatype build_result = Built BoxOptions | BuildError goerror | BuildPanic

section \<open>Errors\<close>

definition errAlreadyRunning :: goerror where
  "errAlreadyRunning = plain_error ''engine: already running''"

definition errEmptyServerAddress :: goerror where
  "errEmptyServerAddress = plain_error ''engine: outbound server address is required''"

definition errEmptyServerPort :: goerror where
  "errEmptyServerPort = plain_error ''engine: outbound server port is required''"

definition errInvalidMode :: "string \<Rightarrow> goerror" where
  "errInvalidMode mode = plain_error (''engine: invalid mode '' @ Quote mode)"

section \<open>Building the options\<close>

definition validate :: "Options \<Rightarrow> goerror option" where
  "validate o1 =
     (if op_Mode o1 \<noteq> ModeVPN \<and> op_Mode o1 \<noteq> ModeProxy then Some (errInvalidMode (op_Mode o1))
      else if ob_Address (op_Outbound o1) = '''' then Some errEmptyServerAddress
      else if ob_Port (op_Outbound o1) = 0 then Some errEmptyServerPort
      else None)"

definition interfaceName :: "TunOptions \<Rightarrow> string" where
  "interfaceName t = (if tn_InterfaceName t = '''' then ''omniproxy'' else tn_InterfaceName t)"

definition mtu :: "TunOptions \<Rightarrow> 32 word" where
  "mtu t = (if tn_MTU t = 0 then 1500 else tn_MTU t)"

definition stack :: "TunOptions \<Rightarrow> string" where
  "stack t = (if tn_Stack t = '''' then ''mixed'' else tn_Stack t)"

definition autoRoute :: "TunOptions \<Rightarrow> bool" where
  "autoRoute t = (tn_AutoRoute t \<or> \<not> tn_StrictRoute t)"

definition addresses :: "TunOptions \<Rightarrow> string list" where
  "addresses t = (if length (tn_Address t) > 0 then tn_Address t else [''10.0.0.1/24'', ''fd00::1/64''])"

definition tlsContainer :: "TLSSettings option \<Rightarrow> TLSOptions option" where
  "tlsContainer cfg =
     (case cfg of
        None \<Rightarrow> None
      | Some t \<Rightarrow>
          Some \<lparr>to_Enabled = True, to_ServerName = es_ServerName t, to_Insecure = es_Insecure t,
                to_ALPN = es_ALPN t,
                to_UTLS = (if es_Fingerprint t \<noteq> ''''
                           then Some \<lparr>ut_Enabled = False, ut_Fingerprint = es_Fingerprint t\<rparr>
                           else None)\<rparr>)"

definition buildTransport :: "TransportSettings option \<Rightarrow> WSOptions option" where
  "buildTransport tr =
     (case tr of
        None \<Rightarrow> None
      | Some t \<Rightarrow>
          (if ts_Type t \<noteq> TransportWS then None
           else Some \<lparr>ws_Path = ts_Path t,
                      ws_Headers = (if ts_Host t \<noteq> '''' then [(''Host'', [ts_Host t])] else []),
                      ws_MaxEarlyData = ts_MaxEarlyData t,
                      ws_EarlyDataHeaderName = ts_EarlyDataHeaderName t\<rparr>))"

definition ssh_out :: "Outbound \<Rightarrow> OutboundOptions" where
  "ssh_out ob =
     (case ob_SSH ob of
        None \<Rightarrow> SSHOut (ob_Address ob, ob_Port ob) (ob_Username ob) (ob_Password ob) [] '''' []
      | Some h \<Rightarrow>
          SSHOut (ob_Address ob, ob_Port ob) (ob_Username ob) (ob_Password ob)
            (if eh_PrivateKey h \<noteq> '''' then [eh_PrivateKey h] else [])
            (eh_PrivateKeyPass h)
            (if eh_HostKey h \<noteq> '''' then [eh_HostKey h] else []))"

definition engine_buildOutbound :: "Outbound \<Rightarrow> OutboundCfg" where
  "engine_buildOutbound ob =
     (let server = (ob_Address ob, ob_Port ob);
          mk = (\<lambda>ty opts. \<lparr>oc_Type = ty, oc_Tag = ''proxy'', oc_Options = opts\<rparr>)
      in if ob_Protocol ob = ''vless'' then
           mk ''vless''
             (VLESSOut server (ob_UUID ob) (ob_Flow ob)
               (if ob_PacketEncoding ob \<noteq> '''' then Some (ob_PacketEncoding ob) else None)
               (tlsContainer (ob_TLS ob)) (buildTransport (ob_Transport ob)))
         else if ob_Protocol ob = ''vmess'' then
           mk ''vmess''
             (VMessOut server (ob_UUID ob) (if ob_Security ob = '''' then ''auto'' else ob_Security ob)
               (ob_GlobalPadding ob) (ob_AuthenticatedLength ob) (ob_PacketEncoding ob)
               (tlsContainer (ob_TLS ob)) (buildTransport (ob_Transport ob)))
         else if ob_Protocol ob = ''trojan'' then
           mk ''trojan''
             (TrojanOut server (ob_Password ob) (tlsContainer (ob_TLS ob)) (buildTransport (ob_Transport ob)))
         else if ob_Protocol ob = ''shadowsocks'' then
           mk ''shadowsocks'' (ShadowsocksOut server (ob_Cipher ob) (ob_Password ob))
         else if ob_Protocol ob = ''socks'' then
           mk ''socks'' (SOCKSOut server ''5'' (ob_Username ob) (ob_Password ob))
         else if ob_Protocol ob = ''http'' then
           mk ''http'' (HTTPOut server (ob_Username ob) (ob_Password ob) (tlsContainer (ob_TLS ob)))
         else if ob_Protocol ob = ''ssh'' then mk ''ssh'' (ssh_out ob)
         else mk ''direct'' DirectOut)"

definition dnsStrategy :: "IPv6Mode \<Rightarrow> DomainStrategy" where
  "dnsStrategy m =
     (if m = IPv6ModePreferIPv4 then StrategyPreferIPv4
      else if m = IPv6ModeDisable then StrategyIPv4Only
      else if m = IPv6ModeEnable then StrategyPreferIPv6
      else StrategyAsIS)"

definition buildDNSOptions :: "DomainStrategy \<Rightarrow> DNSOptions" where
  "buildDNSOptions strategy =
     \<lparr>do_Servers =
        [\<lparr>ds_Type = ''udp'', ds_Tag = ''dns-proxy'', ds_Detour = ''proxy'', ds_Server = ''8.8.8.8''\<rparr>,
         \<lparr>ds_Type = ''udp'', ds_Tag = ''dns-local'', ds_Detour = '''', ds_Server = ''223.5.5.5''\<rparr>],
      do_Rules = [([''any''], ''dns-local'')], do_Final = ''dns-proxy'', do_ReverseMapping = True,
      do_Strategy = strategy, do_IndependentCache = True\<rparr>"

definition blockOutbound :: OutboundCfg where
  "blockOutbound = \<lparr>oc_Type = ''block'', oc_Tag = ''block'', oc_Options = StubOut\<rparr>"

definition blockIPv6Rule :: Rule where
  "blockIPv6Rule = \<lparr>ru_Protocol = [], ru_IPVersion = 6, ru_Action = RouteTo ''block''\<rparr>"

definition dnsHijackRule :: Rule where
  "dnsHijackRule = \<lparr>ru_Protocol = [''dns''], ru_IPVersion = 0, ru_Action = HijackDNS\<rparr>"

definition base_options :: "Options \<Rightarrow> BoxOptions" where
  "base_options o1 =
     \<lparr>bo_Level = level_String (op_LogLevel o1), bo_Timestamp = True,
      bo_Outbounds =
        [\<lparr>oc_Type = ''direct'', oc_Tag = ''direct'', oc_Options = DirectOut\<rparr>,
         engine_buildOutbound (op_Outbound o1)],
      bo_Inbounds = [], bo_Rules = [], bo_Final = ''proxy'', bo_AutoDetectInterface = False,
      bo_DNS = None, bo_CacheFile = None\<rparr>"

definition vpn_options :: "IPv6Mode \<Rightarrow> BoxOptions \<Rightarrow> BoxOptions" where
  "vpn_options m b =
     (let rules = [dnsHijackRule];
          b1 = b\<lparr>bo_DNS := Some (buildDNSOptions (dnsStrategy m))\<rparr>;
          (rules', b2) =
            (if m = IPv6ModeDisable
             then (rules @ [blockIPv6Rule], b1\<lparr>bo_Outbounds := bo_Outbounds b1 @ [blockOutbound]\<rparr>)
             else (rules, b1))
      in b2\<lparr>bo_Rules := rules' @ bo_Rules b2, bo_AutoDetectInterface := True\<rparr>)"

definition tun_inbound :: "TunOptions \<Rightarrow> Inbound" where
  "tun_inbound t =
     TunInbound ''tun'' (interfaceName t) (mtu t) (addresses t) (autoRoute t) (stack t) (tn_StrictRoute t)"

definition buildOptions :: "(string \<Rightarrow> bool) \<Rightarrow> Options \<Rightarrow> build_result" where
  "buildOptions is_addr opts =
     (let m = (if op_IPv6Mode opts = '''' \<or> \<not> ipv6_Valid (op_IPv6Mode opts) then IPv6ModePreferIPv4
               else op_IPv6Mode opts)
      in case validate opts of
           Some e \<Rightarrow> BuildError e
         | None \<Rightarrow>
             (let b0 = base_options opts;
                  b1 = (if op_Mode opts = ModeVPN then vpn_options m b0 else b0);
                  b2 = (if op_CacheFilePath opts \<noteq> ''''
                        then b1\<lparr>bo_CacheFile := Some (op_CacheFilePath opts)\<rparr> else b1)
              in if op_Mode opts = ModeVPN then Built (b2\<lparr>bo_Inbounds := [tun_inbound (op_Tun opts)]\<rparr>)
                 else
                   (let listen = (if po_Listen (op_Proxy opts) = '''' then ''127.0.0.1''
                                  else po_Listen (op_Proxy opts));
                        port = (if po_Port (op_Proxy opts) = 0 then 1080 else po_Port (op_Proxy opts))
                    in if is_addr listen
                       then Built (b2\<lparr>bo_Inbounds := [MixedInbound ''mixed'' listen port]\<rparr>)
                       else BuildPanic)))"

section \<open>From a profile to the engine\<close>

definition ipv6ModeFor :: "IPv6Mode \<Rightarrow> IPv6Mode" where
  "ipv6ModeFor m =
     (if m = IPv6ModeAuto then IPv6ModeAuto
      else if m = IPv6ModeDisable then IPv6ModeDisable
      else if m = IPv6ModeEnable then IPv6ModeEnable
      else IPv6ModePreferIPv4)"

definition transportIfEnabled :: "TransportConfig option \<Rightarrow> TransportSettings option" where
  "transportIfEnabled tr =
     map_option (\<lambda>t. \<lparr>ts_Type = tr_Type t, ts_Path = tr_Path t, ts_Host = tr_Host t,
                      ts_MaxEarlyData = tr_MaxEarlyData t,
                      ts_EarlyDataHeaderName = tr_EarlyDataHeaderName t\<rparr>) tr"

definition tlsIfEnabled :: "ServerProfile \<Rightarrow> TLSSettings option" where
  "tlsIfEnabled p =
     (if \<not> tls_Enabled (sp_TLS p) then None
      else Some \<lparr>es_ServerName = tls_ServerName (sp_TLS p), es_Insecure = tls_AllowInsecure (sp_TLS p),
                 es_ALPN = tls_ALPN (sp_TLS p), es_Fingerprint = tls_Fingerprint (sp_TLS p)\<rparr>)"

definition plain_outbound :: "ServerProfile \<Rightarrow> Outbound" where
  "plain_outbound p =
     \<lparr>ob_Protocol = '''', ob_Address = sp_Address p, ob_Port = of_int (sp_Port p),
      ob_Username = sp_Username p, ob_Password = sp_Password p, ob_Cipher = sp_Cipher p,
      ob_UUID = sp_UUID p, ob_Flow = sp_Flow p, ob_Security = sp_Security p,
      ob_GlobalPadding = sp_GlobalPadding p, ob_AuthenticatedLength = sp_AuthenticatedLength p,
      ob_PacketEncoding = sp_PacketEncoding p, ob_TLS = None, ob_SSH = None,
      ob_Transport = transportIfEnabled (sp_Transport p)\<rparr>"

definition buildOutbound :: "ServerProfile \<Rightarrow> Outbound" where
  "buildOutbound p =
     (let ob = plain_outbound p; proto = sp_Protocol p
      in if proto = ProtocolVLESS then ob\<lparr>ob_Protocol := ''vless'', ob_TLS := tlsIfEnabled p\<rparr>
         else if proto = ProtocolVMess then ob\<lparr>ob_Protocol := ''vmess'', ob_TLS := tlsIfEnabled p\<rparr>
         else if proto = ProtocolShadowsocks then ob\<lparr>ob_Protocol := ''shadowsocks''\<rparr>
         else if proto = ProtocolTrojan then ob\<lparr>ob_Protocol := ''trojan'', ob_TLS := tlsIfEnabled p\<rparr>
         else if proto = ProtocolSOCKS5 then ob\<lparr>ob_Protocol := ''socks''\<rparr>
         else if proto = ProtocolHTTP then ob\<lparr>ob_Protocol := ''http'', ob_TLS := tlsIfEnabled p\<rparr>
         else if proto = ProtocolSSH then
           ob\<lparr>ob_Protocol := ''ssh'', ob_Username := ssh_User (sp_SSH p),
              ob_SSH := Some \<lparr>eh_User = '''', eh_Password = '''', eh_PrivateKey = ssh_PrivateKey (sp_SSH p),
                              eh_PrivateKeyPass = '''', eh_HostKey = ssh_HostKey (sp_SSH p)\<rparr>\<rparr>
         else ob)"

definition BuildEngineOptions ::
  "ServerProfile \<Rightarrow> ConnectionMode \<Rightarrow> IPv6Mode \<Rightarrow> Level \<Rightarrow> string \<Rightarrow> Options" where
  "BuildEngineOptions p mode ipv6Mode logLevel cacheFile =
     \<lparr>op_Mode = (if mode = ModeProxy then ModeProxy else ModeVPN), op_LogLevel = logLevel,
      op_Outbound = buildOutbound p, op_Proxy = \<lparr>po_Listen = '''', po_Port = 0\<rparr>,
      op_Tun = \<lparr>tn_InterfaceName = '''', tn_MTU = 0, tn_Address = [], tn_AutoRoute = False,
                tn_Stack = '''', tn_StrictRoute = False\<rparr>,
      op_IPv6Mode = ipv6ModeFor ipv6Mode, op_CacheFilePath = cacheFile\<rparr>"

section \<open>What the options mean\<close>

text \<open>
  The router takes the first matching rule and otherwise the final outbound; an empty
  protocol list or a zero IP version matches everything.
\<close>

record packet =
  pk_Protocol :: string
  pk_IPVersion :: nat

definition rule_matches :: "Rule \<Rightarrow> packet \<Rightarrow> bool" where
  "rule_matches r p \<longleftrightarrow>
     (ru_Protocol r = [] \<or> pk_Protocol p \<in> set (ru_Protocol r)) \<and>
     (ru_IPVersion r = 0 \<or> ru_IPVersion r = pk_IPVersion p)"

definition route :: "BoxOptions \<Rightarrow> packet \<Rightarrow> RuleAction" where
  "route b p =
     (case find (\<lambda>r. rule_matches r p) (bo_Rules b) of
        Some r \<Rightarrow> ru_Action r | None \<Rightarrow> RouteTo (bo_Final b))"

definition outbounds_of :: "BoxOptions \<Rightarrow> string \<Rightarrow> OutboundCfg list" where
  "outbounds_of b tag = filter (\<lambda>c. oc_Tag c = tag) (bo_Outbounds b)"

fun out_server :: "OutboundOptions \<Rightarrow> server option" where
  "out_server (VLESSOut s _ _ _ _ _) = Some s"
| "out_server (VMessOut s _ _ _ _ _ _ _) = Some s"
| "out_server (TrojanOut s _ _ _) = Some s"
| "out_server (ShadowsocksOut s _ _) = Some s"
| "out_server (SOCKSOut s _ _ _) = Some s"
| "out_server (HTTPOut s _ _ _) = Some s"
| "out_server (SSHOut s _ _ _ _ _) = Some s"
| "out_server _ = None"

fun out_tls :: "OutboundOptions \<Rightarrow> TLSOptions option" where
  "out_tls (VLESSOut _ _ _ _ t _) = t"
| "out_tls (VMessOut _ _ _ _ _ _ t _) = t"
| "out_tls (TrojanOut _ _ t _) = t"
| "out_tls (HTTPOut _ _ _ t) = t"
| "out_tls _ = None"

definition engine_type :: "Protocol \<Rightarrow> string" where
  "engine_type p = (if p = ProtocolSOCKS5 then ''socks'' else p)"

definition tls_protocol :: "Protocol \<Rightarrow> bool" where
  "tls_protocol p \<longleftrightarrow> p \<in> {ProtocolVLESS, ProtocolVMess, ProtocolTrojan, ProtocolHTTP}"

lemma buildOutbound_Tag [simp]: "oc_Tag (engine_buildOutbound ob) = ''proxy''"
  by (simp add: engine_buildOutbound_def Let_def)

lemma buildOutbound_profile:
  assumes "sp_Protocol p \<in> set SupportedProtocols"
  shows "oc_Type (engine_buildOutbound (buildOutbound p)) = engine_type (sp_Protocol p)"
    "out_server (oc_Options (engine_buildOutbound (buildOutbound p))) = Some (sp_Address p, of_int (sp_Port p))"
    "out_tls (oc_Options (engine_buildOutbound (buildOutbound p))) =
       (if tls_protocol (sp_Protocol p) then tlsContainer (tlsIfEnabled p) else None)"
  using assms
  by (auto simp: SupportedProtocols_def buildOutbound_def plain_outbound_def engine_buildOutbound_def
    Let_def engine_type_def ssh_out_def tls_protocol_def)

lemma validate_profile:
  assumes "sp_Address p \<noteq> ''''" "0 < sp_Port p" "sp_Port p < 65536"
  shows "validate (BuildEngineOptions p mode m lvl cache) = None"
proof -
  have "unat (of_int (sp_Port p) :: 16 word) = nat (sp_Port p)"
    using assms(2,3) by (simp add: unsigned_of_int take_bit_int_eq_self)
  then have "(of_int (sp_Port p) :: 16 word) \<noteq> 0" using assms(2) by auto
  moreover have "ob_Port (buildOutbound p) = of_int (sp_Port p)" "ob_Address (buildOutbound p) = sp_Address p"
    by (simp_all add: buildOutbound_def plain_outbound_def Let_def)
  ultimately show ?thesis using assms(1) by (simp add: validate_def BuildEngineOptions_def)
qed

lemma built_vpn: "validate o1 = None \<Longrightarrow> op_Mode o1 = ModeVPN \<Longrightarrow> \<exists>b. buildOptions is_addr o1 = Built b"
  by (simp add: buildOptions_def Let_def)

lemma TrimSpace_Nil [simp]: "TrimSpace [] = []"
  by code_simp

lemma built_profile:
  assumes "Validate p = None" "is_addr ''127.0.0.1''"
  shows "\<exists>b. buildOptions is_addr (BuildEngineOptions p mode ipv6 lvl cache) = Built b \<and>
    outbounds_of b ''proxy'' = [engine_buildOutbound (buildOutbound p)]"
proof -
  let ?o = "BuildEngineOptions p mode ipv6 lvl cache"
  have "TrimSpace (sp_Address p) \<noteq> []" "0 < sp_Port p" "sp_Port p < 65536"
    using assms(1) by (auto simp: Validate_None_iff)
  then have "validate ?o = None" by (intro validate_profile) auto
  then show ?thesis
    using assms(2)
    by (auto simp: buildOptions_def Let_def base_options_def vpn_options_def outbounds_of_def
      BuildEngineOptions_def blockOutbound_def)
qed

section \<open>Properties\<close>


definition demo_server :: ServerProfile where
  "demo_server = zero_profile\<lparr>sp_Name := ''n'', sp_Address := ''h.example'', sp_Port := 443,
     sp_Protocol := ''trojan'', sp_Password := ''pw'',
     sp_TLS := zero_TLS\<lparr>tls_Enabled := True, tls_ServerName := ''h.example''\<rparr>\<rparr>"


text \<open>C29: every profile that passes validation can be run, in every mode and with every setting:
  building its engine options neither fails nor panics, the one proxy outbound has the type
  of the profile's protocol and its address and port without truncation, and TLS is used
  exactly when the profile enables it for a protocol that has it, with certificate
  verification off only if the profile says so. No uTLS fingerprint is ever switched on.\<close>

theorem valid_profile_runs:
  assumes "Validate p = None" "is_addr ''127.0.0.1''"
  shows "\<exists>b c. buildOptions is_addr (BuildEngineOptions p mode ipv6 lvl cache) = Built b \<and>
    outbounds_of b ''proxy'' = [c] \<and> oc_Type c = engine_type (sp_Protocol p) \<and>
    (\<exists>port. out_server (oc_Options c) = Some (sp_Address p, port) \<and> unat port = nat (sp_Port p)) \<and>
    (out_tls (oc_Options c) \<noteq> None \<longleftrightarrow> tls_protocol (sp_Protocol p) \<and> tls_Enabled (sp_TLS p)) \<and>
    (\<forall>t. out_tls (oc_Options c) = Some t \<longrightarrow>
       to_Enabled t \<and> to_Insecure t = tls_AllowInsecure (sp_TLS p) \<and>
       to_ServerName t = tls_ServerName (sp_TLS p) \<and>
       (\<forall>u. to_UTLS t = Some u \<longrightarrow> \<not> ut_Enabled u))"
proof -
  let ?o = "BuildEngineOptions p mode ipv6 lvl cache"
  let ?c = "engine_buildOutbound (buildOutbound p)"
  have ok: "TrimSpace (sp_Address p) \<noteq> []" "0 < sp_Port p" "sp_Port p < 65536"
    "sp_Protocol p \<in> set SupportedProtocols"
    using assms(1) validate_credentials_protocol by (auto simp: Validate_None_iff)
  have port: "unat (of_int (sp_Port p) :: 16 word) = nat (sp_Port p)"
    using ok(2,3) by (simp add: unsigned_of_int take_bit_int_eq_self)
  have "\<exists>b. buildOptions is_addr ?o = Built b \<and> outbounds_of b ''proxy'' = [?c]"
    using built_profile [OF assms(1), of is_addr] assms(2) by blast
  moreover have "oc_Type ?c = engine_type (sp_Protocol p)"
    "out_server (oc_Options ?c) = Some (sp_Address p, of_int (sp_Port p))"
    "out_tls (oc_Options ?c) = (if tls_protocol (sp_Protocol p) then tlsContainer (tlsIfEnabled p) else None)"
    using buildOutbound_profile [OF ok(4)] by blast+
  ultimately show ?thesis
    using port by (fastforce simp: tlsContainer_def tlsIfEnabled_def split: if_splits)
qed

theorem valid_profile_runs_witness:
  "\<exists>b c. buildOptions (\<lambda>a. a = ''127.0.0.1'') (BuildEngineOptions demo_server ''proxy'' ''auto'' 2 '''') = Built b \<and>
     outbounds_of b ''proxy'' = [c] \<and> oc_Type c = engine_type (sp_Protocol demo_server)"
proof -
  have "Validate demo_server = None" by code_simp
  from valid_profile_runs [OF this, of "\<lambda>a. a = ''127.0.0.1''" "''proxy''" "''auto''" 2 "''''"]
  show ?thesis by blast
qed

text \<open>The engine library's levels, which run from panic (0) to trace (6), are mapped onto the
  engine's in the opposite order: a more severe library level is a more severe engine level,
  and every engine level has its configuration name, from which the mapping is recovered.\<close>

theorem levelFromBox_reverses:
  assumes "0 \<le> x" "x \<le> 6"
  shows "levelFromBox x = 6 - x \<and> level_String (levelFromBox x) =
    [''panic'', ''fatal'', ''error'', ''warn'', ''info'', ''debug'', ''trace''] ! nat x"
proof -
  have "x \<in> {0, 1, 2, 3, 4, 5, 6}" using assms by auto
  then show ?thesis by (auto simp: levelFromBox_def level_String_def)
qed

theorem levelFromBox_reverses_witness: "levelFromBox 2 = 4 \<and> level_String (levelFromBox 2) = ''error''"
  using levelFromBox_reverses [of 2] by (simp add: level_String_def)

end
