(* ===== verification/Tunnel.thy ===== *)
theory Tunnel
  imports Engine_Options
begin

text \<open>
  The engine's lifecycle (\<open>engine/engine.go\<close>), the in-process runner
  (\<open>core/tunnel/runner.go\<close>) and the tunnel manager (\<open>core/tunnel/manager.go\<close>). The engine
  library is a parameter: whether creating, starting and closing an instance fails. An engine
  counts the instances that are open and the contexts that are not cancelled, so that leaks
  are visible. A result \<open>None\<close> of a start is a panic.
\<close>

section \<open>The engine\<close>

record BoxLib =
  bl_New :: "BoxOptions \<Rightarrow> goerror option"
  bl_Start :: "BoxOptions \<Rightarrow> goerror option"
  bl_Close :: "BoxOptions \<Rightarrow> goerror option"
  bl_is_addr :: "string \<Rightarrow> bool"

record Engine =
  eg_box :: "BoxOptions option"
  eg_open :: nat
  eg_ctxs :: nat

definition engine_New :: Engine where
  "engine_New = \<lparr>eg_box = None, eg_open = 0, eg_ctxs = 0\<rparr>"

definition engine_launch :: "BoxLib \<Rightarrow> BoxOptions \<Rightarrow> Engine \<Rightarrow> goerror option \<times> Engine" where
  "engine_launch lib built e =
     (let e1 = e\<lparr>eg_ctxs := eg_ctxs e + 1\<rparr>
      in case bl_New lib built of
           Some err \<Rightarrow> (Some err, e1\<lparr>eg_ctxs := eg_ctxs e1 - 1\<rparr>)
         | None \<Rightarrow>
             (let e2 = e1\<lparr>eg_open := eg_open e1 + 1\<rparr>
              in case bl_Start lib built of
                   Some err \<Rightarrow>
                     (Some err, e2\<lparr>eg_open := eg_open e2 - 1, eg_ctxs := eg_ctxs e2 - 1\<rparr>)
                 | None \<Rightarrow> (None, e2\<lparr>eg_box := Some built\<rparr>)))"

definition engine_Start :: "BoxLib \<Rightarrow> Options \<Rightarrow> Engine \<Rightarrow> (goerror option \<times> Engine) option" where
  "engine_Start lib opts e =
     (if eg_box e \<noteq> None then Some (Some errAlreadyRunning, e)
      else (case buildOptions (bl_is_addr lib) opts of
              BuildPanic \<Rightarrow> None
            | BuildError err \<Rightarrow> Some (Some err, e)
            | Built built \<Rightarrow> Some (engine_launch lib built e)))"

definition engine_Close :: "BoxLib \<Rightarrow> Engine \<Rightarrow> goerror option \<times> Engine" where
  "engine_Close lib e =
     (case eg_box e of
        None \<Rightarrow> (None, e)
      | Some b \<Rightarrow>
          (bl_Close lib b, e\<lparr>eg_box := None, eg_open := eg_open e - 1, eg_ctxs := eg_ctxs e - 1\<rparr>))"

definition engine_Running :: "Engine \<Rightarrow> bool" where
  "engine_Running e = (eg_box e \<noteq> None)"

text \<open>Nothing leaks: there is an open instance and a live context exactly for the run.\<close>

definition engine_ok :: "Engine \<Rightarrow> bool" where
  "engine_ok e \<longleftrightarrow> eg_open e = (if eg_box e = None then 0 else 1) \<and> eg_ctxs e = eg_open e"

lemma engine_New_ok [simp]: "engine_ok engine_New"
  by (simp add: engine_ok_def engine_New_def)

lemma engine_Start_ok: "engine_ok e \<Longrightarrow> engine_Start lib opts e = Some (r, e') \<Longrightarrow> engine_ok e'"
  by (auto simp: engine_ok_def engine_Start_def engine_launch_def Let_def
    split: if_splits build_result.splits option.splits)

lemma engine_Close_ok: "engine_ok e \<Longrightarrow> engine_ok (snd (engine_Close lib e))"
  by (auto simp: engine_ok_def engine_Close_def split: option.splits)

lemma engine_Start_running:
  "engine_Start lib opts e = Some (None, e') \<Longrightarrow> engine_Running e' \<and> \<not> engine_Running e"
  "engine_Start lib opts e = Some (Some err, e') \<Longrightarrow> engine_Running e' = engine_Running e"
  by (auto simp: engine_Running_def engine_Start_def engine_launch_def Let_def
    split: if_splits build_result.splits option.splits)

lemma engine_Close_running [simp]: "\<not> engine_Running (snd (engine_Close lib e))"
  by (simp add: engine_Running_def engine_Close_def split: option.split)

section \<open>Levels between the models and the engine\<close>

definition engineToModelLevel :: "Level \<Rightarrow> LogLevel" where
  "engineToModelLevel l =
     (if l = EngTrace then LevelTrace
      else if l = EngDebug then LevelDebug
      else if l = EngWarn then LevelWarn
      else if l = EngError \<or> l = EngFatal \<or> l = EngPanic then LevelError
      else LevelInfo)"

definition modelToEngineLevel :: "LogLevel \<Rightarrow> Level" where
  "modelToEngineLevel lv =
     (if lv = LevelTrace then EngTrace
      else if lv = LevelDebug then EngDebug
      else if lv = LevelWarn then EngWarn
      else if lv = LevelError then EngError
      else EngInfo)"

section \<open>The runner interface\<close>

record 's RunnerOps =
  ro_Start :: "Options \<Rightarrow> 's \<Rightarrow> (goerror option \<times> 's) option"
  ro_Stop :: "'s \<Rightarrow> goerror option \<times> 's"
  ro_Running :: "'s \<Rightarrow> bool"

definition inproc_ops :: "BoxLib \<Rightarrow> Engine RunnerOps" where
  "inproc_ops lib =
     \<lparr>ro_Start = engine_Start lib, ro_Stop = engine_Close lib, ro_Running = engine_Running\<rparr>"

section \<open>The manager\<close>

record 's Manager =
  mg_runner :: 's
  mg_profile :: "ServerProfile option"
  mg_mode :: ConnectionMode
  mg_logLevel :: Level
  mg_cacheFile :: string
  mg_ipv6Mode :: IPv6Mode

definition errTunnelRunning :: goerror where
  "errTunnelRunning = GoError ErrAlreadyRunning ''tunnel: already running''"

definition NewManager :: "'s \<Rightarrow> 's Manager" where
  "NewManager r =
     \<lparr>mg_runner = r, mg_profile = None, mg_mode = '''', mg_logLevel = EngInfo, mg_cacheFile = '''',
      mg_ipv6Mode = IPv6ModePreferIPv4\<rparr>"

definition SetLogLevel :: "LogLevel \<Rightarrow> 's Manager \<Rightarrow> 's Manager" where
  "SetLogLevel lv m = m\<lparr>mg_logLevel := modelToEngineLevel lv\<rparr>"

definition SetCacheFilePath :: "string \<Rightarrow> 's Manager \<Rightarrow> 's Manager" where
  "SetCacheFilePath path m = m\<lparr>mg_cacheFile := path\<rparr>"

definition SetIPv6Mode :: "IPv6Mode \<Rightarrow> 's Manager \<Rightarrow> 's Manager" where
  "SetIPv6Mode mode m = m\<lparr>mg_ipv6Mode := (if \<not> ipv6_Valid mode then IPv6ModePreferIPv4 else mode)\<rparr>"

definition manager_options :: "ServerProfile \<Rightarrow> ConnectionMode \<Rightarrow> 's Manager \<Rightarrow> Options" where
  "manager_options p mode m =
     BuildEngineOptions p mode (mg_ipv6Mode m) (mg_logLevel m) (mg_cacheFile m)"

definition manager_Start ::
  "'s RunnerOps \<Rightarrow> ServerProfile \<Rightarrow> ConnectionMode \<Rightarrow> 's Manager \<Rightarrow> (goerror option \<times> 's Manager) option" where
  "manager_Start ops p mode m =
     (if mg_profile m \<noteq> None then Some (Some errTunnelRunning, m)
      else (case ro_Start ops (manager_options p mode m) (mg_runner m) of
              None \<Rightarrow> None
            | Some (Some err, r) \<Rightarrow> Some (Some err, m\<lparr>mg_runner := r\<rparr>)
            | Some (None, r) \<Rightarrow>
                Some (None, m\<lparr>mg_runner := r, mg_profile := Some p, mg_mode := mode\<rparr>)))"

definition manager_Stop :: "'s RunnerOps \<Rightarrow> 's Manager \<Rightarrow> goerror option \<times> 's Manager" where
  "manager_Stop ops m =
     (case ro_Stop ops (mg_runner m) of
        (err, r) \<Rightarrow> (err, m\<lparr>mg_runner := r, mg_profile := None, mg_mode := ''''\<rparr>))"

definition Active :: "'s Manager \<Rightarrow> bool" where
  "Active m = (mg_profile m \<noteq> None)"

section \<open>The runner's contract and the manager as its client\<close>

locale runner =
  fixes ops :: "'s RunnerOps"
    and ok :: "'s \<Rightarrow> bool"
  assumes start_ok: "ok s \<Longrightarrow> ro_Start ops o1 s = Some (r, s') \<Longrightarrow> ok s'"
    and start_runs: "ok s \<Longrightarrow> ro_Start ops o1 s = Some (None, s') \<Longrightarrow> ro_Running ops s'"
    and start_fails: "ok s \<Longrightarrow> ro_Start ops o1 s = Some (Some e, s') \<Longrightarrow> ro_Running ops s' = ro_Running ops s"
    and stop_ok: "ok s \<Longrightarrow> ro_Stop ops s = (r, s') \<Longrightarrow> ok s'"
    and stop_stops: "ok s \<Longrightarrow> ro_Stop ops s = (r, s') \<Longrightarrow> \<not> ro_Running ops s'"
begin

text \<open>The manager tracks a profile exactly while the runner runs.\<close>

definition manager_ok :: "'s Manager \<Rightarrow> bool" where
  "manager_ok m \<longleftrightarrow> ok (mg_runner m) \<and> ro_Running ops (mg_runner m) = Active m"

lemma manager_start_ok:
  assumes "manager_ok m" "manager_Start ops p mode m = Some (r, m')"
  shows "manager_ok m' \<and> (r = None \<longleftrightarrow> Active m' \<and> \<not> Active m) \<and>
    (r = None \<longrightarrow> mg_profile m' = Some p \<and> mg_mode m' = mode)"
proof (cases "mg_profile m")
  case None
  with assms obtain err s where s: "ro_Start ops (manager_options p mode m) (mg_runner m) = Some (err, s)"
    "r = err" "m' = (if err = None then m\<lparr>mg_runner := s, mg_profile := Some p, mg_mode := mode\<rparr>
      else m\<lparr>mg_runner := s\<rparr>)"
    by (auto simp: manager_Start_def split: option.splits prod.splits)
  show ?thesis
  proof (cases err)
    case None
    with s assms(1) \<open>mg_profile m = None\<close> show ?thesis
      using start_ok [OF _ s(1)] start_runs [of "mg_runner m" _ s]
      by (auto simp: manager_ok_def Active_def)
  next
    case (Some e)
    with s assms(1) \<open>mg_profile m = None\<close> show ?thesis
      using start_ok [OF _ s(1)] start_fails [of "mg_runner m" _ e s]
      by (auto simp: manager_ok_def Active_def)
  qed
next
  case (Some q)
  with assms show ?thesis by (auto simp: manager_Start_def Active_def manager_ok_def errTunnelRunning_def)
qed

lemma manager_stop_ok:
  assumes "manager_ok m" "manager_Stop ops m = (r, m')"
  shows "manager_ok m' \<and> \<not> Active m' \<and> \<not> ro_Running ops (mg_runner m')"
  using assms stop_ok [of "mg_runner m"] stop_stops [of "mg_runner m"]
  by (auto simp: manager_Stop_def manager_ok_def Active_def split: prod.splits)

end

interpretation ipr: runner "inproc_ops lib" engine_ok for lib
proof
  show "engine_ok s'" if "engine_ok s" "ro_Start (inproc_ops lib) o1 s = Some (r, s')" for s o1 r s'
    using that by (auto simp: inproc_ops_def dest: engine_Start_ok)
  show "ro_Running (inproc_ops lib) s'" if "ro_Start (inproc_ops lib) o1 s = Some (None, s')" for s o1 s'
    using that by (auto simp: inproc_ops_def dest: engine_Start_running)
  show "ro_Running (inproc_ops lib) s' = ro_Running (inproc_ops lib) s"
    if "ro_Start (inproc_ops lib) o1 s = Some (Some e, s')" for s o1 e s'
    using that by (auto simp: inproc_ops_def dest: engine_Start_running)
  show "engine_ok s'" if "engine_ok s" "ro_Stop (inproc_ops lib) s = (r, s')" for s r s'
    using that engine_Close_ok [of s lib] by (simp add: inproc_ops_def)
  show "\<not> ro_Running (inproc_ops lib) s'" if "ro_Stop (inproc_ops lib) s = (r, s')" for s r s'
    using that engine_Close_running [of lib s] by (simp add: inproc_ops_def)
qed

section \<open>Sequences of operations\<close>

datatype mgr_op =
    MStart ServerProfile ConnectionMode
  | MStop
  | MLevel LogLevel
  | MCache string
  | MIPv6 IPv6Mode

definition mgr_step :: "'s RunnerOps \<Rightarrow> mgr_op \<Rightarrow> 's Manager \<Rightarrow> 's Manager option" where
  "mgr_step ops op m =
     (case op of
        MStart p mode \<Rightarrow> map_option snd (manager_Start ops p mode m)
      | MStop \<Rightarrow> Some (snd (manager_Stop ops m))
      | MLevel lv \<Rightarrow> Some (SetLogLevel lv m)
      | MCache path \<Rightarrow> Some (SetCacheFilePath path m)
      | MIPv6 mode \<Rightarrow> Some (SetIPv6Mode mode m))"

fun mgr_run :: "'s RunnerOps \<Rightarrow> mgr_op list \<Rightarrow> 's Manager \<Rightarrow> 's Manager option" where
  "mgr_run ops [] m = Some m"
| "mgr_run ops (op # rest) m =
     (case mgr_step ops op m of None \<Rightarrow> None | Some m' \<Rightarrow> mgr_run ops rest m')"

context runner
begin

lemma mgr_step_ok:
  assumes "manager_ok m" "mgr_step ops op m = Some m'"
  shows "manager_ok m'"
proof (cases op)
  case (MStart p mode)
  with assms obtain r where "manager_Start ops p mode m = Some (r, m')" by (auto simp: mgr_step_def)
  with assms(1) manager_start_ok show ?thesis by blast
next
  case MStop
  with assms have "manager_Stop ops m = (fst (manager_Stop ops m), m')" by (auto simp: mgr_step_def)
  with assms(1) manager_stop_ok show ?thesis by blast
qed (use assms in \<open>auto simp: mgr_step_def SetLogLevel_def SetCacheFilePath_def SetIPv6Mode_def
    manager_ok_def Active_def\<close>)

lemma mgr_run_ok: "manager_ok m \<Longrightarrow> mgr_run ops ms m = Some m' \<Longrightarrow> manager_ok m'"
  by (induction ms arbitrary: m) (auto split: option.splits intro: mgr_step_ok)

end

lemma Validate_starts:
  assumes "Validate p = None" "bl_is_addr lib ''127.0.0.1''" "\<not> engine_Running e"
  shows "\<exists>r e'. engine_Start lib (BuildEngineOptions p mode ipv6 lvl cache) e = Some (r, e') \<and>
    (r = None \<or> (\<exists>b. r = bl_New lib b \<or> r = bl_Start lib b))"
proof -
  obtain b where "buildOptions (bl_is_addr lib) (BuildEngineOptions p mode ipv6 lvl cache) = Built b"
    using built_profile [OF assms(1), of "bl_is_addr lib"] assms(2) by blast
  with assms(3) show ?thesis
    by (auto simp: engine_Start_def engine_Running_def engine_launch_def Let_def
      intro: exI [of _ b] split: option.split)
qed

section \<open>Properties\<close>

text \<open>Over every sequence of manager operations on the in-process engine (starts that
  succeed or fail at any stage, stops, setting changes) the manager has an active profile
  exactly while the engine runs, and no engine instance or context is leaked: one of each is
  live while it runs and none otherwise.\<close>

theorem manager_tracks_engine:
  assumes "mgr_run (inproc_ops lib) ms (NewManager engine_New) = Some m"
  shows "(Active m \<longleftrightarrow> engine_Running (mg_runner m)) \<and>
    eg_open (mg_runner m) = (if Active m then 1 else 0) \<and>
    eg_ctxs (mg_runner m) = (if Active m then 1 else 0)"
proof -
  have "ipr.manager_ok lib (NewManager engine_New)"
    unfolding ipr.manager_ok_def by (simp add: NewManager_def Active_def inproc_ops_def
      engine_Running_def engine_New_def engine_ok_def)
  from ipr.mgr_run_ok [OF this assms] show ?thesis
    unfolding ipr.manager_ok_def by (auto simp: inproc_ops_def engine_ok_def engine_Running_def Active_def)
qed

definition demo_lib :: BoxLib where
  "demo_lib = \<lparr>bl_New = (\<lambda>_. None), bl_Start = (\<lambda>_. None),
     bl_Close = (\<lambda>_. Some (plain_error ''close: timeout'')), bl_is_addr = (\<lambda>a. a = ''127.0.0.1'')\<rparr>"

theorem manager_tracks_engine_witness:
  "\<exists>m. mgr_run (inproc_ops demo_lib) [MIPv6 ''auto'', MStart demo_server ''vpn''] (NewManager engine_New) = Some m \<and>
     Active m \<and> eg_open (mg_runner m) = 1"
proof -
  let ?ms = "[MIPv6 ''auto'', MStart demo_server ''vpn'']"
  have run: "map_option Active (mgr_run (inproc_ops demo_lib) ?ms (NewManager engine_New)) = Some True"
    by code_simp
  then obtain m where m: "mgr_run (inproc_ops demo_lib) ?ms (NewManager engine_New) = Some m" "Active m"
    by auto
  with manager_tracks_engine [OF m(1)] show ?thesis by auto
qed

text \<open>Stop always makes room for the next Start. From every state reached by manager
  operations, after Stop (whatever error closing the engine returned) nothing is active and
  the engine does not run, and starting a validated profile then never reports an
  already-running tunnel: it succeeds or fails with an error of the engine library itself.\<close>

theorem stop_enables_start:
  assumes "mgr_run (inproc_ops lib) ms (NewManager engine_New) = Some m"
    and "manager_Stop (inproc_ops lib) m = (e, m')" "Validate p = None" "bl_is_addr lib ''127.0.0.1''"
  shows "\<not> Active m' \<and> \<not> engine_Running (mg_runner m') \<and>
    (\<exists>r m''. manager_Start (inproc_ops lib) p mode m' = Some (r, m'') \<and>
       (r = None \<and> Active m'' \<or> (\<exists>b. r = bl_New lib b \<or> r = bl_Start lib b) \<and> \<not> Active m''))"
proof -
  have "ipr.manager_ok lib (NewManager engine_New)"
    unfolding ipr.manager_ok_def by (simp add: NewManager_def Active_def inproc_ops_def
      engine_Running_def engine_New_def engine_ok_def)
  then have ok: "ipr.manager_ok lib m" by (rule ipr.mgr_run_ok [OF _ assms(1)])
  then have stop: "\<not> Active m'" "\<not> engine_Running (mg_runner m')"
    using ipr.manager_stop_ok [OF ok assms(2)] by (simp_all add: inproc_ops_def)
  obtain r e' where start: "engine_Start lib (manager_options p mode m') (mg_runner m') = Some (r, e')"
    "r = None \<or> (\<exists>b. r = bl_New lib b \<or> r = bl_Start lib b)"
    using Validate_starts [OF assms(3,4) stop(2)] unfolding manager_options_def by blast
  have "manager_Start (inproc_ops lib) p mode m' =
      Some (r, case r of None \<Rightarrow> m'\<lparr>mg_runner := e', mg_profile := Some p, mg_mode := mode\<rparr>
                 | Some err \<Rightarrow> m'\<lparr>mg_runner := e'\<rparr>)"
    using start(1) stop(1) by (cases r) (simp_all add: manager_Start_def inproc_ops_def Active_def)
  with start(2) stop show ?thesis by (cases r) (auto simp: Active_def)
qed

theorem stop_enables_start_witness:
  "\<exists>m m' m''. mgr_run (inproc_ops demo_lib) [MStart demo_server ''vpn''] (NewManager engine_New) = Some m \<and>
     fst (manager_Stop (inproc_ops demo_lib) m) \<noteq> None \<and> m' = snd (manager_Stop (inproc_ops demo_lib) m) \<and>
     manager_Start (inproc_ops demo_lib) demo_server ''proxy'' m' = Some (None, m'')"
proof -
  have "map_option (\<lambda>m. fst (manager_Stop (inproc_ops demo_lib) m) \<noteq> None)
      (mgr_run (inproc_ops demo_lib) [MStart demo_server ''vpn''] (NewManager engine_New)) = Some True"
    by code_simp
  then obtain m where m: "mgr_run (inproc_ops demo_lib) [MStart demo_server ''vpn''] (NewManager engine_New) = Some m"
    "fst (manager_Stop (inproc_ops demo_lib) m) \<noteq> None"
    by auto
  have "Validate demo_server = None" by code_simp
  moreover have "bl_is_addr demo_lib ''127.0.0.1''" "bl_New demo_lib b = None" "bl_Start demo_lib b = None" for b
    by (simp_all add: demo_lib_def)
  ultimately have "\<exists>m''. manager_Start (inproc_ops demo_lib) demo_server ''proxy''
      (snd (manager_Stop (inproc_ops demo_lib) m)) = Some (None, m'')"
    using stop_enables_start [OF m(1) surjective_pairing, of demo_server "''proxy''"] by auto
  with m show ?thesis by blast
qed

text \<open>Log levels survive the way to the engine and back: a valid application level is
  returned unchanged by the two conversions, and both conversions keep the order of
  severity.\<close>

theorem levels_roundtrip:
  assumes "level_Valid l" "level_Valid l'"
  shows "engineToModelLevel (modelToEngineLevel l) = l \<and>
    (Rank l \<le> Rank l' \<longleftrightarrow> modelToEngineLevel l \<le> modelToEngineLevel l')"
  using assms by (auto simp: level_Valid_def engineToModelLevel_def modelToEngineLevel_def Rank_def)

theorem levels_roundtrip_witness: "engineToModelLevel (modelToEngineLevel ''warn'') = ''warn''"
  using levels_roundtrip [of "''warn''" "''info''"] by (simp add: level_Valid_def)

end
