(* ===== verification/VPN_Tunnel.thy ===== *)
theory VPN_Tunnel
  imports VPN_Orderly Tunnel
begin

text \<open>
  The VPN service over its tunnel manager: the service of \<open>core/vpn/service.go\<close> calls
  \<open>Start\<close> and \<open>Stop\<close> of \<open>core/tunnel/manager.go\<close>. A joint state has both; the step in which a
  start returns is the manager's start of the run's profile and mode, the steps that stop the tunnel
  are the manager's stop, and the other steps are the service's alone.
\<close>

section \<open>Joint executions\<close>

definition starting :: "event \<Rightarrow> svc \<Rightarrow> nat option" where
  "starting ev s =
     (case ev of
        LoopEv i ch \<Rightarrow> if i < length (s_runs s) \<and> rs_pc (s_runs s ! i) = L_Starting then Some i else None
      | _ \<Rightarrow> None)"

definition returns :: "event \<Rightarrow> goerror option \<Rightarrow> bool \<Rightarrow> bool" where
  "returns ev err up = (case ev of LoopEv i (StartReturns e u) \<Rightarrow> e = err \<and> u = up | _ \<Rightarrow> False)"

definition stop_pc :: "loop_pc \<Rightarrow> bool" where
  "stop_pc pc = (case pc of L_FailedStop e \<Rightarrow> True | L_ReconnectStop \<Rightarrow> True | L_TeardownStop \<Rightarrow> True | _ \<Rightarrow> False)"

definition stop_call :: "caller_pc \<Rightarrow> bool" where
  "stop_call pc = (case pc of C_ReapStop i p m \<Rightarrow> True | D_ForceStop \<Rightarrow> True | _ \<Rightarrow> False)"

definition stopping :: "event \<Rightarrow> svc \<Rightarrow> bool" where
  "stopping ev s =
     (case ev of
        LoopEv i ch \<Rightarrow> i < length (s_runs s) \<and> stop_pc (rs_pc (s_runs s ! i))
      | CallEv t ch \<Rightarrow> stop_call (s_callers s t)
      | _ \<Rightarrow> False)"

definition joint_exec ::
  "'r RunnerOps \<Rightarrow> gotime \<Rightarrow> event \<Rightarrow> svc \<times> 'r Manager \<Rightarrow> (svc \<times> 'r Manager) option" where
  "joint_exec ops now ev sm =
     (let s = fst sm; m = snd sm
      in case starting ev s of
           Some i \<Rightarrow>
             (case manager_Start ops (rs_profile (s_runs s ! i)) (rs_mode (s_runs s ! i)) m of
                None \<Rightarrow> None
              | Some (err, m') \<Rightarrow>
                  if returns ev err (Active m') then map_option (\<lambda>s'. (s', m')) (vpn_exec now ev s)
                  else None)
         | None \<Rightarrow>
             map_option (\<lambda>s'. (s', if stopping ev s then snd (manager_Stop ops m) else m)) (vpn_exec now ev s))"

fun joint_run ::
  "'r RunnerOps \<Rightarrow> (gotime \<times> event) list \<Rightarrow> svc \<times> 'r Manager \<Rightarrow> (svc \<times> 'r Manager) option" where
  "joint_run ops [] sm = Some sm"
| "joint_run ops ((now, ev) # evs) sm =
     (case joint_exec ops now ev sm of None \<Rightarrow> None | Some sm' \<Rightarrow> joint_run ops evs sm')"

lemma joint_exec_vpn: "joint_exec ops now ev (s, m) = Some (s', m') \<Longrightarrow> vpn_exec now ev s = Some s'"
  by (auto simp: joint_exec_def Let_def split: option.splits prod.splits if_splits)

lemma joint_run_vpn: "joint_run ops evs (s, m) = Some (s', m') \<Longrightarrow> vpn_run evs s = Some s'"
proof (induction evs arbitrary: s m)
  case (Cons te evs)
  obtain now ev where te: "te = (now, ev)" by (cases te)
  with Cons.prems obtain s1 m1 where "joint_exec ops now ev (s, m) = Some (s1, m1)" "joint_run ops evs (s1, m1) = Some (s', m')"
    by (auto split: option.splits)
  then show ?case using Cons.IH joint_exec_vpn te by fastforce
qed simp

section \<open>What a step does to the tunnel and to the profiles\<close>

lemma loop_step_tunnel:
  assumes "runLoop_step now i ch s = Some s'" "rs_pc (s_runs s ! i) \<noteq> L_Starting"
  shows "s_tunnel s' = (s_tunnel s \<and> \<not> stop_pc (rs_pc (s_runs s ! i)))"
  using assms
  by (cases "rs_pc (s_runs s ! i)"; cases ch)
    (auto simp: runLoop_step_def loop_defs stop_pc_def tunnel_Stop_def split: if_splits option.splits list.splits)

lemma caller_step_tunnel:
  assumes "caller_step now t ch s = Some s'"
  shows "s_tunnel s' = (s_tunnel s \<and> \<not> stop_call (s_callers s t))"
  using assms
  by (cases "s_callers s t"; cases ch)
    (auto simp: caller_step_def await_done_def connect_commit_def caller_go_def stop_call_def
      connect_check_def disconnect_read_def reconnect_read_def tunnel_Stop_def sendCmd_def
      forceDisconnect_def
      split: sum.splits if_splits option.splits)

lemma exec_tunnel:
  assumes "vpn_exec now ev s = Some s'" "starting ev s = None"
  shows "s_tunnel s' = (s_tunnel s \<and> \<not> stopping ev s)"
proof (cases ev)
  case (LoopEv i ch)
  then have l: "runLoop_step now i ch s = Some s'" using assms(1) by (simp add: vpn_exec_def)
  moreover have "rs_pc (s_runs s ! i) \<noteq> L_Starting"
    using assms(2) LoopEv runLoop_step_shape(1) [OF l] by (auto simp: starting_def split: if_splits)
  ultimately show ?thesis
    using loop_step_tunnel [OF l] runLoop_step_shape(1) [OF l] LoopEv by (simp add: stopping_def)
next
  case (CallEv t ch)
  then show ?thesis using assms(1) caller_step_tunnel [of now t ch s s'] by (simp add: vpn_exec_def stopping_def)
qed (use assms in \<open>auto simp: vpn_exec_def stopping_def SetAutoReconnect_def SetRetryPolicy_def\<close>)

lemma exec_start:
  assumes "vpn_exec now (LoopEv i (StartReturns err up)) s = Some s'" "starting (LoopEv i (StartReturns err up)) s = Some j"
  shows "s_tunnel s' = up" "s_active s' = s_active s" "i < length (s_runs s)" "rs_pc (s_runs s ! i) = L_Starting"
  using assms
  by (auto simp: starting_def vpn_exec_def runLoop_step_def start_returns_def goto_def split: if_splits)

definition run_target :: "run_state \<Rightarrow> ServerProfile \<times> ConnectionMode" where
  "run_target r = (rs_profile r, rs_mode r)"

lemma loop_step_target:
  assumes "runLoop_step now i ch s = Some s'"
  shows "run_target (s_runs s' ! j) = run_target (s_runs s ! j)"
proof (cases "i = j")
  case True
  then show ?thesis using assms
    by (cases "rs_pc (s_runs s ! i)"; cases ch)
      (auto simp: run_target_def runLoop_step_def loop_defs tunnel_Stop_def split: if_splits option.splits list.splits)
next
  case False
  then show ?thesis using runLoop_step_shape(2) [OF assms] by (metis nth_list_update_neq)
qed

lemma run_upd_same:
  "(\<And>r. g (f r) = g r) \<Longrightarrow> g (s_runs (run_upd i f s) ! j) = g (s_runs s ! j)"
  by (cases "i < length (s_runs s)") (auto simp: run_upd_def nth_list_update list_update_beyond)

lemma caller_step_runs:
  assumes "caller_step now t ch s = Some s'" "j < length (s_runs s)"
  shows "run_target (s_runs s' ! j) = run_target (s_runs s ! j) \<and> rs_pc (s_runs s' ! j) = rs_pc (s_runs s ! j)"
  using assms
  by (cases "s_callers s t"; cases ch)
    (auto simp: caller_step_def await_done_def connect_commit_def caller_go_def nth_append
      connect_check_def disconnect_read_def reconnect_read_def tunnel_Stop_def sendCmd_def
      forceDisconnect_def run_target_def
      intro!: run_upd_same [of rs_profile] run_upd_same [of rs_mode] run_upd_same [of rs_pc]
      split: sum.splits if_splits option.splits)

lemma exec_target:
  assumes "vpn_exec now ev s = Some s'" "j < length (s_runs s)"
  shows "run_target (s_runs s' ! j) = run_target (s_runs s ! j)"
  using assms loop_step_target caller_step_runs
  by (cases ev) (auto simp: vpn_exec_def SetAutoReconnect_def SetRetryPolicy_def)

lemma caller_step_new_run:
  assumes "caller_step now t ch s = Some s'" "s_active s' = Some (length (s_runs s))" "s_active s \<noteq> Some (length (s_runs s))"
  shows "rs_pc (s_runs s' ! length (s_runs s)) = L_Emit StateConnecting L_Start"
  using assms
  by (cases "s_callers s t"; cases ch)
    (auto simp: caller_step_def await_done_def connect_commit_def caller_go_def new_run_def
      connect_check_def disconnect_read_def reconnect_read_def tunnel_Stop_def sendCmd_def
      forceDisconnect_def
      split: sum.splits if_splits option.splits)

lemma exec_new_run:
  assumes "svc_inv s" "vpn_exec now ev s = Some s'" "s_active s' = Some j" "s_active s \<noteq> Some j"
  shows "rs_pc (s_runs s' ! j) = L_Emit StateConnecting L_Start"
proof -
  have j: "j = length (s_runs s)" using vpn_exec_active [OF assms(1,2)] assms(3,4) by auto
  show ?thesis
  proof (cases ev)
    case (LoopEv i ch)
    then have l: "runLoop_step now i ch s = Some s'" using assms(2) by (simp add: vpn_exec_def)
    have "svc_inv s'" using vpn_exec_inv [OF assms(1,2)] .
    then have "j < length (s_runs s')" using assms(3) by (auto simp: svc_inv_def)
    then show ?thesis using runLoop_step_shape(2) [OF l] j by (metis length_list_update less_irrefl)
  next
    case (CallEv t ch)
    then show ?thesis using caller_step_new_run [of now t ch s s'] assms j by (simp add: vpn_exec_def)
  qed (use assms in \<open>auto simp: vpn_exec_def SetAutoReconnect_def SetRetryPolicy_def\<close>)
qed

section \<open>The tunnel follows the service\<close>

text \<open>The bit of the service is the manager's state, and a running engine runs the profile and the
  mode of the active run.\<close>

definition follows :: "svc \<Rightarrow> 'r Manager \<Rightarrow> bool" where
  "follows s m \<longleftrightarrow> s_tunnel s = Active m \<and>
     (\<forall>p. mg_profile m = Some p \<longrightarrow> (\<exists>i. s_active s = Some i \<and> run_target (s_runs s ! i) = (p, mg_mode m)))"

context runner
begin

lemma joint_step:
  assumes "orderly_reachable s" "manager_ok m" "follows s m" "orderly ev" "joint_exec ops now ev (s, m) = Some (s', m')"
  shows "manager_ok m' \<and> follows s' m'"
proof -
  have v: "vpn_exec now ev s = Some s'" using joint_exec_vpn [OF assms(5)] .
  have r': "orderly_reachable s'" using orderly_reachable.more [OF assms(1) v assms(4)] .
  note inv = orderly_invD [OF conjunct1 [OF orderly_reachable_inv [OF assms(1)]]]
  note inv' = orderly_invD [OF conjunct1 [OF orderly_reachable_inv [OF r']]]
  show ?thesis
  proof (cases "starting ev s")
    case (Some i)
    then obtain err where st: "manager_Start ops (rs_profile (s_runs s ! i)) (rs_mode (s_runs s ! i)) m = Some (err, m')"
      "ev = LoopEv i (StartReturns err (Active m'))"
      using assms(5) by (auto simp: joint_exec_def Let_def returns_def starting_def
        split: option.splits prod.splits if_splits event.splits loop_choice.splits)
    note e = exec_start [OF v [unfolded st(2)] Some [unfolded st(2)]]
    have a: "s_active s = Some i" using inv(1) [OF e(3)] e(4) by simp
    have t: "run_target (s_runs s' ! i) = run_target (s_runs s ! i)" using exec_target [OF v e(3)] .
    note m = manager_start_ok [OF assms(2) st(1)]
    have "mg_profile m' = mg_profile m \<and> mg_mode m' = mg_mode m" if "err \<noteq> None"
      using st(1) that by (auto simp: manager_Start_def split: if_splits option.splits prod.splits)
    then show ?thesis
      using m e(1,2) a t assms(3) by (cases err) (auto simp: follows_def run_target_def)
  next
    case None
    then have m': "m' = (if stopping ev s then snd (manager_Stop ops m) else m)"
      using assms(5) by (auto simp: joint_exec_def)
    have tun: "s_tunnel s' = (s_tunnel s \<and> \<not> stopping ev s)" using exec_tunnel [OF v None] .
    show ?thesis
    proof (cases "stopping ev s")
      case True
      then show ?thesis
        using manager_stop_ok [OF assms(2), of "fst (manager_Stop ops m)" m'] tun m' by (auto simp: follows_def Active_def)
    next
      case False
      show ?thesis
      proof (cases "mg_profile m")
        case None
        then show ?thesis using assms(2,3) tun m' False by (simp add: follows_def Active_def)
      next
        case (Some p)
        then obtain i where i: "s_active s = Some i" "run_target (s_runs s ! i) = (p, mg_mode m)" "s_tunnel s"
          using assms(3) by (auto simp: follows_def Active_def)
        then have up: "s_tunnel s'" using tun False by simp
        then obtain j where j: "s_active s' = Some j" using inv'(4) by (cases "s_active s'") auto
        then have "may_route (rs_pc (s_runs s' ! j))" using inv'(3) up by blast
        then have "j = i"
          using exec_new_run [of s now ev s' j] orderly_reachable_inv [OF assms(1)] v j i(1) by fastforce
        then show ?thesis
          using i j up m' False assms(2) Some exec_target [OF v inv(7) [OF i(1)]] by (auto simp: follows_def Active_def)
      qed
    qed
  qed
qed

lemma joint_run_follows:
  assumes "orderly_reachable s" "manager_ok m" "follows s m" "list_all (\<lambda>p. orderly (snd p)) evs"
    and "joint_run ops evs (s, m) = Some (s', m')"
  shows "manager_ok m' \<and> follows s' m' \<and> orderly_reachable s'"
  using assms
proof (induction evs arbitrary: s m)
  case (Cons te evs)
  obtain now ev where te: "te = (now, ev)" by (cases te)
  with Cons.prems(5) obtain s1 m1 where s1: "joint_exec ops now ev (s, m) = Some (s1, m1)"
    "joint_run ops evs (s1, m1) = Some (s', m')" by (auto split: option.splits)
  have o: "orderly ev" using Cons.prems(4) te by simp
  have "orderly_reachable s1" using orderly_reachable.more [OF Cons.prems(1) joint_exec_vpn [OF s1(1)] o] .
  then show ?case
    using Cons.IH [OF _ _ _ _ s1(2)] joint_step [OF Cons.prems(1-3) o s1(1)] Cons.prems(4) by simp
qed simp

end

section \<open>A connected run has the tunnel up\<close>

text \<open>From the return of a successful start until the loop turns to stopping the tunnel.\<close>

fun holds_up :: "loop_pc \<Rightarrow> bool" where
  "holds_up (L_Started e) = (e = None)"
| "holds_up L_Connected = True"
| "holds_up L_Select = True"
| "holds_up L_Lost = True"
| "holds_up L_Reconnect = True"
| "holds_up (L_Emit st k) = holds_up k"
| "holds_up _ = False"

definition up_inv :: "svc \<Rightarrow> bool" where
  "up_inv s \<longleftrightarrow> (\<forall>i. s_active s = Some i \<longrightarrow> holds_up (rs_pc (s_runs s ! i)) \<longrightarrow> s_tunnel s)"

lemma holds_up_reported: "holds_up pc \<Longrightarrow> reported pc \<subseteq> {StateConnecting, StateConnected, StateReconnecting}"
  by (induction pc rule: holds_up.induct) auto

lemma loop_step_up:
  assumes "runLoop_step now i ch s = Some s'" "s_active s = Some i" "up_inv s"
  shows "up_inv s'"
  using assms
  by (cases "rs_pc (s_runs s ! i)"; cases ch)
    (auto simp: up_inv_def runLoop_step_def loop_defs tunnel_Stop_def select_pc_def waitcmd_pc_def
      split: if_splits option.splits list.splits command.splits)

lemma exec_up:
  assumes "orderly_reachable s" "up_inv s" "orderly ev" "vpn_exec now ev s = Some s'"
  shows "up_inv s'"
proof (cases ev)
  case (LoopEv i ch)
  then have l: "runLoop_step now i ch s = Some s'" using assms(4) by (simp add: vpn_exec_def)
  then have "s_active s = Some i"
    using orderly_invD(1) [OF conjunct1 [OF orderly_reachable_inv [OF assms(1)]], of i] exited_stuck [of s i now ch]
      runLoop_step_shape(1) [OF l] by (cases "rs_pc (s_runs s ! i) = L_Exited") auto
  then show ?thesis using loop_step_up [OF l _ assms(2)] by simp
next
  case (CallEv t ch)
  then have c: "caller_step now t ch s = Some s'" using assms(4) by (simp add: vpn_exec_def)
  have t: "t = 0" using CallEv assms(3) by (simp add: orderly_def)
  note inv = orderly_invD [OF conjunct1 [OF orderly_reachable_inv [OF assms(1)]]]
  show ?thesis unfolding up_inv_def
  proof (intro allI impI)
    fix i assume i: "s_active s' = Some i" "holds_up (rs_pc (s_runs s' ! i))"
    then have same: "s_active s = Some i"
      using exec_new_run [OF conjunct2 [OF orderly_reachable_inv [OF assms(1)]] assms(4)] by fastforce
    then have up: "holds_up (rs_pc (s_runs s ! i))" using i(2) caller_step_runs [OF c inv(7) [OF same]] by simp
    then have "live_state (s_state s)" using inv(2) [OF same] holds_up_reported by (auto simp: live_state_def)
    then have "\<not> stop_call (s_callers s 0)" using inv(5) by (auto simp: stop_call_def split: caller_pc.splits)
    then show "s_tunnel s'" using caller_step_tunnel [OF c] t up same assms(2) by (simp add: up_inv_def)
  qed
qed (use assms in \<open>auto simp: vpn_exec_def SetAutoReconnect_def SetRetryPolicy_def up_inv_def\<close>)

lemma orderly_up: "orderly_reachable s \<Longrightarrow> up_inv s"
proof (induction rule: orderly_reachable.induct)
  case (more s now ev s')
  then show ?case using exec_up by blast
qed (simp add: up_inv_def NewService_def)

section \<open>Property\<close>


text \<open>A connect over an engine whose start succeeds.\<close>

definition engine_trace :: "(gotime \<times> event) list" where
  "engine_trace =
     map (Pair 7)
       [CallEv 0 (Invoke (CallConnect ''srv'' ModeVPN)), CallEv 0 (Resolved (Inr demo_server)),
        CallEv 0 Go, CallEv 0 (FreshID ''sess''), LoopEv 0 Step, LoopEv 0 Step,
        LoopEv 0 (StartReturns None True), LoopEv 0 Step, LoopEv 0 Step, LoopEv 0 Step]"


end
