(* ===== verification/Facade.thy ===== *)
theory Facade
  imports Bridge_API Legacy_Import VPN_Tunnel Event_Ring
begin

text \<open>
  The facade (\<open>core/core.go\<close>): the components wired together behind the dispatcher. Its state
  holds the logger, the configuration engine with its store, the server manager, the VPN service
  with its tunnel manager, the event bus, the subscription of the transport and the events the
  transport's sink has received.

  What an operation gets from outside (clocks, fresh identifiers, random bytes, library functions)
  is an environment. The transports serialise requests; the run loops of the VPN service go on
  meanwhile: a request that waits for them carries a schedule, the sequence of their steps and its
  own, and returns under it or not (\<open>None\<close>). Steps between requests are \<open>background\<close>. The redactor of
  the repository is the logger's own object. The VPN service's and the engine's own log lines are
  left out.
\<close>

section \<open>State\<close>

datatype bus_sink = FacadeSink
datatype log_sink = ConsoleSink | LogSink

datatype Event =
    StateChanged StateResponse
  | LogAppended LogEntry
  | LatencyTested string int

fun event_type :: "Event \<Rightarrow> string" where
  "event_type (StateChanged r) = EventStateChanged"
| "event_type (LogAppended e) = EventLogAppended"
| "event_type (LatencyTested i ms) = EventLatencyTested"

record ('d, 'k, 'c, 'r) Facade =
  fc_Platform :: string
  fc_logger :: "log_sink Logger"
  fc_key :: string
  fc_config :: configDoc
  fc_store :: 'c
  fc_servers :: "('d, 'k) ServerManager"
  fc_vpn :: svc
  fc_tunnel :: "'r Manager"
  fc_bus :: "bus_sink EventBus"
  fc_subscribed :: bool
  fc_eventSet :: "string list"
  fc_sink :: bool
  fc_sent :: "Event list"

record ('d, 'k, 'c, 'r) FacadeEnv =
  fe_repo :: "('d, 'k) RepoEnv"
  fe_link :: LinkEnv
  fe_store :: "'c ConfigOps"
  fe_crypto :: env
  fe_runner :: "'r RunnerOps"
  fe_now :: gotime
  fe_random :: "byte list"
  fe_fresh :: fresh
  fe_schedule :: "(gotime \<times> event) list"

section \<open>Events and log lines\<close>

definition SendEvent :: "Event \<Rightarrow> ('d, 'k, 'c, 'r) Facade \<Rightarrow> ('d, 'k, 'c, 'r) Facade" where
  "SendEvent e f =
     (let deliver = (fc_subscribed f \<and> fc_sink f);
          deliver' = (if deliver \<and> 0 < length (fc_eventSet f) then event_type e \<in> set (fc_eventSet f) else deliver)
      in if deliver' then f\<lparr>fc_sent := fc_sent f @ [e]\<rparr> else f)"

definition publish :: "Event \<Rightarrow> ('d, 'k, 'c, 'r) Facade \<Rightarrow> ('d, 'k, 'c, 'r) Facade" where
  "publish e f = fold (\<lambda>(k, ev). SendEvent ev) (Publish (\<lambda>subs. subs) e (fc_bus f)) f"

definition sink_Write :: "log_sink \<times> LogEntry \<Rightarrow> ('d, 'k, 'c, 'r) Facade \<Rightarrow> ('d, 'k, 'c, 'r) Facade" where
  "sink_Write w f = (case fst w of LogSink \<Rightarrow> publish (LogAppended (snd w)) f | ConsoleSink \<Rightarrow> f)"

definition log_call :: "gotime \<Rightarrow> LogCall \<Rightarrow> ('d, 'k, 'c, 'r) Facade \<Rightarrow> ('d, 'k, 'c, 'r) Facade" where
  "log_call now c f =
     (let (writes, lg) = log now (fst c) (fst (snd c)) (snd (snd c)) [] (fc_logger f)
      in fold sink_Write writes (f\<lparr>fc_logger := lg\<rparr>))"

text \<open>Running an operation of the server manager: the redactor it filled is the logger's, and its log
  lines are written.\<close>

definition with_servers ::
  "gotime \<Rightarrow> (('d, 'k) ServerManager \<Rightarrow> 'a \<times> ('d, 'k) ServerManager) \<Rightarrow> ('d, 'k, 'c, 'r) Facade \<Rightarrow> 'a \<times> ('d, 'k, 'c, 'r) Facade" where
  "with_servers now op f =
     (let m = fc_servers f;
          (r, m') = op (m\<lparr>sm_logged := []\<rparr>);
          lg = (case rp_redact (sm_repo m') of None \<Rightarrow> fc_logger f | Some red \<Rightarrow> (fc_logger f)\<lparr>lg_redactor := red\<rparr>)
      in (r, fold (log_call now) (sm_logged m') (f\<lparr>fc_servers := m', fc_logger := lg\<rparr>)))"

section \<open>The VPN service under a schedule\<close>

definition publish_states :: "nat \<Rightarrow> svc \<Rightarrow> ('d, 'k, 'c, 'r) Facade \<Rightarrow> ('d, 'k, 'c, 'r) Facade" where
  "publish_states n s f =
     fold (\<lambda>ev. publish (StateChanged \<lparr>sr_State = fst ev, sr_Session = snd ev\<rparr>)) (drop n (s_events s)) f"

definition vpn_steps ::
  "'r RunnerOps \<Rightarrow> (gotime \<times> event) list \<Rightarrow> ('d, 'k, 'c, 'r) Facade \<Rightarrow> ('d, 'k, 'c, 'r) Facade option" where
  "vpn_steps ops evs f =
     (case joint_run ops evs (fc_vpn f, fc_tunnel f) of
        None \<Rightarrow> None
      | Some (s, m) \<Rightarrow>
          Some (publish_states (length (s_events (fc_vpn f))) s (f\<lparr>fc_vpn := s, fc_tunnel := m\<rparr>)))"

definition loop_only :: "event \<Rightarrow> bool" where
  "loop_only ev = (case ev of LoopEv i ch \<Rightarrow> True | _ \<Rightarrow> False)"

definition background ::
  "('d, 'k, 'c, 'r) FacadeEnv \<Rightarrow> ('d, 'k, 'c, 'r) Facade \<Rightarrow> ('d, 'k, 'c, 'r) Facade option" where
  "background env f =
     (if list_all (\<lambda>p. loop_only (snd p)) (fe_schedule env) then vpn_steps (fe_runner env) (fe_schedule env) f else None)"

text \<open>A call of the service: invoked by the caller 0, then the schedule of loop steps and of the
  caller's own steps, whose \<open>Resolved\<close> answers are the facade's, until it has returned.\<close>

definition in_call :: "goerror + ServerProfile \<Rightarrow> event \<Rightarrow> bool" where
  "in_call resolved ev =
     (case ev of
        LoopEv i ch \<Rightarrow> True
      | CallEv t ch \<Rightarrow> t = 0 \<and> (case ch of Invoke c \<Rightarrow> False | Resolved r \<Rightarrow> r = resolved | _ \<Rightarrow> True)
      | _ \<Rightarrow> False)"

definition vpn_call ::
  "('d, 'k, 'c, 'r) FacadeEnv \<Rightarrow> api_call \<Rightarrow> goerror + ServerProfile \<Rightarrow> ('d, 'k, 'c, 'r) Facade \<Rightarrow>
   (goerror option \<times> ('d, 'k, 'c, 'r) Facade) option" where
  "vpn_call env call resolved f =
     (if list_all (\<lambda>p. in_call resolved (snd p)) (fe_schedule env) then
        (case vpn_steps (fe_runner env) ((fe_now env, CallEv 0 (Invoke call)) # fe_schedule env) f of
           None \<Rightarrow> None
         | Some f' \<Rightarrow> (case s_callers (fc_vpn f') 0 of C_Return r \<Rightarrow> Some (r, f') | _ \<Rightarrow> None))
      else None)"

section \<open>Errors\<close>

definition errConnected :: goerror where
  "errConnected = GoError ErrConnected ''core: server is connected; disconnect first''"

definition MapError :: "goerror option \<Rightarrow> Error option" where
  "MapError err =
     (case err of
        None \<Rightarrow> None
      | Some e \<Rightarrow>
          Some \<lparr>er_Code =
                  (if err_is e = ErrServerNotFound then ErrCodeNotFound
                   else if err_is e = ErrValidation then ErrCodeValidation
                   else if err_is e = ErrDisabled then ErrCodeValidation
                   else if err_is e = ErrBusy \<or> err_is e = ErrAlreadyRunning then ErrCodeBusy
                   else if err_is e = ErrConnected then ErrCodeConnected
                   else if err_is e = ErrLatencyUnavailable then ErrCodeEngine
                   else ErrCodeInternal),
                er_Message = err_text e\<rparr>)"

definition Resolve ::
  "('d, 'k) RepoEnv \<Rightarrow> string \<Rightarrow> ('d, 'k) ServerManager \<Rightarrow> (goerror + ServerProfile) \<times> ('d, 'k) ServerManager" where
  "Resolve env serverID m =
     (case GetServer env serverID m of
        (Inl e, m') \<Rightarrow> (Inl e, m')
      | (Inr p, m') \<Rightarrow>
          (if \<not> sp_Enabled p then Inl (GoError ErrDisabled (''server: server is disabled: '' @ Quote (sp_Name p))) else Inr p, m'))"

section \<open>The handler's operations\<close>

abbreviation (input) Version :: string where "Version \<equiv> ''1.0.0''"
abbreviation (input) EngineVersion :: string where "EngineVersion \<equiv> ''v1.13.15''"

definition fa_GetVersion :: "('d, 'k, 'c, 'r) Facade \<Rightarrow> (GetVersionResponse \<times> ('d, 'k, 'c, 'r) Facade) option" where
  "fa_GetVersion f =
     Some (\<lparr>vr_Version = Version, vr_EngineVersion = EngineVersion, vr_Platform = fc_Platform f\<rparr>, f)"

definition list_query :: "ServerListRequest \<Rightarrow> Query" where
  "list_query req =
     \<lparr>qu_Search = lq_Search req, qu_Group = lq_Group req, qu_Protocol = lq_Protocol req, qu_Enabled = lq_Enabled req,
      qu_Favorite = lq_Favorite req,
      qu_Sort = (if lq_Sort req = ''updatedAt'' then SortUpdated
                 else if lq_Sort req = ''latency'' then SortLatency
                 else SortName),
      qu_Order = ''''\<rparr>"

definition fa_ListServers ::
  "('d, 'k, 'c, 'r) FacadeEnv \<Rightarrow> ServerListRequest \<Rightarrow> ('d, 'k, 'c, 'r) Facade \<Rightarrow>
   (ServerListResponse \<times> ('d, 'k, 'c, 'r) Facade) option" where
  "fa_ListServers env req f =
     (let ((servers, err), f') = with_servers (fe_now env) (ListServersQuery (fe_repo env) (list_query req)) f;
          f'' = (case err of
                   None \<Rightarrow> f'
                 | Some e \<Rightarrow> log_call (fe_now env) (LevelError, ''core'', ''listServers: '' @ err_text e) f')
      in Some (\<lparr>lr_Servers = servers\<rparr>, f''))"

definition fa_GetServer ::
  "('d, 'k, 'c, 'r) FacadeEnv \<Rightarrow> string \<Rightarrow> ('d, 'k, 'c, 'r) Facade \<Rightarrow>
   ((goerror + ServerProfile) \<times> ('d, 'k, 'c, 'r) Facade) option" where
  "fa_GetServer env sid f = Some (with_servers (fe_now env) (GetServer (fe_repo env) sid) f)"

definition fa_AddServer ::
  "('d, 'k, 'c, 'r) FacadeEnv \<Rightarrow> ServerProfile \<Rightarrow> ('d, 'k, 'c, 'r) Facade \<Rightarrow>
   ((goerror + IDResponse) \<times> ('d, 'k, 'c, 'r) Facade) option" where
  "fa_AddServer env p f =
     (let (r, f') = with_servers (fe_now env) (AddServer (fe_repo env) (fe_random env) (fe_now env) (fe_now env) p) f
      in Some (case r of Inl e \<Rightarrow> (Inl e, f') | Inr sid \<Rightarrow> (Inr \<lparr>ir_ID = sid\<rparr>, f')))"

definition fa_UpdateServer ::
  "('d, 'k, 'c, 'r) FacadeEnv \<Rightarrow> ServerProfile \<Rightarrow> ('d, 'k, 'c, 'r) Facade \<Rightarrow>
   ((goerror + ServerProfile) \<times> ('d, 'k, 'c, 'r) Facade) option" where
  "fa_UpdateServer env p f =
     (if RunningTo (sp_ID p) (fc_vpn f) then Some (Inl errConnected, f)
      else (case with_servers (fe_now env) (UpdateServer (fe_repo env) (fe_now env) p) f of
              (Some e, f') \<Rightarrow> Some (Inl e, f')
            | (None, f') \<Rightarrow> Some (with_servers (fe_now env) (GetServer (fe_repo env) (sp_ID p)) f')))"

definition fa_DeleteServer ::
  "('d, 'k, 'c, 'r) FacadeEnv \<Rightarrow> string \<Rightarrow> ('d, 'k, 'c, 'r) Facade \<Rightarrow> (goerror option \<times> ('d, 'k, 'c, 'r) Facade) option" where
  "fa_DeleteServer env sid f =
     (if RunningTo sid (fc_vpn f) then Some (Some errConnected, f)
      else Some (with_servers (fe_now env) (DeleteServer (fe_repo env) sid) f))"

definition fa_DuplicateServer ::
  "('d, 'k, 'c, 'r) FacadeEnv \<Rightarrow> string \<Rightarrow> ('d, 'k, 'c, 'r) Facade \<Rightarrow>
   ((goerror + IDResponse) \<times> ('d, 'k, 'c, 'r) Facade) option" where
  "fa_DuplicateServer env sid f =
     (let (r, f') = with_servers (fe_now env) (Duplicate (fe_repo env) (fe_random env) (fe_now env) (fe_now env) sid) f
      in Some (case r of Inl e \<Rightarrow> (Inl e, f') | Inr nid \<Rightarrow> (Inr \<lparr>ir_ID = nid\<rparr>, f')))"

definition fa_ImportServers ::
  "('d, 'k, 'c, 'r) FacadeEnv \<Rightarrow> ImportRequest \<Rightarrow> ('d, 'k, 'c, 'r) Facade \<Rightarrow>
   ((goerror + ImportResponse) \<times> ('d, 'k, 'c, 'r) Facade) option" where
  "fa_ImportServers env req f =
     (let ((added, failed, errs), f') =
            with_servers (fe_now env) (ImportServers (fe_link env) (fe_repo env) (fe_fresh env) (is_Data (mq_Source req))) f
      in Some (Inr \<lparr>mr_Added = added, mr_Failed = failed, mr_Errors = errs\<rparr>, f'))"

definition export_response :: "string \<Rightarrow> goerror + string \<Rightarrow> goerror + ExportResponse" where
  "export_response format r = (case r of Inl e \<Rightarrow> Inl e | Inr blob \<Rightarrow> Inr \<lparr>xr_Format = format, xr_Blob = blob\<rparr>)"

definition fa_ExportServers ::
  "('d, 'k, 'c, 'r) FacadeEnv \<Rightarrow> ExportRequest \<Rightarrow> ('d, 'k, 'c, 'r) Facade \<Rightarrow>
   ((goerror + ExportResponse) \<times> ('d, 'k, 'c, 'r) Facade) option" where
  "fa_ExportServers env req f =
     Some (if xq_Format req = '''' \<or> xq_Format req = ''onnproxy'' then
             map_prod (export_response EnvelopeFormat) id
               (with_servers (fe_now env) (ExportServers (fe_repo env) (xq_IDs req)) f)
           else if xq_Format req = ''links'' then
             map_prod (export_response ''links'') id
               (with_servers (fe_now env) (ExportLinks (fe_repo env) (xq_IDs req)) f)
           else (Inl (GoError ErrValidation (''validation failed: unknown export format '' @ Quote (xq_Format req))), f))"

definition fa_TestServerLatency ::
  "('d, 'k, 'c, 'r) FacadeEnv \<Rightarrow> string \<Rightarrow> ('d, 'k, 'c, 'r) Facade \<Rightarrow>
   ((goerror + LatencyResponse) \<times> ('d, 'k, 'c, 'r) Facade) option" where
  "fa_TestServerLatency env sid f =
     (case with_servers (fe_now env) (TestLatency (fe_repo env) (fe_now env) (fe_now env) sid) f of
        (Inl e, f') \<Rightarrow> Some (Inl e, f')
      | (Inr ms, f') \<Rightarrow> Some (Inr \<lparr>ar_LatencyMS = ms\<rparr>, publish (LatencyTested sid ms) f'))"

definition state_response :: "svc \<Rightarrow> StateResponse" where
  "state_response s = \<lparr>sr_State = s_state s, sr_Session = session_of s\<rparr>"

definition fa_ConnectionState ::
  "('d, 'k, 'c, 'r) Facade \<Rightarrow> (StateResponse \<times> ('d, 'k, 'c, 'r) Facade) option" where
  "fa_ConnectionState f = Some (state_response (fc_vpn f), f)"

definition vpn_answer ::
  "(goerror option \<times> ('d, 'k, 'c, 'r) Facade) option \<Rightarrow> ((goerror + StateResponse) \<times> ('d, 'k, 'c, 'r) Facade) option" where
  "vpn_answer res =
     map_option (\<lambda>(r, f). (case r of Some e \<Rightarrow> Inl e | None \<Rightarrow> Inr (state_response (fc_vpn f)), f)) res"

definition fa_Connect ::
  "('d, 'k, 'c, 'r) FacadeEnv \<Rightarrow> ConnectRequest \<Rightarrow> ('d, 'k, 'c, 'r) Facade \<Rightarrow>
   ((goerror + StateResponse) \<times> ('d, 'k, 'c, 'r) Facade) option" where
  "fa_Connect env req f =
     (let mode = (if cq_Mode req = '''' then as_ConnectionMode (cd_Settings (fc_config f)) else cq_Mode req);
          (resolved, f') = with_servers (fe_now env) (Resolve (fe_repo env) (cq_ServerID req)) f
      in vpn_answer (vpn_call env (CallConnect (cq_ServerID req) mode) resolved f'))"

definition fa_Disconnect ::
  "('d, 'k, 'c, 'r) FacadeEnv \<Rightarrow> ('d, 'k, 'c, 'r) Facade \<Rightarrow> ((goerror + StateResponse) \<times> ('d, 'k, 'c, 'r) Facade) option" where
  "fa_Disconnect env f = vpn_answer (vpn_call env CallDisconnect (Inl errServerNotFound) f)"

definition fa_GetLogs ::
  "LogsRequest \<Rightarrow> ('d, 'k, 'c, 'r) Facade \<Rightarrow> ((goerror + LogsResponse) \<times> ('d, 'k, 'c, 'r) Facade) option" where
  "fa_GetLogs req f =
     (let limit = (if gq_Limit req \<le> 0 \<or> 500 < gq_Limit req then 200 else gq_Limit req)
      in Some (Inr \<lparr>gr_Logs = LogsAfter (gq_AfterSeq req) limit (fc_logger f)\<rparr>, f))"

definition fa_GetSettings ::
  "('d, 'k, 'c, 'r) Facade \<Rightarrow> ((goerror + SettingsResponse) \<times> ('d, 'k, 'c, 'r) Facade) option" where
  "fa_GetSettings f = Some (Inr \<lparr>tr_Settings = cd_Settings (fc_config f)\<rparr>, f)"

definition fa_UpdateSettings ::
  "('d, 'k, 'c, 'r) FacadeEnv \<Rightarrow> SettingsRequest \<Rightarrow> ('d, 'k, 'c, 'r) Facade \<Rightarrow>
   ((goerror + SettingsResponse) \<times> ('d, 'k, 'c, 'r) Facade) option" where
  "fa_UpdateSettings env req f =
     (case UpdateSettings (fe_store env) (fe_crypto env) (fc_key f) (sq_Settings req) (fc_config f) (fc_store f) of
        (Inl e, cfg, s) \<Rightarrow> Some (Inl e, f\<lparr>fc_config := cfg, fc_store := s\<rparr>)
      | (Inr n, cfg, s) \<Rightarrow>
          (let f1 = log_call (fe_now env) (LevelInfo, ''config'', ''settings updated'') (f\<lparr>fc_config := cfg, fc_store := s\<rparr>)
           in Some (Inr \<lparr>tr_Settings = n\<rparr>,
                f1\<lparr>fc_logger := SetLevel (as_LogLevel n) (fc_logger f1),
                   fc_tunnel := SetIPv6Mode (as_IPv6Mode n) (SetLogLevel (as_LogLevel n) (fc_tunnel f1))\<rparr>)))"

definition event_names :: "string list" where
  "event_names = [EventStateChanged, EventLogAppended, EventLatencyTested]"

definition fa_Subscribe ::
  "SubscribeRequest \<Rightarrow> ('d, 'k, 'c, 'r) Facade \<Rightarrow> (goerror option \<times> ('d, 'k, 'c, 'r) Facade) option" where
  "fa_Subscribe req f =
     Some (None, f\<lparr>fc_subscribed := True, fc_eventSet := remdups (filter (\<lambda>t. t \<in> set event_names) (bq_Events req))\<rparr>)"

definition fa_Unsubscribe :: "('d, 'k, 'c, 'r) Facade \<Rightarrow> (goerror option \<times> ('d, 'k, 'c, 'r) Facade) option" where
  "fa_Unsubscribe f = Some (None, f\<lparr>fc_subscribed := False, fc_eventSet := []\<rparr>)"

definition SetEventSink :: "bool \<Rightarrow> ('d, 'k, 'c, 'r) Facade \<Rightarrow> ('d, 'k, 'c, 'r) Facade" where
  "SetEventSink registered f = f\<lparr>fc_sink := registered\<rparr>"

section \<open>Start and end\<close>

definition log_line :: "gotime \<Rightarrow> LogCall \<Rightarrow> 'q Logger \<Rightarrow> 'q Logger" where
  "log_line now c lg = snd (log now (fst c) (fst (snd c)) (snd (snd c)) [] lg)"

text \<open>\<open>New\<close> with the logger it creates itself: the database is opened or not, and the platform's
  runner has its initial state; the data directory is a clean path. The lines the configuration engine logs are left out.\<close>

definition wire ::
  "('d, 'k, 'c, 'r) FacadeEnv \<Rightarrow> string \<Rightarrow> string \<Rightarrow> LogLevel \<Rightarrow> (ServerProfile \<Rightarrow> goerror + int) \<Rightarrow> 'r \<Rightarrow>
   log_sink Logger \<Rightarrow> string \<Rightarrow> configDoc \<Rightarrow> 'c \<Rightarrow> ('d, 'k) Repo \<Rightarrow> ('d, 'k, 'c, 'r) Facade" where
  "wire env platform dataDir level tester rn lg key cfg s repo =
     \<lparr>fc_Platform = platform, fc_logger = AddSink LogSink lg, fc_key = key, fc_config = cfg, fc_store = s,
      fc_servers = SetLatencyTester (Some tester) (manager_New repo), fc_vpn = NewService,
      fc_tunnel = SetLogLevel level (SetCacheFilePath (dataDir @ ''/cache.db'') (NewManager rn)),
      fc_bus = snd (Subscribe (Some FacadeSink) NewEventBus), fc_subscribed = False, fc_eventSet = [], fc_sink = False,
      fc_sent = []\<rparr>"

definition fa_New ::
  "('d, 'k, 'c, 'r) FacadeEnv \<Rightarrow> string \<Rightarrow> string \<Rightarrow> LogLevel \<Rightarrow> (ServerProfile \<Rightarrow> goerror + int) \<Rightarrow> 'r \<Rightarrow>
   goerror + string \<Rightarrow> goerror + string \<Rightarrow> goerror + 'd \<Rightarrow> 'k \<Rightarrow> 'c \<Rightarrow> (goerror + ('d, 'k, 'c, 'r) Facade) option" where
  "fa_New env platform dataDir level tester rn rnd1 rnd2 db ks s =
     (if dataDir = '''' then Some (Inl (plain_error ''core: DataDir is required''))
      else
        (let logger = NewLogger ConsoleSink level []; sops = re_sec (fe_repo env); now = fe_now env
         in case LoadLegacyServers sops rnd1 (fe_store env) (fe_crypto env) (re_order (fe_repo env)) ks s
                   \<lparr>ll_redactor = lg_redactor logger, ll_logged = []\<rparr> of
              None \<Rightarrow> None
            | Some (loaded, ks1, ll) \<Rightarrow>
                (let lg1 = fold (log_line now) (ll_logged ll) (logger\<lparr>lg_redactor := ll_redactor ll\<rparr>);
                     (legacy, lg2) =
                       (case loaded of
                          Inl e \<Rightarrow> ([], log_line now (LevelWarn, ''core'', ''skipping legacy server migration: '' @ err_text e) lg1)
                        | Inr ps \<Rightarrow> (ps, lg1))
                 in case config_New sops rnd2 (fe_store env) (fe_crypto env) ks1 s of
                      (Inl e, ks2, s2) \<Rightarrow> Some (Inl e)
                    | (Inr (key, cfg), ks2, s2) \<Rightarrow>
                        (case db of
                           Inl e \<Rightarrow> Some (Inl e)
                         | Inr d \<Rightarrow>
                             (let repo = SetRedactor (Some (lg_redactor lg2)) (NewSQLiteServerRepository d ks2);
                                  (repo', calls) = migrate (fe_repo env) (fe_fresh env) 0 legacy (repo, []);
                                  lg3 = (case rp_redact repo' of None \<Rightarrow> lg2 | Some red \<Rightarrow> lg2\<lparr>lg_redactor := red\<rparr>);
                                  lg4 = fold (log_line now) calls lg3
                              in Some (Inr (wire env platform dataDir level tester rn lg4 key cfg s2 repo')))))))"

definition fa_Close :: "('d, 'k, 'c, 'r) FacadeEnv \<Rightarrow> ('d, 'k, 'c, 'r) Facade \<Rightarrow> ('d, 'k, 'c, 'r) Facade option" where
  "fa_Close env f =
     (case vpn_call env CallDisconnect (Inl errServerNotFound) f of
        None \<Rightarrow> None
      | Some (r, f1) \<Rightarrow>
          map_option (\<lambda>s. f1\<lparr>fc_vpn := s, fc_tunnel := snd (manager_Stop (fe_runner env) (fc_tunnel f1))\<rparr>)
            (tunnel_Stop (fc_vpn f1)))"

section \<open>The dispatcher of the facade\<close>

definition facade_handler :: "('d, 'k, 'c, 'r) FacadeEnv \<Rightarrow> ('d, 'k, 'c, 'r) Facade Handler" where
  "facade_handler env =
     \<lparr>hd_GetVersion = fa_GetVersion, hd_ListServers = fa_ListServers env, hd_GetServer = fa_GetServer env,
      hd_AddServer = fa_AddServer env, hd_UpdateServer = fa_UpdateServer env, hd_DeleteServer = fa_DeleteServer env,
      hd_DuplicateServer = fa_DuplicateServer env, hd_ImportServers = fa_ImportServers env,
      hd_ExportServers = fa_ExportServers env, hd_TestServerLatency = fa_TestServerLatency env, hd_Connect = fa_Connect env,
      hd_Disconnect = fa_Disconnect env, hd_ConnectionState = fa_ConnectionState, hd_GetLogs = fa_GetLogs,
      hd_GetSettings = fa_GetSettings, hd_UpdateSettings = fa_UpdateSettings env, hd_Subscribe = fa_Subscribe,
      hd_Unsubscribe = fa_Unsubscribe\<rparr>"

definition facade_dispatcher :: "('d, 'k, 'c, 'r) FacadeEnv \<Rightarrow> ('d, 'k, 'c, 'r) Facade Dispatcher" where
  "facade_dispatcher env = \<lparr>dp_Handler = facade_handler env, dp_MapError = Some (\<lambda>e. MapError (Some e))\<rparr>"

lemma MapError_codes: "MapError (Some e) = Some er \<Longrightarrow> er_Code er \<in> set error_codes"
  by (cases "err_is e") (auto simp: MapError_def error_codes_def)

lemma facade_contract: "contract_codes (facade_dispatcher env)"
  by (simp add: contract_codes_def facade_dispatcher_def MapError_codes)

end
