(* ===== verification/Facade_Safety.thy ===== *)
theory Facade_Safety
  imports Facade
begin

text \<open>
  The whole core behind its dispatcher: sequences of requests, of background steps of the run loops
  and of registrations of a sink (\<open>facade_run\<close>). The first part shows what every operation leaves
  alone and what it sends (\<open>relays\<close>), the second carries the joint invariant of the VPN service and
  its tunnel through the operations (\<open>sound\<close>), the third shows that a facade that was just opened
  satisfies both.
\<close>

section \<open>What an operation sends\<close>

definition gate :: "('d, 'k, 'c, 'r) Facade \<Rightarrow> bool \<times> bool \<times> string list \<times> bus_sink EventBus" where
  "gate f = (fc_subscribed f, fc_sink f, fc_eventSet f, fc_bus f)"

definition admitted :: "('d, 'k, 'c, 'r) Facade \<Rightarrow> string \<Rightarrow> bool" where
  "admitted f t \<longleftrightarrow> fc_subscribed f \<and> fc_sink f \<and> (fc_eventSet f = [] \<or> t \<in> set (fc_eventSet f))"

definition wired :: "('d, 'k, 'c, 'r) Facade \<Rightarrow> bool" where
  "wired f \<longleftrightarrow> map snd (eb_subs (fc_bus f)) = [FacadeSink]"

definition state_event :: "ConnectionState \<times> VPNSession option \<Rightarrow> Event" where
  "state_event ev = StateChanged \<lparr>sr_State = fst ev, sr_Session = snd ev\<rparr>"

definition is_state :: "Event \<Rightarrow> bool" where
  "is_state e = (case e of StateChanged r \<Rightarrow> True | _ \<Rightarrow> False)"

text \<open>Between two states the transport received events it is subscribed to, and among them the
  changes of the connection state: all of them, in order, when they are admitted.\<close>

definition relays :: "('d, 'k, 'c, 'r) Facade \<Rightarrow> ('d, 'k, 'c, 'r) Facade \<Rightarrow> bool" where
  "relays f f' \<longleftrightarrow> gate f' = gate f \<and>
     (wired f \<longrightarrow> (\<exists>es ns. fc_sent f' = fc_sent f @ es \<and> s_events (fc_vpn f') = s_events (fc_vpn f) @ ns \<and>
        list_all (\<lambda>e. admitted f (event_type e)) es \<and>
        filter is_state es = (if admitted f EventStateChanged then map state_event ns else [])))"

lemma relays_refl: "relays f f"
  by (simp add: relays_def)

lemma gate_admitted: "gate f' = gate f \<Longrightarrow> admitted f' t = admitted f t" "gate f' = gate f \<Longrightarrow> wired f' = wired f"
  by (auto simp: gate_def admitted_def wired_def)

lemma relays_trans:
  assumes "relays f g" "relays g h"
  shows "relays f h"
proof (cases "wired f")
  case True
  have g: "gate g = gate f" "gate h = gate g" using assms by (auto simp: relays_def)
  note a = gate_admitted [OF g(1)]
  obtain es1 ns1 where 1: "fc_sent g = fc_sent f @ es1" "s_events (fc_vpn g) = s_events (fc_vpn f) @ ns1"
    "list_all (\<lambda>e. admitted f (event_type e)) es1"
    "filter is_state es1 = (if admitted f EventStateChanged then map state_event ns1 else [])"
    using assms(1) True by (auto simp: relays_def)
  obtain es2 ns2 where 2: "fc_sent h = fc_sent g @ es2" "s_events (fc_vpn h) = s_events (fc_vpn g) @ ns2"
    "list_all (\<lambda>e. admitted g (event_type e)) es2"
    "filter is_state es2 = (if admitted g EventStateChanged then map state_event ns2 else [])"
    using assms(2) True a(2) by (auto simp: relays_def)
  have "fc_sent h = fc_sent f @ (es1 @ es2)" "s_events (fc_vpn h) = s_events (fc_vpn f) @ (ns1 @ ns2)"
    "list_all (\<lambda>e. admitted f (event_type e)) (es1 @ es2)"
    "filter is_state (es1 @ es2) = (if admitted f EventStateChanged then map state_event (ns1 @ ns2) else [])"
    using 1 2 a(1) by auto
  then have "\<exists>es ns. fc_sent h = fc_sent f @ es \<and> s_events (fc_vpn h) = s_events (fc_vpn f) @ ns \<and>
      list_all (\<lambda>e. admitted f (event_type e)) es \<and>
      filter is_state es = (if admitted f EventStateChanged then map state_event ns else [])" by blast
  then show ?thesis using g by (simp add: relays_def)
qed (use assms in \<open>auto simp: relays_def\<close>)

lemma relays_fold: "(\<And>x g. relays g (h x g)) \<Longrightarrow> relays f (fold h xs f)"
  by (induction xs arbitrary: f) (auto intro: relays_refl relays_trans)

lemma SendEvent_sel [simp]:
  "gate (SendEvent e f) = gate f" "fc_vpn (SendEvent e f) = fc_vpn f" "fc_tunnel (SendEvent e f) = fc_tunnel f"
  "fc_servers (SendEvent e f) = fc_servers f" "fc_config (SendEvent e f) = fc_config f" "fc_store (SendEvent e f) = fc_store f"
  "fc_key (SendEvent e f) = fc_key f" "fc_logger (SendEvent e f) = fc_logger f"
  by (simp_all add: SendEvent_def gate_def Let_def)

lemma SendEvent_sent: "fc_sent (SendEvent e f) = fc_sent f @ (if admitted f (event_type e) then [e] else [])"
  by (auto simp: SendEvent_def admitted_def Let_def)

lemma fold_same: "(\<And>x g. v (h x g) = v g) \<Longrightarrow> v (fold h xs f) = v f"
  by (induction xs arbitrary: f) auto

lemma publish_sel [simp]:
  "gate (publish e f) = gate f" "fc_vpn (publish e f) = fc_vpn f" "fc_tunnel (publish e f) = fc_tunnel f"
  "fc_servers (publish e f) = fc_servers f" "fc_config (publish e f) = fc_config f" "fc_store (publish e f) = fc_store f"
  "fc_key (publish e f) = fc_key f" "fc_logger (publish e f) = fc_logger f"
  by (auto simp: publish_def intro!: fold_same)

lemma publish_sent:
  assumes "wired f"
  shows "fc_sent (publish e f) = fc_sent f @ (if admitted f (event_type e) then [e] else [])"
proof -
  obtain i where "eb_subs (fc_bus f) = [(i, FacadeSink)]" using assms by (auto simp: wired_def)
  then show ?thesis by (simp add: publish_def Publish_def SendEvent_sent)
qed

lemma relays_publish: "\<not> is_state e \<Longrightarrow> relays f (publish e f)"
  by (auto simp: relays_def publish_sent intro!: exI [of _ "[]"])

lemma relays_sink: "relays f (sink_Write w f)"
  by (auto simp: sink_Write_def is_state_def intro: relays_publish relays_refl split: log_sink.split)

lemma relays_same: "\<lbrakk>gate f' = gate f; fc_vpn f' = fc_vpn f; fc_sent f' = fc_sent f\<rbrakk> \<Longrightarrow> relays f f'"
  by (simp add: relays_def)

lemma relays_log: "relays f (log_call now c f)"
proof -
  obtain ws lg where w: "log now (fst c) (fst (snd c)) (snd (snd c)) [] (fc_logger f) = (ws, lg)" by (metis prod.exhaust)
  have "relays (f\<lparr>fc_logger := lg\<rparr>) (fold sink_Write ws (f\<lparr>fc_logger := lg\<rparr>))" by (rule relays_fold) (rule relays_sink)
  moreover have "relays f (f\<lparr>fc_logger := lg\<rparr>)" by (rule relays_same) (simp_all add: gate_def)
  ultimately show ?thesis using w by (auto simp: log_call_def intro: relays_trans)
qed

lemma sink_sel [simp]:
  "fc_vpn (sink_Write w f) = fc_vpn f" "fc_tunnel (sink_Write w f) = fc_tunnel f" "fc_servers (sink_Write w f) = fc_servers f"
  "fc_config (sink_Write w f) = fc_config f" "fc_store (sink_Write w f) = fc_store f" "fc_key (sink_Write w f) = fc_key f"
  "fc_logger (sink_Write w f) = fc_logger f"
  by (auto simp: sink_Write_def split: log_sink.split)

lemmas fold_sink_sel [simp] =
  fold_same [of fc_vpn sink_Write] fold_same [of fc_tunnel sink_Write] fold_same [of fc_servers sink_Write]
  fold_same [of fc_config sink_Write] fold_same [of fc_store sink_Write] fold_same [of fc_key sink_Write]
  fold_same [of fc_logger sink_Write]

lemma log_call_sel [simp]:
  "fc_vpn (log_call now c f) = fc_vpn f" "fc_tunnel (log_call now c f) = fc_tunnel f"
  "fc_servers (log_call now c f) = fc_servers f" "fc_config (log_call now c f) = fc_config f"
  "fc_store (log_call now c f) = fc_store f" "fc_key (log_call now c f) = fc_key f"
  "fc_logger (log_call now c f) = log_line now c (fc_logger f)"
  by (simp_all add: log_call_def log_line_def split: prod.split)

lemma fold_log_sel [simp]:
  "fc_vpn (fold (log_call now) cs f) = fc_vpn f" "fc_tunnel (fold (log_call now) cs f) = fc_tunnel f"
  "fc_servers (fold (log_call now) cs f) = fc_servers f" "fc_config (fold (log_call now) cs f) = fc_config f"
  "fc_store (fold (log_call now) cs f) = fc_store f" "fc_key (fold (log_call now) cs f) = fc_key f"
  by (rule fold_same, simp)+

lemma with_servers_sel [simp]:
  "fc_vpn (snd (with_servers now op f)) = fc_vpn f" "fc_tunnel (snd (with_servers now op f)) = fc_tunnel f"
  "fc_config (snd (with_servers now op f)) = fc_config f" "fc_store (snd (with_servers now op f)) = fc_store f"
  "fc_key (snd (with_servers now op f)) = fc_key f"
  "fst (with_servers now op f) = fst (op ((fc_servers f)\<lparr>sm_logged := []\<rparr>))"
  "fc_servers (snd (with_servers now op f)) = snd (op ((fc_servers f)\<lparr>sm_logged := []\<rparr>))"
  by (simp_all add: with_servers_def Let_def split: prod.split option.split)

lemma relays_servers: "relays f (snd (with_servers now op f))"
proof -
  obtain m lg where w: "snd (with_servers now op f) = fold (log_call now) (sm_logged m) (f\<lparr>fc_servers := m, fc_logger := lg\<rparr>)"
    by (cases "op ((fc_servers f)\<lparr>sm_logged := []\<rparr>)") (simp add: with_servers_def Let_def)
  have "relays (f\<lparr>fc_servers := m, fc_logger := lg\<rparr>) (snd (with_servers now op f))"
    unfolding w by (rule relays_fold) (rule relays_log)
  moreover have "relays f (f\<lparr>fc_servers := m, fc_logger := lg\<rparr>)" by (rule relays_same) (simp_all add: gate_def)
  ultimately show ?thesis by (rule relays_trans [rotated])
qed

section \<open>The steps of the VPN service\<close>

lemma loop_step_events:
  assumes "runLoop_step now i ch s = Some s'"
  shows "\<exists>ns. s_events s' = s_events s @ ns"
  using assms
  by (cases "rs_pc (s_runs s ! i)"; cases ch)
    (auto simp: runLoop_step_def loop_defs tunnel_Stop_def emitState_def split: if_splits option.splits list.splits)

lemma caller_step_events:
  assumes "caller_step now t ch s = Some s'"
  shows "\<exists>ns. s_events s' = s_events s @ ns"
  using assms
  by (cases "s_callers s t"; cases ch)
    (auto simp: caller_step_def await_done_def connect_commit_def caller_go_def emitState_def
      connect_check_def disconnect_read_def reconnect_read_def tunnel_Stop_def sendCmd_def
      forceDisconnect_def
      split: sum.splits if_splits option.splits)

lemma run_events: "vpn_run evs s = Some s' \<Longrightarrow> \<exists>ns. s_events s' = s_events s @ ns"
proof (induction evs s rule: vpn_run.induct)
  case (2 now ev evs s)
  then obtain u where u: "vpn_exec now ev s = Some u" "vpn_run evs u = Some s'" by (auto split: option.splits)
  have "\<exists>ns. s_events u = s_events s @ ns"
    using u(1) loop_step_events caller_step_events
    by (cases ev) (auto simp: vpn_exec_def SetAutoReconnect_def SetRetryPolicy_def)
  then show ?case using 2(1) [OF u] by force
qed simp

lemma publish_states_sel [simp]:
  "gate (publish_states n s f) = gate f" "fc_vpn (publish_states n s f) = fc_vpn f"
  "fc_tunnel (publish_states n s f) = fc_tunnel f" "fc_servers (publish_states n s f) = fc_servers f"
  "fc_config (publish_states n s f) = fc_config f" "fc_store (publish_states n s f) = fc_store f"
  "fc_key (publish_states n s f) = fc_key f" "fc_logger (publish_states n s f) = fc_logger f"
  unfolding publish_states_def by (rule fold_same, simp)+

lemma fold_publish_sent:
  assumes "wired f"
  shows "fc_sent (fold (\<lambda>ev. publish (StateChanged \<lparr>sr_State = fst ev, sr_Session = snd ev\<rparr>)) evs f) =
    fc_sent f @ (if admitted f EventStateChanged then map state_event evs else [])"
  using assms
proof (induction evs arbitrary: f)
  case (Cons ev evs)
  let ?g = "publish (StateChanged \<lparr>sr_State = fst ev, sr_Session = snd ev\<rparr>) f"
  have g: "gate ?g = gate f" by simp
  show ?case
    using Cons.IH [of ?g] gate_admitted [OF g] Cons.prems by (simp add: publish_sent state_event_def)
qed simp

lemma relays_steps:
  assumes "vpn_steps ops evs f = Some f'"
  shows "relays f f'"
proof -
  obtain s m where j: "joint_run ops evs (fc_vpn f, fc_tunnel f) = Some (s, m)"
    "f' = publish_states (length (s_events (fc_vpn f))) s (f\<lparr>fc_vpn := s, fc_tunnel := m\<rparr>)"
    using assms by (auto simp: vpn_steps_def split: option.splits)
  let ?g = "f\<lparr>fc_vpn := s, fc_tunnel := m\<rparr>"
  have g: "gate ?g = gate f" by (simp add: gate_def)
  obtain ns where ns: "s_events s = s_events (fc_vpn f) @ ns" using run_events [OF joint_run_vpn [OF j(1)]] by blast
  have "fc_sent f' = fc_sent f @ (if admitted f EventStateChanged then map state_event ns else [])" if "wired f"
    using fold_publish_sent [of ?g ns] gate_admitted [OF g] that ns j(2) by (simp add: publish_states_def)
  moreover have "list_all (\<lambda>e. admitted f (event_type e)) (map state_event ns)" if "admitted f EventStateChanged"
    using that by (simp add: list_all_iff state_event_def)
  moreover have "filter is_state (map state_event ns) = map state_event ns"
    by (simp add: filter_id_conv is_state_def state_event_def)
  ultimately show ?thesis
    using g j(2) ns unfolding relays_def by (intro conjI impI exI [of _ "if admitted f EventStateChanged then map state_event ns else []"]
      exI [of _ ns]) auto
qed

lemma vpn_call_steps:
  assumes "vpn_call env call resolved f = Some (r, f')"
  shows "vpn_steps (fe_runner env) ((fe_now env, CallEv 0 (Invoke call)) # fe_schedule env) f = Some f'"
    "list_all (\<lambda>p. in_call resolved (snd p)) (fe_schedule env)" "s_callers (fc_vpn f') 0 = C_Return r"
  using assms by (auto simp: vpn_call_def split: if_splits option.splits caller_pc.splits)

section \<open>Every operation\<close>

lemma servers_pair: "with_servers now op f = (r, f') \<Longrightarrow> relays f f'"
  using relays_servers [of f now op] by simp

lemma leads_relays_servers:
  "leads (relays f) (Some (with_servers now op f))" "leads (relays f) (Some (map_prod g id (with_servers now op f)))"
  using servers_pair by (fastforce simp: leads_def map_prod_def split: prod.splits)+

lemma leads_relays_call: "relays f g \<Longrightarrow> leads (relays f) (vpn_answer (vpn_call env call resolved g))"
  using vpn_call_steps(1) relays_steps relays_trans by (fastforce simp: leads_def vpn_answer_def)

lemma relays_chain: "leads (relays g) res \<Longrightarrow> relays f g \<Longrightarrow> leads (relays f) res"
  by (auto simp: leads_def intro: relays_trans)

lemma facade_relays:
  "leads (relays f) (fa_GetVersion f)" "leads (relays f) (fa_ListServers env lq f)" "leads (relays f) (fa_GetServer env sid f)"
  "leads (relays f) (fa_AddServer env p f)" "leads (relays f) (fa_UpdateServer env p f)"
  "leads (relays f) (fa_DeleteServer env sid f)" "leads (relays f) (fa_DuplicateServer env sid f)"
  "leads (relays f) (fa_ImportServers env mq f)" "leads (relays f) (fa_ExportServers env xq f)"
  "leads (relays f) (fa_TestServerLatency env sid f)" "leads (relays f) (fa_Connect env cq f)"
  "leads (relays f) (fa_Disconnect env f)" "leads (relays f) (fa_ConnectionState f)" "leads (relays f) (fa_GetLogs gq f)"
  "leads (relays f) (fa_GetSettings f)" "leads (relays f) (fa_UpdateSettings env sq f)"
proof -
  show "leads (relays f) (fa_GetVersion f)" "leads (relays f) (fa_ConnectionState f)" "leads (relays f) (fa_GetLogs gq f)"
    "leads (relays f) (fa_GetSettings f)"
    by (simp_all add: leads_def fa_GetVersion_def fa_ConnectionState_def fa_GetLogs_def fa_GetSettings_def relays_refl Let_def)
  show "leads (relays f) (fa_ListServers env lq f)"
    by (auto simp: leads_def fa_ListServers_def Let_def intro: relays_trans relays_log servers_pair split: prod.splits option.splits)
  show "leads (relays f) (fa_GetServer env sid f)" by (simp add: fa_GetServer_def leads_relays_servers)
  show "leads (relays f) (fa_AddServer env p f)" "leads (relays f) (fa_DuplicateServer env sid f)"
    "leads (relays f) (fa_ImportServers env mq f)"
    by (auto simp: leads_def fa_AddServer_def fa_DuplicateServer_def fa_ImportServers_def intro: servers_pair split: prod.splits sum.splits)
  show "leads (relays f) (fa_UpdateServer env p f)"
    by (auto simp: leads_def fa_UpdateServer_def relays_refl intro: relays_trans servers_pair split: prod.splits option.splits)
  show "leads (relays f) (fa_DeleteServer env sid f)"
    by (auto simp: leads_def fa_DeleteServer_def relays_refl intro: servers_pair)
  show "leads (relays f) (fa_ExportServers env xq f)"
    unfolding fa_ExportServers_def if_distrib [of Some]
    by (intro leads_intros leads_relays_servers relays_refl)
  show "leads (relays f) (fa_TestServerLatency env sid f)"
  proof -
    have "relays g (publish (LatencyTested sid ms) g)" for g :: "('a, 'b, 'c, 'd) Facade" and ms
      by (rule relays_publish) (simp add: is_state_def)
    then show ?thesis
      by (auto simp: leads_def fa_TestServerLatency_def intro: relays_trans servers_pair split: prod.splits sum.splits)
  qed
  show "leads (relays f) (fa_Connect env cq f)"
    by (auto simp: fa_Connect_def Let_def intro: leads_relays_call servers_pair split: prod.splits)
  show "leads (relays f) (fa_Disconnect env f)" by (simp add: fa_Disconnect_def leads_relays_call relays_refl)
  show "leads (relays f) (fa_UpdateSettings env sq f)"
  proof -
    have "relays f (log_call now c (f\<lparr>fc_config := cfg, fc_store := st\<rparr>)\<lparr>fc_logger := lg, fc_tunnel := m\<rparr>)" for now c cfg st lg m
      using relays_same [of "f\<lparr>fc_config := cfg, fc_store := st\<rparr>" f] relays_log [of "f\<lparr>fc_config := cfg, fc_store := st\<rparr>" now c]
        relays_same [of "log_call now c (f\<lparr>fc_config := cfg, fc_store := st\<rparr>)\<lparr>fc_logger := lg, fc_tunnel := m\<rparr>"
          "log_call now c (f\<lparr>fc_config := cfg, fc_store := st\<rparr>)"]
      by (auto simp: gate_def intro: relays_trans)
    moreover have "relays f (f\<lparr>fc_config := cfg, fc_store := st\<rparr>)" for cfg st
      by (rule relays_same) (simp_all add: gate_def)
    ultimately show ?thesis
      by (auto simp: leads_def fa_UpdateSettings_def Let_def split: prod.splits sum.splits)
  qed
qed

lemma dispatch_relays:
  assumes "meth \<noteq> ''subscribe''" "meth \<noteq> ''unsubscribe''"
  shows "leads (relays f) (dispatch (facade_dispatcher env) meth req f)"
  by (rule dispatch_leads) (use assms in \<open>simp_all add: facade_dispatcher_def facade_handler_def facade_relays relays_refl\<close>)

section \<open>Runs of the core\<close>

datatype facade_step = Request string string | Loops | RegisterSink bool

fun facade_exec ::
  "('d, 'k, 'c, 'r) FacadeEnv \<Rightarrow> facade_step \<Rightarrow> ('d, 'k, 'c, 'r) Facade \<Rightarrow> ('d, 'k, 'c, 'r) Facade option" where
  "facade_exec env (Request meth req) f = map_option snd (dispatch (facade_dispatcher env) meth req f)"
| "facade_exec env Loops f = background env f"
| "facade_exec env (RegisterSink b) f = Some (SetEventSink b f)"

fun facade_run ::
  "(('d, 'k, 'c, 'r) FacadeEnv \<times> facade_step) list \<Rightarrow> ('d, 'k, 'c, 'r) Facade \<Rightarrow> ('d, 'k, 'c, 'r) Facade option" where
  "facade_run [] f = Some f"
| "facade_run ((env, st) # steps) f =
     (case facade_exec env st f of None \<Rightarrow> None | Some f' \<Rightarrow> facade_run steps f')"

lemma facade_run_append: "facade_run (xs @ ys) f = Option.bind (facade_run xs f) (facade_run ys)"
  by (induction xs f rule: facade_run.induct) (auto split: option.splits)

definition changes_gate :: "facade_step \<Rightarrow> bool" where
  "changes_gate st =
     (case st of
        Request meth req \<Rightarrow> meth = ''subscribe'' \<or> meth = ''unsubscribe''
      | Loops \<Rightarrow> False
      | RegisterSink b \<Rightarrow> True)"

lemma exec_relays:
  assumes "facade_exec env st f = Some f'" "\<not> changes_gate st"
  shows "relays f f'"
proof (cases st)
  case (Request meth req)
  then obtain r where "dispatch (facade_dispatcher env) meth req f = Some (r, f')" using assms(1) by auto
  then show ?thesis
    using dispatch_relays [of meth f env req] Request assms(2) by (auto simp: leads_def changes_gate_def)
next
  case Loops
  then show ?thesis using assms(1) relays_steps by (auto simp: background_def split: if_splits)
qed (use assms in \<open>simp add: changes_gate_def\<close>)

lemma run_relays:
  "facade_run steps f = Some f' \<Longrightarrow> list_all (\<lambda>p. \<not> changes_gate (snd p)) steps \<Longrightarrow> relays f f'"
proof (induction steps f rule: facade_run.induct)
  case (2 env st steps f)
  then obtain g where g: "facade_exec env st f = Some g" "facade_run steps g = Some f'" by (auto split: option.splits)
  then have "relays g f'" "relays f g" using 2 exec_relays [OF g(1)] by auto
  then show ?case by (rule relays_trans [rotated])
qed (simp add: relays_refl)

text \<open>The facade stays the one subscriber of the bus.\<close>

lemma exec_wired:
  assumes "facade_exec env st f = Some f'" "wired f"
  shows "wired f'"
proof (cases "changes_gate st")
  case False
  then show ?thesis using exec_relays [OF assms(1)] assms(2) gate_admitted(2) by (auto simp: relays_def)
next
  case True
  then have "fc_bus f' = fc_bus f"
    using assms(1) by (cases st) (auto simp: changes_gate_def dispatch_def with_request_def answer_def SetEventSink_def Let_def
      facade_dispatcher_def facade_handler_def fa_Subscribe_def fa_Unsubscribe_def split: sum.splits)
  then show ?thesis using assms(2) by (simp add: wired_def)
qed

lemma run_wired: "facade_run steps f = Some f' \<Longrightarrow> wired f \<Longrightarrow> wired f'"
  by (induction steps f rule: facade_run.induct) (auto split: option.splits dest: exec_wired)

section \<open>The joint invariant\<close>

definition sound :: "BoxLib \<Rightarrow> ('d, 'k, 'c, Engine) Facade \<Rightarrow> bool" where
  "sound lib f \<longleftrightarrow>
     orderly_reachable (fc_vpn f) \<and> ipr.manager_ok lib (fc_tunnel f) \<and> follows (fc_vpn f) (fc_tunnel f)"

definition in_process :: "BoxLib \<Rightarrow> ('d, 'k, 'c, Engine) FacadeEnv \<Rightarrow> bool" where
  "in_process lib env \<longleftrightarrow> fe_runner env = inproc_ops lib \<and> list_all (\<lambda>p. orderly (snd p)) (fe_schedule env)"

lemma sound_same: "\<lbrakk>sound lib f; fc_vpn f' = fc_vpn f; fc_tunnel f' = fc_tunnel f\<rbrakk> \<Longrightarrow> sound lib f'"
  by (simp add: sound_def)

lemma sound_steps:
  assumes "sound lib f" "list_all (\<lambda>p. orderly (snd p)) evs" "vpn_steps (inproc_ops lib) evs f = Some f'"
  shows "sound lib f'"
proof -
  obtain s m where j: "joint_run (inproc_ops lib) evs (fc_vpn f, fc_tunnel f) = Some (s, m)" "fc_vpn f' = s" "fc_tunnel f' = m"
    using assms(3) by (auto simp: vpn_steps_def split: option.splits)
  then show ?thesis
    using ipr.joint_run_follows [OF _ _ _ assms(2) j(1)] assms(1) by (simp add: sound_def)
qed

lemma sound_call:
  assumes "sound lib f" "in_process lib env"
  shows "leads (sound lib) (vpn_answer (vpn_call env call resolved f))"
proof -
  have "sound lib f'" if "vpn_call env call resolved f = Some (r, f')" for r f'
    using sound_steps [OF assms(1), of "(fe_now env, CallEv 0 (Invoke call)) # fe_schedule env"] vpn_call_steps(1) [OF that] assms(2)
    by (simp add: in_process_def orderly_def)
  then show ?thesis by (auto simp: leads_def vpn_answer_def)
qed

lemma servers_parts:
  "with_servers now op f = (r, f') \<Longrightarrow> fc_vpn f' = fc_vpn f \<and> fc_tunnel f' = fc_tunnel f"
  using with_servers_sel(1,2) [of now op f] by simp

lemma leads_sound_servers:
  "sound lib f \<Longrightarrow> leads (sound lib) (Some (with_servers now op f))"
  "sound lib f \<Longrightarrow> leads (sound lib) (Some (map_prod g id (with_servers now op f)))"
  using servers_parts sound_same by (fastforce simp: leads_def map_prod_def split: prod.splits)+

lemma sound_settings:
  assumes "sound lib f"
  shows "sound lib (g\<lparr>fc_vpn := fc_vpn f, fc_tunnel := SetIPv6Mode md (SetLogLevel lv (fc_tunnel f))\<rparr>)"
  using assms
  by (simp add: sound_def ipr.manager_ok_def follows_def SetIPv6Mode_def SetLogLevel_def Active_def)

lemma facade_sound:
  assumes "sound lib f" "in_process lib env"
  shows "leads (sound lib) (fa_ListServers env lq f)" "leads (sound lib) (fa_GetServer env sid f)"
    "leads (sound lib) (fa_AddServer env p f)" "leads (sound lib) (fa_UpdateServer env p f)"
    "leads (sound lib) (fa_DeleteServer env sid f)" "leads (sound lib) (fa_DuplicateServer env sid f)"
    "leads (sound lib) (fa_ImportServers env mq f)" "leads (sound lib) (fa_ExportServers env xq f)"
    "leads (sound lib) (fa_TestServerLatency env sid f)" "leads (sound lib) (fa_Connect env cq f)"
    "leads (sound lib) (fa_UpdateSettings env sq f)"
proof -
  have w: "sound lib f'" if "with_servers now op f = (r, f')" for now op r f'
    using servers_parts [OF that] sound_same [OF assms(1)] by blast
  have w2: "sound lib f''" if "with_servers now op f = (r, f')" "with_servers now' op' f' = (r', f'')" for now op r f' now' op' r' f''
    using servers_parts [OF that(2)] sound_same [OF w [OF that(1)]] by blast
  show "leads (sound lib) (fa_ListServers env lq f)"
    by (auto simp: leads_def fa_ListServers_def Let_def intro: w sound_same split: prod.splits option.splits)
  show "leads (sound lib) (fa_GetServer env sid f)" by (simp add: fa_GetServer_def leads_sound_servers assms)
  show "leads (sound lib) (fa_AddServer env p f)" "leads (sound lib) (fa_DuplicateServer env sid f)"
    "leads (sound lib) (fa_ImportServers env mq f)"
    by (auto simp: leads_def fa_AddServer_def fa_DuplicateServer_def fa_ImportServers_def intro: w split: prod.splits sum.splits)
  show "leads (sound lib) (fa_UpdateServer env p f)"
    by (auto simp: leads_def fa_UpdateServer_def assms intro: w w2 split: prod.splits option.splits)
  show "leads (sound lib) (fa_DeleteServer env sid f)" by (auto simp: leads_def fa_DeleteServer_def assms intro: w)
  show "leads (sound lib) (fa_ExportServers env xq f)"
    unfolding fa_ExportServers_def if_distrib [of Some] by (intro leads_intros leads_sound_servers assms)
  show "leads (sound lib) (fa_TestServerLatency env sid f)"
    by (auto simp: leads_def fa_TestServerLatency_def intro: w sound_same split: prod.splits sum.splits)
  show "leads (sound lib) (fa_Connect env cq f)"
    by (auto simp: fa_Connect_def Let_def intro!: sound_call assms intro: w split: prod.splits)
  show "leads (sound lib) (fa_UpdateSettings env sq f)"
    using sound_settings [OF assms(1)] sound_same [OF assms(1)]
    by (fastforce simp: leads_def fa_UpdateSettings_def Let_def sound_def split: prod.splits sum.splits)
qed

lemma dispatch_sound:
  assumes "sound lib f" "in_process lib env"
  shows "leads (sound lib) (dispatch (facade_dispatcher env) meth req f)"
proof (rule dispatch_leads)
  show "leads (sound lib) (hd_Subscribe (dp_Handler (facade_dispatcher env)) x f)"
    "leads (sound lib) (hd_Unsubscribe (dp_Handler (facade_dispatcher env)) f)" for x
    using assms(1)
    by (auto simp: leads_def facade_dispatcher_def facade_handler_def fa_Subscribe_def fa_Unsubscribe_def sound_def)
  show "leads (sound lib) (hd_Disconnect (dp_Handler (facade_dispatcher env)) f)"
    using sound_call [OF assms] by (simp add: facade_dispatcher_def facade_handler_def fa_Disconnect_def)
qed (use assms facade_sound [OF assms] in
    \<open>simp_all add: facade_dispatcher_def facade_handler_def leads_def fa_GetVersion_def fa_ConnectionState_def fa_GetLogs_def
      fa_GetSettings_def Let_def\<close>)

lemma exec_sound:
  assumes "sound lib f" "in_process lib env" "facade_exec env st f = Some f'"
  shows "sound lib f'"
proof (cases st)
  case (Request meth req)
  then obtain r where "dispatch (facade_dispatcher env) meth req f = Some (r, f')" using assms(3) by auto
  then show ?thesis using dispatch_sound [OF assms(1,2), of meth req] by (simp add: leads_def)
next
  case Loops
  then show ?thesis
    using assms sound_steps [OF assms(1)] by (auto simp: background_def in_process_def split: if_splits)
next
  case (RegisterSink b)
  then show ?thesis using assms(1,3) by (auto simp: SetEventSink_def sound_def)
qed

lemma run_sound:
  "facade_run steps f = Some f' \<Longrightarrow> sound lib f \<Longrightarrow> list_all (\<lambda>p. in_process lib (fst p)) steps \<Longrightarrow> sound lib f'"
  by (induction steps f rule: facade_run.induct) (auto split: option.splits dest: exec_sound)

definition opens :: "(('d, 'k, 'c, 'r) Facade \<Rightarrow> bool) \<Rightarrow> (goerror + ('d, 'k, 'c, 'r) Facade) option \<Rightarrow> bool" where
  "opens P res \<longleftrightarrow> (\<forall>f. res = Some (Inr f) \<longrightarrow> P f)"

lemma opens_intros:
  shows "opens P None" "opens P (Some (Inl e))" "P f \<Longrightarrow> opens P (Some (Inr f))"
    and "\<lbrakk>opens P a; opens P b\<rbrakk> \<Longrightarrow> opens P (if c then a else b)"
    and "\<lbrakk>opens P a; \<And>x. opens P (g x)\<rbrakk> \<Longrightarrow> opens P (case_option a g ov)"
    and "\<lbrakk>\<And>x. opens P (h x); \<And>x. opens P (k x)\<rbrakk> \<Longrightarrow> opens P (case_sum h k sv)"
    and "(\<And>x y. opens P (l x y)) \<Longrightarrow> opens P (case_prod l pv)"
    and "(\<And>x. opens P (m x)) \<Longrightarrow> opens P (Let lv m)"
  by (simp_all add: opens_def split: option.split sum.split prod.split)

lemma new_wired:
  assumes "fa_New env platform dir level tester rn rnd1 rnd2 db ks s = Some (Inr f)"
  shows "\<exists>lg key cfg s2 repo. f = wire env platform dir level tester rn lg key cfg s2 repo"
proof -
  let ?P = "\<lambda>f. \<exists>lg key cfg s2 repo. f = wire env platform dir level tester rn lg key cfg s2 repo"
  have "opens ?P (fa_New env platform dir level tester rn rnd1 rnd2 db ks s)"
    unfolding fa_New_def by (intro opens_intros) blast+
  then show ?thesis using assms by (simp add: opens_def)
qed

lemma wire_wired: "wired (wire env platform dir level tester rn lg key cfg s2 repo)"
  by (simp add: wired_def wire_def Subscribe_def NewEventBus_def)

lemma wire_sound: "sound lib (wire env platform dir level tester engine_New lg key cfg s2 repo)"
proof -
  have "ipr.manager_ok lib (SetLogLevel level (SetCacheFilePath p (NewManager engine_New)))" for p
    unfolding ipr.manager_ok_def by (simp add: NewManager_def Active_def inproc_ops_def SetLogLevel_def SetCacheFilePath_def
      engine_Running_def engine_New_def engine_ok_def)
  moreover have "follows NewService (SetLogLevel level (SetCacheFilePath p (NewManager engine_New)))" for p
    by (simp add: follows_def NewService_def NewManager_def Active_def SetLogLevel_def SetCacheFilePath_def)
  ultimately show ?thesis by (simp add: sound_def wire_def orderly_reachable.init)
qed

lemma live_running:
  assumes "svc_inv s" "live_state (s_state s)"
  shows "\<exists>sess. session_of s = Some sess \<and> RunningTo (vs_ServerID sess) s"
  using assms
  by (auto simp: svc_inv_def active_run_ok_def session_of_def RunningTo_def Running_def split: option.splits)

end
