(* ===== verification/Facade_Requests.thy ===== *)
theory Facade_Requests
  imports Facade_Safety
begin

text \<open>
  From the JSON text of a request to the operation it reaches: what the decoders read of a printed
  profile and of printed settings, and what adding and fetching a profile do to the facade. The
  properties of the whole core rest on these lemmas.
\<close>

section \<open>Reading a printed request\<close>

lemma decode_printed:
  assumes "json_ok (JObject ms)" "into_object field (JObject ms) zero = Some r"
  shows "decode field zero (json_print (JObject ms)) = Inr r"
proof -
  have "TrimSpace (json_print (JObject ms)) \<noteq> ''''" using print_trim(3) [of ms] by simp
  then show ?thesis using assms json_roundtrip [OF assms(1)] by (simp add: decode_def)
qed

lemma request_keys [simp]: "ToLower ''server'' = ''server''" "ToLower ''id'' = ''id''" "ToLower ''settings'' = ''settings''"
  by code_simp+

lemma decode_server:
  assumes "exportable p"
  shows "decode server_field \<lparr>vq_Server = None\<rparr> (json_print (JObject [(''server'', profile_json p)])) = Inr \<lparr>vq_Server = Some p\<rparr>"
proof (rule decode_printed)
  have "valid_utf8 ''server''" by (simp add: ascii_valid_utf8)
  then show "json_ok (JObject [(''server'', profile_json p)])" using profile_json_ok [OF assms] by simp
  have "printable p" "profile_json p \<noteq> JNull" using assms by (simp_all add: exportable_def profile_json_def)
  then show "into_object server_field (JObject [(''server'', profile_json p)]) \<lparr>vq_Server = None\<rparr> = Some \<lparr>vq_Server = Some p\<rparr>"
    by (simp add: into_object_def [of server_field] server_field_def into_pointer_def profile_roundtrip)
qed

lemma decode_id:
  assumes "valid_utf8 sid"
  shows "decode id_field \<lparr>iq_ID = ''''\<rparr> (json_print (JObject [(''id'', JString sid)])) = Inr \<lparr>iq_ID = sid\<rparr>"
proof (rule decode_printed)
  have "valid_utf8 ''id''" by (simp add: ascii_valid_utf8)
  then show "json_ok (JObject [(''id'', JString sid)])" using assms by simp
  show "into_object id_field (JObject [(''id'', JString sid)]) \<lparr>iq_ID = ''''\<rparr> = Some \<lparr>iq_ID = sid\<rparr>"
    by (simp add: into_object_def id_field_def into_string_def)
qed

lemma decode_settings:
  assumes "settings_ok n"
  shows "decode settings_request_field \<lparr>sq_Settings = zero_settings\<rparr> (json_print (JObject [(''settings'', settings_json n)])) =
    Inr \<lparr>sq_Settings = n\<rparr>"
proof (rule decode_printed)
  have "valid_utf8 ''settings''" by (simp add: ascii_valid_utf8)
  then show "json_ok (JObject [(''settings'', settings_json n)])"
    using doc_json_ok [of "\<lparr>cd_Version = 1, cd_Settings = n\<rparr>"] assms by (simp add: doc_json_def)
  show "into_object settings_request_field (JObject [(''settings'', settings_json n)]) \<lparr>sq_Settings = zero_settings\<rparr> =
      Some \<lparr>sq_Settings = n\<rparr>"
    by (simp add: into_object_def [of settings_request_field] settings_request_field_def settings_roundtrip)
qed

section \<open>Adding and getting\<close>

lemma NewID_utf8: "valid_utf8 (NewID r)"
proof (rule ascii_valid_utf8)
  have "\<forall>n \<in> set [0..<16]. of_char (hex_digit n) < (0x80 :: nat)" by code_simp
  then have d: "of_char (hex_digit n) < (0x80 :: nat)" if "n < 16" for n using that by simp
  have "unat b < 256" for b :: byte using unsigned_less [of b] by simp
  then have "unat b div 16 < 16" for b :: byte by (simp add: less_mult_imp_div_less)
  then have h: "of_char c < (0x80 :: nat)" if "c \<in> set (hex_Encode bs)" for c bs
    using that by (induction bs) (auto simp: hex_Encode_def hex_byte_def intro: d)
  then show "\<forall>c \<in> set (NewID r). of_char c < (0x80 :: nat)" by (auto simp: NewID_def Let_def)
qed

lemma created_id_utf8: "exportable p \<Longrightarrow> valid_utf8 (sp_ID (created rnd t u p))"
  by (simp add: created_def NewID_utf8 exportable_def text_fields_def)

context repository
begin

lemma add_manager:
  assumes "reliable sql sec" "repo_repr sec tbl M (sm_repo m)" "storable p" "Validate p = None" "time_ok now"
  shows "\<exists>m'. AddServer env rnd now now p m = (Inr (sp_ID (created rnd now now p)), m') \<and>
    repo_repr sec tbl (M(sp_ID (created rnd now now p) \<mapsto> created rnd now now p)) (sm_repo m')"
proof -
  obtain st where "repo_step env (OpCreate rnd now now p) (sm_repo m) = (ResID (sp_ID (created rnd now now p)), st)"
    "repo_repr sec tbl (M(sp_ID (created rnd now now p) \<mapsto> created rnd now now p)) st"
    using Create_refines [OF assms(1,2), of rnd now now p] assms(3-5) by (auto simp: Let_def)
  then show ?thesis by (auto simp: AddServer_def infof_def split: prod.splits sum.splits)
qed

lemma get_manager:
  assumes "reliable sql sec" "repo_repr sec tbl M (sm_repo m)" "M k = Some q"
  shows "\<exists>m'. GetServer env k m = (Inr (stored_form q), m') \<and> repo_repr sec tbl M (sm_repo m')"
  using Get_refines [OF assms(1,2), of k] assms(3)
  by (auto simp: GetServer_def Let_def split: prod.splits sum.splits)

end

end
