(* ===== verification/Core_Example.thy ===== *)
theory Core_Example
  imports Facade_Requests
begin

text \<open>
  One run of the whole core: a facade opened over an in-memory table, secret store and configuration
  blob of an older build, whose one profile is migrated; a transport registers its sink, subscribes
  and connects to that profile, and the engine starts.
\<close>

section \<open>Opening\<close>

definition demo_fenv :: "(gotime \<times> event) list \<Rightarrow> (row list, string \<rightharpoonup> string, string, Engine) FacadeEnv" where
  "demo_fenv sched =
     \<lparr>fe_repo = \<lparr>re_sql = table_ops, re_sec = mem_ops, re_order = (\<lambda>xs. xs)\<rparr>, fe_link = Link_Roundtrip.demo_env, fe_store = blob_ops,
      fe_crypto = Config_Engine.demo_env, fe_runner = inproc_ops demo_lib, fe_now = 0, fe_random = [], fe_fresh = (\<lambda>i. ([], 0, 0)),
      fe_schedule = sched\<rparr>"

definition demo_new :: "(goerror + (row list, string \<rightharpoonup> string, string, Engine) Facade) option" where
  "demo_new = fa_New (demo_fenv []) ''linux'' ''/d'' ''info'' (\<lambda>p. Inr 1) engine_New (Inr legacy_key) (Inr legacy_key) (Inr [])
     [DataKeyName \<mapsto> b64_encode StdEncoding legacy_key] legacy_file"

definition demo_tunnel :: "Engine Manager" where
  "demo_tunnel = SetLogLevel ''info'' (SetCacheFilePath ''/d/cache.db'' (NewManager engine_New))"

lemma demo_config:
  "\<exists>cfg. config_New mem_ops (Inr legacy_key) blob_ops Config_Engine.demo_env [DataKeyName \<mapsto> b64_encode StdEncoding legacy_key] legacy_file =
     (Inr (legacy_key, cfg), [DataKeyName \<mapsto> b64_encode StdEncoding legacy_key], legacy_file) \<and>
     as_IPv6Mode (cd_Settings cfg) = ''disable_ipv6''"
proof -
  have v: "valid_key (b64_encode StdEncoding legacy_key) = Some legacy_key" by (simp add: valid_key_def b64_roundtrip)
  then have k: "GetOrCreateDataKey mem_ops (Inr legacy_key) '''' [DataKeyName \<mapsto> b64_encode StdEncoding legacy_key] =
      (Inr legacy_key, [DataKeyName \<mapsto> b64_encode StdEncoding legacy_key])"
    by (simp add: GetOrCreateDataKey_def mem_ops_def mem_Get_def)
  have "Open demo_aead legacy_key legacy_file = Inr legacy_blob"
    by (simp add: Open_def newGCM_def NonceSize_def demo_aead_def)
  moreover obtain j d where j: "json_parse legacy_blob = Some j" "into_object legacy_field j zero_legacy = Some d"
    "as_IPv6Mode (ld_Settings d) = ''disable_ipv6''"
    using legacy_blob_doc unfolding bind_eq_Some_conv by fastforce
  moreover obtain c where "json_doc j = Some c" "cd_Settings c = ld_Settings d" using legacy_is_doc [OF j(2)] by blast
  ultimately show ?thesis
    using k by (simp add: config_New_def load_def decode_doc_def blob_ops_def Config_Engine.demo_env_def Normalize_def ipv6_Valid_def)
qed

lemma demo_migrated:
  "\<exists>st calls. migrate \<lparr>re_sql = table_ops, re_sec = mem_ops, re_order = (\<lambda>xs. xs)\<rparr> (\<lambda>i. ([], 0, 0)) 0 [legacy_profile]
       (SetRedactor red (NewSQLiteServerRepository [] ks), []) = (st, calls) \<and>
     repo_repr mem_ops (\<lambda>d. d) [''a'' \<mapsto> legacy_profile] st"
proof -
  let ?e = "\<lparr>re_sql = table_ops, re_sec = mem_ops, re_order = (\<lambda>xs. xs)\<rparr> :: (row list, string \<rightharpoonup> string) RepoEnv"
  have r: "repository table_ops (\<lambda>d. d) mem_ops ?e"
    using tab.sql_table_axioms memv.secret_vault_axioms by (simp add: repository_def repository_axioms_def)
  have "storable legacy_profile"
    by (simp add: legacy_profile_def zero_profile_def zero_TLS_def storable_def time_ok_def days_before_year_def)
  moreover have "reliable table_ops mem_ops" by (simp add: reliable_def table_ops_def mem_ops_def mem_Set_def)
  moreover have "repo_repr mem_ops (\<lambda>d. d) Map.empty (SetRedactor red (NewSQLiteServerRepository [] ks))"
    by (simp add: repo_repr_def table_ok_def stored_as_def find_row_def SetRedactor_def NewSQLiteServerRepository_def)
  moreover have "Validate legacy_profile = None" by code_simp
  moreover have "created [] 0 0 legacy_profile = legacy_profile" "sp_ID legacy_profile = ''a''"
    by (simp_all add: created_def legacy_profile_def zero_profile_def)
  ultimately show ?thesis
    using repository.migrate_repr [OF r, of Map.empty "SetRedactor red (NewSQLiteServerRepository [] ks)" "[legacy_profile]"
        "\<lambda>i. ([], 0, 0)" 0 "[]"]
    by (auto simp: time_ok_def days_before_year_def Let_def simp del: migrate.simps)
qed

lemma demo_opened:
  "\<exists>f0. demo_new = Some (Inr f0) \<and> fc_vpn f0 = NewService \<and> fc_tunnel f0 = demo_tunnel \<and>
     repo_repr mem_ops (\<lambda>d. d) [''a'' \<mapsto> legacy_profile] (sm_repo (fc_servers f0)) \<and>
     fc_key f0 = legacy_key \<and> as_IPv6Mode (cd_Settings (fc_config f0)) = ''disable_ipv6''"
proof -
  let ?ks = "[DataKeyName \<mapsto> b64_encode StdEncoding legacy_key]"
  obtain ll where l: "LoadLegacyServers mem_ops (Inr legacy_key) blob_ops Config_Engine.demo_env (\<lambda>xs. xs) ?ks legacy_file
      \<lparr>ll_redactor = lg_redactor (NewLogger ConsoleSink ''info'' []), ll_logged = []\<rparr> = Some (Inr [legacy_profile], ?ks, ll)"
    using legacy_loads by blast
  obtain cfg where c: "config_New mem_ops (Inr legacy_key) blob_ops Config_Engine.demo_env ?ks legacy_file = (Inr (legacy_key, cfg), ?ks, legacy_file)"
    "as_IPv6Mode (cd_Settings cfg) = ''disable_ipv6''"
    using demo_config by blast
  obtain st calls where m: "migrate \<lparr>re_sql = table_ops, re_sec = mem_ops, re_order = (\<lambda>xs. xs)\<rparr> (\<lambda>i. ([], 0, 0)) 0 [legacy_profile]
       (SetRedactor (Some (lg_redactor (fold (log_line 0) (ll_logged ll)
          ((NewLogger ConsoleSink ''info'' [])\<lparr>lg_redactor := ll_redactor ll\<rparr>)))) (NewSQLiteServerRepository [] ?ks), []) = (st, calls)"
    "repo_repr mem_ops (\<lambda>d. d) [''a'' \<mapsto> legacy_profile] st"
    using demo_migrated by blast
  then obtain lg where "demo_new = Some (Inr (wire (demo_fenv []) ''linux'' ''/d'' ''info'' (\<lambda>p. Inr 1) engine_New lg legacy_key cfg legacy_file st))"
    using l c(1) by (simp add: demo_new_def fa_New_def demo_fenv_def Let_def del: migrate.simps)
  then show ?thesis using m(2) c(2) by (auto simp: wire_def demo_tunnel_def SetLatencyTester_def manager_New_def)
qed

definition demo_schedule :: "(gotime \<times> event) list" where
  "demo_schedule = map (Pair 7)
     [CallEv 0 (Resolved (Inr legacy_profile)), CallEv 0 Go, CallEv 0 (FreshID ''sess''), LoopEv 0 Step, LoopEv 0 Step,
      LoopEv 0 (StartReturns None True), LoopEv 0 Step, LoopEv 0 Step, LoopEv 0 Step]"

lemma demo_joint:
  "map_option (\<lambda>sm. (s_state (fst sm), s_active (fst sm), s_tunnel (fst sm), s_callers (fst sm) 0 = C_Return None,
       map fst (s_events (fst sm)), map_option vs_ServerID (session_of (fst sm))))
     (joint_run (inproc_ops demo_lib) ((0, CallEv 0 (Invoke (CallConnect ''a'' ''vpn''))) # demo_schedule) (NewService, demo_tunnel)) =
   Some (StateConnected, Some 0, True, True, [StateConnecting, StateConnected], Some ''a'')"
  by code_simp

definition demo_connect :: string where
  "demo_connect = json_print (JObject [(''serverId'', JString ''a''), (''mode'', JString ''vpn'')])"

lemma decode_demo_connect:
  "decode connect_field \<lparr>cq_ServerID = '''', cq_Mode = ''''\<rparr> demo_connect = Inr \<lparr>cq_ServerID = ''a'', cq_Mode = ''vpn''\<rparr>"
  unfolding demo_connect_def
proof (rule decode_printed)
  show "json_ok (JObject [(''serverId'', JString ''a''), (''mode'', JString ''vpn'')])" by (simp add: ascii_valid_utf8)
  have "ToLower ''serverId'' = ''serverid''" "ToLower ''mode'' = ''mode''" by code_simp+
  then show "into_object connect_field (JObject [(''serverId'', JString ''a''), (''mode'', JString ''vpn'')])
      \<lparr>cq_ServerID = '''', cq_Mode = ''''\<rparr> = Some \<lparr>cq_ServerID = ''a'', cq_Mode = ''vpn''\<rparr>"
    by (simp add: into_object_def connect_field_def into_string_def)
qed

lemma demo_resolved:
  assumes "repo_repr mem_ops (\<lambda>d. d) [''a'' \<mapsto> legacy_profile] (sm_repo m)"
  shows "\<exists>m'. Resolve \<lparr>re_sql = table_ops, re_sec = mem_ops, re_order = (\<lambda>xs. xs)\<rparr> ''a'' m = (Inr legacy_profile, m')"
proof -
  let ?e = "\<lparr>re_sql = table_ops, re_sec = mem_ops, re_order = (\<lambda>xs. xs)\<rparr> :: (row list, string \<rightharpoonup> string) RepoEnv"
  have r: "repository table_ops (\<lambda>d. d) mem_ops ?e"
    using tab.sql_table_axioms memv.secret_vault_axioms by (simp add: repository_def repository_axioms_def)
  have "reliable table_ops mem_ops" by (simp add: reliable_def table_ops_def mem_ops_def mem_Set_def)
  then obtain m' where "GetServer ?e ''a'' m = (Inr (stored_form legacy_profile), m')"
    using repository.get_manager [OF r _ assms, of "''a''" legacy_profile] by auto
  moreover have "stored_form legacy_profile = legacy_profile" "sp_Enabled legacy_profile"
    by (simp_all add: stored_form_def legacy_profile_def zero_profile_def whole_second_def)
  ultimately show ?thesis by (simp add: Resolve_def)
qed

definition demo_before :: "((row list, string \<rightharpoonup> string, string, Engine) FacadeEnv \<times> facade_step) list" where
  "demo_before = [(demo_fenv [], RegisterSink True), (demo_fenv [], Request ''subscribe'' '''')]"

definition demo_steps :: "((row list, string \<rightharpoonup> string, string, Engine) FacadeEnv \<times> facade_step) list" where
  "demo_steps = [(demo_fenv demo_schedule, Request ''connect'' demo_connect)]"

lemma demo_call:
  assumes "fc_vpn f = NewService" "fc_tunnel f = demo_tunnel"
  shows "\<exists>f'. vpn_call (demo_fenv demo_schedule) (CallConnect ''a'' ''vpn'') (Inr legacy_profile) f = Some (None, f') \<and>
    s_state (fc_vpn f') = StateConnected \<and> s_active (fc_vpn f') = Some 0 \<and> s_tunnel (fc_vpn f') \<and>
    map fst (s_events (fc_vpn f')) = [StateConnecting, StateConnected] \<and> map_option vs_ServerID (session_of (fc_vpn f')) = Some ''a''"
proof -
  obtain s m where j: "joint_run (inproc_ops demo_lib) ((0, CallEv 0 (Invoke (CallConnect ''a'' ''vpn''))) # demo_schedule) (NewService, demo_tunnel) =
      Some (s, m)" "s_state s = StateConnected" "s_active s = Some 0" "s_tunnel s" "s_callers s 0 = C_Return None"
      "map fst (s_events s) = [StateConnecting, StateConnected]" "map_option vs_ServerID (session_of s) = Some ''a''"
    using demo_joint by auto
  have "list_all (\<lambda>p. in_call (Inr legacy_profile) (snd p)) demo_schedule" by (simp add: demo_schedule_def in_call_def)
  then show ?thesis using j assms by (simp add: vpn_call_def vpn_steps_def demo_fenv_def)
qed

lemma demo_run:
  "\<exists>f0 f1 f. demo_new = Some (Inr f0) \<and> facade_run demo_before f0 = Some f1 \<and> facade_run demo_steps f1 = Some f \<and>
     admitted f1 EventStateChanged \<and> fc_vpn f1 = NewService \<and>
     s_state (fc_vpn f) = StateConnected \<and> s_active (fc_vpn f) = Some 0 \<and> s_tunnel (fc_vpn f) \<and>
     map fst (s_events (fc_vpn f)) = [StateConnecting, StateConnected] \<and> map_option vs_ServerID (session_of (fc_vpn f)) = Some ''a''"
proof -
  obtain f0 where f0: "demo_new = Some (Inr f0)" "fc_vpn f0 = NewService" "fc_tunnel f0 = demo_tunnel"
     "repo_repr mem_ops (\<lambda>d. d) [''a'' \<mapsto> legacy_profile] (sm_repo (fc_servers f0))"
    using demo_opened by (elim exE conjE)
  let ?f1 = "f0\<lparr>fc_sink := True, fc_subscribed := True, fc_eventSet := []\<rparr>"
  have "decode subscribe_field \<lparr>bq_Events = []\<rparr> '''' = Inr \<lparr>bq_Events = []\<rparr>" by (simp add: decode_def TrimSpace_Nil)
  then have 1: "facade_run demo_before f0 = Some ?f1"
    by (simp add: demo_before_def dispatch_def with_request_def answer_def facade_dispatcher_def facade_handler_def fa_Subscribe_def
      SetEventSink_def)
  let ?e = "\<lparr>re_sql = table_ops, re_sec = mem_ops, re_order = (\<lambda>xs. xs)\<rparr> :: (row list, string \<rightharpoonup> string) RepoEnv"
  have "\<exists>m'. Resolve ?e ''a'' ((fc_servers ?f1)\<lparr>sm_logged := []\<rparr>) = (Inr legacy_profile, m')"
    using demo_resolved [of "(fc_servers ?f1)\<lparr>sm_logged := []\<rparr>"] f0(4) by simp
  then obtain f2 where f2: "with_servers 0 (Resolve ?e ''a'') ?f1 = (Inr legacy_profile, f2)"
    using with_servers_sel(6) [of 0 "Resolve ?e ''a''" ?f1] by (metis fst_conv prod.collapse)
  then have v: "fc_vpn f2 = NewService" "fc_tunnel f2 = demo_tunnel" using servers_parts [OF f2] f0 by auto
  obtain f where f: "vpn_call (demo_fenv demo_schedule) (CallConnect ''a'' ''vpn'') (Inr legacy_profile) f2 = Some (None, f)"
    "s_state (fc_vpn f) = StateConnected" "s_active (fc_vpn f) = Some 0" "s_tunnel (fc_vpn f)"
    "map fst (s_events (fc_vpn f)) = [StateConnecting, StateConnected]" "map_option vs_ServerID (session_of (fc_vpn f)) = Some ''a''"
    using demo_call [OF v] by (elim exE conjE)
  have "fe_now (demo_fenv demo_schedule) = 0" "fe_repo (demo_fenv demo_schedule) = ?e" by (simp_all add: demo_fenv_def)
  then have "fa_Connect (demo_fenv demo_schedule) \<lparr>cq_ServerID = ''a'', cq_Mode = ''vpn''\<rparr> ?f1 = Some (Inr (state_response (fc_vpn f)), f)"
    using f(1) f2 by (simp add: fa_Connect_def vpn_answer_def)
  then have "facade_run demo_steps ?f1 = Some f"
    by (simp add: demo_steps_def dispatch_def with_request_def decode_demo_connect answer_def facade_dispatcher_def facade_handler_def)
  moreover have "admitted ?f1 EventStateChanged" "fc_vpn ?f1 = NewService" using f0(2) by (simp_all add: admitted_def)
  ultimately show ?thesis using f0(1) 1 f(2-6) by (intro exI [of _ f0] exI [of _ ?f1] exI [of _ f]) simp
qed

lemma demo_in_process: "list_all (\<lambda>p. in_process demo_lib (fst p)) (demo_before @ demo_steps)"
  by (simp add: demo_before_def demo_steps_def in_process_def demo_fenv_def demo_schedule_def orderly_def)

interpretation blob: config_store blob_ops
  by unfold_locales (simp_all add: blob_ops_def)

lemma demo_settings:
  assumes "settings_ok n" "length (fc_key f) = 32"
  shows "\<exists>r f'. dispatch (facade_dispatcher (demo_fenv [])) ''updateSettings'' (json_print (JObject [(''settings'', settings_json n)])) f =
    Some (r, f') \<and> rp_OK r"
proof -
  have "\<exists>s'. saveLocked blob_ops Config_Engine.demo_env (fc_key f) c s = (None, s')" for c s
    using assms(2) by (simp add: saveLocked_def Let_def Seal_def newGCM_def Config_Engine.demo_env_def blob_ops_def)
  then obtain s' where "saveLocked blob_ops Config_Engine.demo_env (fc_key f) ((fc_config f)\<lparr>cd_Settings := n\<rparr>) (fc_store f) = (None, s')"
    by blast
  then show ?thesis
    using decode_settings [OF assms(1)] Normalize_id [OF assms(1)]
    by (simp add: dispatch_def with_request_def answer_def result_def ok_response_def facade_dispatcher_def facade_handler_def
      fa_UpdateSettings_def UpdateSettings_def Let_def demo_fenv_def)
qed

end
