(* ===== verification/Android_Platform.thy ===== *)
theory Android_Platform
  imports Go_Text
begin

text \<open>
  The Android platform hooks of the engine (\<open>engine/platform.go\<close>, \<open>platform_fd.go\<close>,
  \<open>platform_monitor.go\<close>, \<open>tun_name.go\<close>): the host hands over the file descriptor of the TUN device,
  a function that protects sockets, the physical default interface and the list of interfaces; the
  sing-box library asks for a monitor, initialises the platform with its network manager, registers
  callbacks and opens the interface.

  The network manager, the callbacks and the system calls are parameters. A callback runs while the
  monitor's mutex is held; one that calls the monitor again never returns (\<open>None\<close>).
  The platform's own copy of the network manager, which is written and never read, is left out.
\<close>

unbundle bit_operations_syntax

section \<open>State\<close>

record 'a Interface =
  in_Index :: int
  in_MTU :: int
  in_Name :: string
  in_Flags :: "64 word"
  in_Addresses :: "'a list"

datatype InterfaceType = InterfaceTypeOther

record 'a NetworkInterface =
  ni_Interface :: "'a Interface"
  ni_Type :: InterfaceType

text \<open>What the platform calls of the network manager; \<open>UpdateInterfaces\<close> asks the platform for its
  list.\<close>

record ('a, 'n) NetworkManagerOps =
  nm_UpdateInterfaces :: "'a NetworkInterface list \<Rightarrow> 'n \<Rightarrow> goerror option \<times> 'n"
  nm_ByIndex :: "int \<Rightarrow> 'n \<Rightarrow> 'a Interface option"

record ('a, 'n, 'cb) platformInterfaceMonitor =
  mo_logger :: bool
  mo_networkManager :: "'n option"
  mo_callbacks :: "(nat \<times> 'cb) list"
  mo_next :: nat
  mo_myInterfaces :: "string list"
  mo_defaultInterface :: "'a Interface option"
  mo_logged :: "goerror list"
  mo_notified :: "(nat \<times> 'a Interface option) list"

record ('a, 'n, 'cb) FdTunPlatform =
  fp_fd :: int
  fp_protect :: "(int \<Rightarrow> goerror option) option"
  fp_monitor :: "('a, 'n, 'cb) platformInterfaceMonitor option"
  fp_defaultName :: string
  fp_defaultIndex :: int
  fp_networkInterfaces :: "'a NetworkInterface list"

definition NewFdTunPlatform :: "('a, 'n, 'cb) FdTunPlatform" where
  "NewFdTunPlatform =
     \<lparr>fp_fd = 0, fp_protect = None, fp_monitor = None, fp_defaultName = '''', fp_defaultIndex = 0, fp_networkInterfaces = []\<rparr>"

section \<open>Which hooks are used\<close>

record PlatformHooks =
  UsePlatformAutoDetectInterfaceControl :: bool
  UsePlatformInterface :: bool
  UsePlatformDefaultInterfaceMonitor :: bool
  UsePlatformNetworkInterfaces :: bool
  UnderNetworkExtension :: bool
  NetworkExtensionIncludeAllNetworks :: bool
  UsePlatformConnectionOwnerFinder :: bool
  UsePlatformWIFIMonitor :: bool
  UsePlatformNotification :: bool

definition noopPlatform :: PlatformHooks where
  "noopPlatform =
     \<lparr>UsePlatformAutoDetectInterfaceControl = False, UsePlatformInterface = False, UsePlatformDefaultInterfaceMonitor = False,
      UsePlatformNetworkInterfaces = False, UnderNetworkExtension = False, NetworkExtensionIncludeAllNetworks = False,
      UsePlatformConnectionOwnerFinder = False, UsePlatformWIFIMonitor = False, UsePlatformNotification = False\<rparr>"

definition fd_hooks :: "('a, 'n, 'cb) FdTunPlatform \<Rightarrow> PlatformHooks" where
  "fd_hooks p =
     noopPlatform\<lparr>UsePlatformAutoDetectInterfaceControl := fp_protect p \<noteq> None, UsePlatformInterface := True,
       UsePlatformDefaultInterfaceMonitor := True, UsePlatformNetworkInterfaces := True\<rparr>"

section \<open>The monitor\<close>

definition newPlatformInterfaceMonitor :: "('a, 'n, 'cb) platformInterfaceMonitor" where
  "newPlatformInterfaceMonitor =
     \<lparr>mo_logger = False, mo_networkManager = None, mo_callbacks = [], mo_next = 0, mo_myInterfaces = [],
      mo_defaultInterface = None, mo_logged = [], mo_notified = []\<rparr>"

definition setLogger :: "bool \<Rightarrow> ('a, 'n, 'cb) platformInterfaceMonitor \<Rightarrow> ('a, 'n, 'cb) platformInterfaceMonitor" where
  "setLogger logger m = m\<lparr>mo_logger := logger\<rparr>"

definition setNetworkManager :: "'n \<Rightarrow> ('a, 'n, 'cb) platformInterfaceMonitor \<Rightarrow> ('a, 'n, 'cb) platformInterfaceMonitor" where
  "setNetworkManager n m = m\<lparr>mo_networkManager := Some n\<rparr>"

definition refreshInterfaces ::
  "('a, 'n) NetworkManagerOps \<Rightarrow> 'a NetworkInterface list \<Rightarrow> ('a, 'n, 'cb) platformInterfaceMonitor \<Rightarrow> ('a, 'n, 'cb) platformInterfaceMonitor" where
  "refreshInterfaces ops served m =
     (case mo_networkManager m of
        None \<Rightarrow> m
      | Some n \<Rightarrow>
          (case nm_UpdateInterfaces ops served n of
             (None, n') \<Rightarrow> m\<lparr>mo_networkManager := Some n'\<rparr>
           | (Some e, n') \<Rightarrow>
               m\<lparr>mo_networkManager := Some n', mo_logged := mo_logged m @ (if mo_logger m then [wrap ''update interfaces: '' e] else [])\<rparr>))"

definition monitor_Start ::
  "('a, 'n) NetworkManagerOps \<Rightarrow> 'a NetworkInterface list \<Rightarrow> ('a, 'n, 'cb) platformInterfaceMonitor \<Rightarrow> ('a, 'n, 'cb) platformInterfaceMonitor" where
  "monitor_Start ops served m = refreshInterfaces ops served m"

definition newInterface ::
  "('a, 'n) NetworkManagerOps \<Rightarrow> string \<Rightarrow> int \<Rightarrow> ('a, 'n, 'cb) platformInterfaceMonitor \<Rightarrow> 'a Interface option" where
  "newInterface ops name idx m =
     (if name \<noteq> '''' \<and> 0 \<le> idx then
        (case Option.bind (mo_networkManager m) (nm_ByIndex ops idx) of
           Some i \<Rightarrow> Some i
         | None \<Rightarrow> Some \<lparr>in_Index = idx, in_MTU = 0, in_Name = name, in_Flags = 0, in_Addresses = []\<rparr>)
      else None)"

definition same_interface :: "'a Interface option \<Rightarrow> 'a Interface option \<Rightarrow> bool" where
  "same_interface old new =
     (case (old, new) of (Some a, Some b) \<Rightarrow> in_Index a = in_Index b \<and> in_Name a = in_Name b | _ \<Rightarrow> False)"

definition monitor_UpdateDefaultInterface ::
  "('a, 'n) NetworkManagerOps \<Rightarrow> ('cb \<Rightarrow> bool) \<Rightarrow> 'a NetworkInterface list \<Rightarrow> string \<Rightarrow> int \<Rightarrow>
   ('a, 'n, 'cb) platformInterfaceMonitor \<Rightarrow> ('a, 'n, 'cb) platformInterfaceMonitor option" where
  "monitor_UpdateDefaultInterface ops reenters served name idx m =
     (let m1 = refreshInterfaces ops served m; new = newInterface ops name idx m1
      in if same_interface (mo_defaultInterface m1) new then Some m1
         else if list_ex (\<lambda>c. reenters (snd c)) (mo_callbacks m1) then None
         else Some (m1\<lparr>mo_defaultInterface := new, mo_notified := mo_notified m1 @ map (\<lambda>c. (fst c, new)) (mo_callbacks m1)\<rparr>))"

definition RegisterCallback :: "'cb \<Rightarrow> ('a, 'n, 'cb) platformInterfaceMonitor \<Rightarrow> nat \<times> ('a, 'n, 'cb) platformInterfaceMonitor" where
  "RegisterCallback cb m = (mo_next m, m\<lparr>mo_callbacks := mo_callbacks m @ [(mo_next m, cb)], mo_next := Suc (mo_next m)\<rparr>)"

definition UnregisterCallback :: "nat \<Rightarrow> ('a, 'n, 'cb) platformInterfaceMonitor \<Rightarrow> ('a, 'n, 'cb) platformInterfaceMonitor" where
  "UnregisterCallback element m = m\<lparr>mo_callbacks := filter (\<lambda>c. fst c \<noteq> element) (mo_callbacks m)\<rparr>"

definition RegisterMyInterface :: "string \<Rightarrow> ('a, 'n, 'cb) platformInterfaceMonitor \<Rightarrow> ('a, 'n, 'cb) platformInterfaceMonitor" where
  "RegisterMyInterface name m =
     (if name \<in> set (mo_myInterfaces m) then m else m\<lparr>mo_myInterfaces := mo_myInterfaces m @ [name]\<rparr>)"

section \<open>The platform\<close>

definition SetFd :: "int \<Rightarrow> ('a, 'n, 'cb) FdTunPlatform \<Rightarrow> ('a, 'n, 'cb) FdTunPlatform" where
  "SetFd fd p = p\<lparr>fp_fd := fd\<rparr>"

definition SetProtectFunc :: "(int \<Rightarrow> goerror option) option \<Rightarrow> ('a, 'n, 'cb) FdTunPlatform \<Rightarrow> ('a, 'n, 'cb) FdTunPlatform" where
  "SetProtectFunc protect p = p\<lparr>fp_protect := protect\<rparr>"

definition AutoDetectInterfaceControl :: "int \<Rightarrow> ('a, 'n, 'cb) FdTunPlatform \<Rightarrow> goerror option" where
  "AutoDetectInterfaceControl fd p =
     (case fp_protect p of None \<Rightarrow> Some (plain_error ''engine: android socket protector not set'') | Some protect \<Rightarrow> protect fd)"

definition CreateDefaultInterfaceMonitor :: "bool \<Rightarrow> ('a, 'n, 'cb) FdTunPlatform \<Rightarrow> ('a, 'n, 'cb) FdTunPlatform" where
  "CreateDefaultInterfaceMonitor logger p = p\<lparr>fp_monitor := Some (setLogger logger newPlatformInterfaceMonitor)\<rparr>"

definition NetworkInterfaces :: "('a, 'n, 'cb) FdTunPlatform \<Rightarrow> 'a NetworkInterface list" where
  "NetworkInterfaces p = fp_networkInterfaces p"

definition SetNetworkInterfaces ::
  "('a, 'n) NetworkManagerOps \<Rightarrow> 'a NetworkInterface list \<Rightarrow> ('a, 'n, 'cb) FdTunPlatform \<Rightarrow> ('a, 'n, 'cb) FdTunPlatform" where
  "SetNetworkInterfaces ops interfaces p =
     (let p1 = p\<lparr>fp_networkInterfaces := interfaces\<rparr>
      in case fp_monitor p1 of
           None \<Rightarrow> p1
         | Some m \<Rightarrow> p1\<lparr>fp_monitor := Some (refreshInterfaces ops (NetworkInterfaces p1) m)\<rparr>)"

definition platform_UpdateDefaultInterface ::
  "('a, 'n) NetworkManagerOps \<Rightarrow> ('cb \<Rightarrow> bool) \<Rightarrow> string \<Rightarrow> int \<Rightarrow> ('a, 'n, 'cb) FdTunPlatform \<Rightarrow> ('a, 'n, 'cb) FdTunPlatform option" where
  "platform_UpdateDefaultInterface ops reenters name idx p =
     (let p1 = p\<lparr>fp_defaultName := name, fp_defaultIndex := idx\<rparr>
      in case fp_monitor p1 of
           None \<Rightarrow> Some p1
         | Some m \<Rightarrow>
             map_option (\<lambda>m'. p1\<lparr>fp_monitor := Some m'\<rparr>)
               (monitor_UpdateDefaultInterface ops reenters (NetworkInterfaces p1) name idx m))"

definition Initialize ::
  "('a, 'n) NetworkManagerOps \<Rightarrow> ('cb \<Rightarrow> bool) \<Rightarrow> 'n \<Rightarrow> ('a, 'n, 'cb) FdTunPlatform \<Rightarrow> ('a, 'n, 'cb) FdTunPlatform option" where
  "Initialize ops reenters n p =
     (case fp_monitor p of
        None \<Rightarrow> Some p
      | Some m \<Rightarrow>
          (let m1 = setNetworkManager n m
           in map_option (\<lambda>m'. p\<lparr>fp_monitor := Some m'\<rparr>)
                (if fp_defaultName p \<noteq> '''' then
                   monitor_UpdateDefaultInterface ops reenters (NetworkInterfaces p) (fp_defaultName p) (fp_defaultIndex p) m1
                 else Some m1)))"

section \<open>Opening the interface\<close>

record tun_Options =
  to_Name :: string
  to_FileDescriptor :: int
  to_InterfaceMonitor :: bool

text \<open>The \<open>TUNGETIFF\<close> call fills a buffer or fails; the name ends at its first zero byte.\<close>

definition tunName :: "(int \<Rightarrow> goerror + string) \<Rightarrow> int \<Rightarrow> goerror + string" where
  "tunName ioctl fd =
     (case ioctl fd of
        Inl errno \<Rightarrow> Inl (wrap ''engine: get tun name: '' errno)
      | Inr ifr \<Rightarrow> Inr (takeWhile (\<lambda>c. c \<noteq> CHR 0x00) ifr))"

definition OpenInterface ::
  "(int \<Rightarrow> goerror + string) \<Rightarrow> (int \<Rightarrow> goerror + int) \<Rightarrow> (tun_Options \<Rightarrow> goerror + 't) \<Rightarrow> tun_Options \<Rightarrow>
   ('a, 'n, 'cb) FdTunPlatform \<Rightarrow> (goerror + 't) \<times> ('a, 'n, 'cb) FdTunPlatform" where
  "OpenInterface ioctl dup tun_New options p =
     (if fp_fd p \<le> 0 then (Inl (plain_error ''engine: android tun fd not set''), p)
      else (case tunName ioctl (fp_fd p) of
              Inl e \<Rightarrow> (Inl e, p)
            | Inr name \<Rightarrow>
                (let options1 = options\<lparr>to_Name := name\<rparr>;
                     p1 = (if to_InterfaceMonitor options then p\<lparr>fp_monitor := map_option (RegisterMyInterface name) (fp_monitor p)\<rparr> else p)
                 in case dup (fp_fd p) of
                      Inl e \<Rightarrow> (Inl e, p1)
                    | Inr dupFd \<Rightarrow> (tun_New (options1\<lparr>to_FileDescriptor := dupFd\<rparr>), p1))))"

section \<open>Runs\<close>

datatype ('a, 'n, 'cb) plat_event =
    HostFd int
  | HostProtect "(int \<Rightarrow> goerror option) option"
  | HostDefault string int
  | HostInterfaces "'a NetworkInterface list"
  | BoxMonitor bool
  | BoxInitialize 'n
  | BoxStart
  | BoxRegister 'cb
  | BoxUnregister nat
  | BoxMyInterface string

fun plat_step ::
  "('a, 'n) NetworkManagerOps \<Rightarrow> ('cb \<Rightarrow> bool) \<Rightarrow> ('a, 'n, 'cb) plat_event \<Rightarrow> ('a, 'n, 'cb) FdTunPlatform \<Rightarrow> ('a, 'n, 'cb) FdTunPlatform option" where
  "plat_step ops re (HostFd fd) p = Some (SetFd fd p)"
| "plat_step ops re (HostProtect f) p = Some (SetProtectFunc f p)"
| "plat_step ops re (HostDefault name idx) p = platform_UpdateDefaultInterface ops re name idx p"
| "plat_step ops re (HostInterfaces l) p = Some (SetNetworkInterfaces ops l p)"
| "plat_step ops re (BoxMonitor lg) p = Some (CreateDefaultInterfaceMonitor lg p)"
| "plat_step ops re (BoxInitialize n) p = Initialize ops re n p"
| "plat_step ops re BoxStart p = Some (p\<lparr>fp_monitor := map_option (monitor_Start ops (NetworkInterfaces p)) (fp_monitor p)\<rparr>)"
| "plat_step ops re (BoxRegister cb) p = Some (p\<lparr>fp_monitor := map_option (\<lambda>m. snd (RegisterCallback cb m)) (fp_monitor p)\<rparr>)"
| "plat_step ops re (BoxUnregister e) p = Some (p\<lparr>fp_monitor := map_option (UnregisterCallback e) (fp_monitor p)\<rparr>)"
| "plat_step ops re (BoxMyInterface name) p = Some (p\<lparr>fp_monitor := map_option (RegisterMyInterface name) (fp_monitor p)\<rparr>)"

fun plat_run ::
  "('a, 'n) NetworkManagerOps \<Rightarrow> ('cb \<Rightarrow> bool) \<Rightarrow> ('a, 'n, 'cb) plat_event list \<Rightarrow> ('a, 'n, 'cb) FdTunPlatform \<Rightarrow> ('a, 'n, 'cb) FdTunPlatform option" where
  "plat_run ops re [] p = Some p"
| "plat_run ops re (e # es) p = Option.bind (plat_step ops re e p) (plat_run ops re es)"

lemma plat_run_append: "plat_run ops re (es @ es') p = Option.bind (plat_run ops re es p) (plat_run ops re es')"
  by (induction es arbitrary: p) (simp_all split: bind_split)

text \<open>What the host pushed last.\<close>

fun pushed_default :: "string \<times> int \<Rightarrow> ('a, 'n, 'cb) plat_event \<Rightarrow> string \<times> int" where
  "pushed_default d (HostDefault name idx) = (name, idx)"
| "pushed_default d e = d"

fun pushed_interfaces :: "'a NetworkInterface list \<Rightarrow> ('a, 'n, 'cb) plat_event \<Rightarrow> 'a NetworkInterface list" where
  "pushed_interfaces l (HostInterfaces l') = l'"
| "pushed_interfaces l e = l"

definition target :: "string \<times> int \<Rightarrow> int option" where
  "target d = (if fst d \<noteq> '''' \<and> 0 \<le> snd d then Some (snd d) else None)"

definition lawful_manager :: "('a, 'n) NetworkManagerOps \<Rightarrow> ('n \<Rightarrow> 'a NetworkInterface list) \<Rightarrow> bool" where
  "lawful_manager ops held \<longleftrightarrow>
     (\<forall>l n. fst (nm_UpdateInterfaces ops l n) = None \<and> held (snd (nm_UpdateInterfaces ops l n)) = l) \<and>
     (\<forall>i n x. nm_ByIndex ops i n = Some x \<longrightarrow> in_Index x = i)"

definition tracked :: "('a, 'n, 'cb) FdTunPlatform \<Rightarrow> bool" where
  "tracked p \<longleftrightarrow>
     (case fp_monitor p of
        None \<Rightarrow> True
      | Some m \<Rightarrow>
          map_option in_Index (mo_defaultInterface m) = target (fp_defaultName p, fp_defaultIndex p) \<or>
          mo_networkManager m = None \<and> mo_defaultInterface m = None)"

lemma refresh_sel [simp]:
  "mo_defaultInterface (refreshInterfaces ops l m) = mo_defaultInterface m"
  "mo_callbacks (refreshInterfaces ops l m) = mo_callbacks m"
  "mo_notified (refreshInterfaces ops l m) = mo_notified m"
  "mo_next (refreshInterfaces ops l m) = mo_next m"
  "mo_networkManager (refreshInterfaces ops l m) = None \<longleftrightarrow> mo_networkManager m = None"
  by (auto simp: refreshInterfaces_def split: option.splits prod.splits)

lemma refresh_held:
  "lawful_manager ops held \<Longrightarrow> map_option held (mo_networkManager (refreshInterfaces ops l m)) = map_option (\<lambda>_. l) (mo_networkManager m)"
  by (auto simp: refreshInterfaces_def lawful_manager_def split: option.splits prod.splits) (metis fst_conv snd_conv option.distinct(1))+

lemma newInterface_index:
  "lawful_manager ops held \<Longrightarrow> map_option in_Index (newInterface ops name idx m) = target (name, idx)"
  by (auto simp: newInterface_def target_def lawful_manager_def split: option.splits bind_splits)

lemma update_index:
  assumes "lawful_manager ops held" "monitor_UpdateDefaultInterface ops re l name idx m = Some m'"
  shows "map_option in_Index (mo_defaultInterface m') = target (name, idx)"
    and "mo_networkManager m' = mo_networkManager (refreshInterfaces ops l m)"
  using assms(2) newInterface_index [OF assms(1), of name idx "refreshInterfaces ops l m"]
  by (auto simp: monitor_UpdateDefaultInterface_def Let_def same_interface_def split: if_splits option.splits)

lemma step_pushed:
  assumes "plat_step ops re e p = Some p'"
  shows "(fp_defaultName p', fp_defaultIndex p') = pushed_default (fp_defaultName p, fp_defaultIndex p) e"
    and "fp_networkInterfaces p' = pushed_interfaces (fp_networkInterfaces p) e"
  using assms
  by (cases e; auto simp: SetFd_def SetProtectFunc_def platform_UpdateDefaultInterface_def SetNetworkInterfaces_def
      CreateDefaultInterfaceMonitor_def Initialize_def Let_def split: option.splits if_splits)+

lemma step_tracked:
  assumes "lawful_manager ops held" "plat_step ops re e p = Some p'" "tracked p"
  shows "tracked p'"
proof (cases "fp_monitor p")
  case None
  then show ?thesis using assms(2)
    by (cases e) (auto simp: tracked_def SetFd_def SetProtectFunc_def platform_UpdateDefaultInterface_def SetNetworkInterfaces_def
        CreateDefaultInterfaceMonitor_def Initialize_def newPlatformInterfaceMonitor_def setLogger_def Let_def)
next
  case (Some m)
  show ?thesis
  proof (cases e)
    case (HostDefault name idx)
    then obtain m' where "monitor_UpdateDefaultInterface ops re (fp_networkInterfaces p) name idx m = Some m'"
      "p' = p\<lparr>fp_defaultName := name, fp_defaultIndex := idx, fp_monitor := Some m'\<rparr>"
      using assms(2) Some by (auto simp: platform_UpdateDefaultInterface_def Let_def NetworkInterfaces_def)
    then show ?thesis using update_index(1) [OF assms(1), of re _ name idx m m'] by (simp add: tracked_def)
  next
    case (BoxInitialize n)
    then show ?thesis using assms(2,3) Some
      by (auto simp: tracked_def Initialize_def Let_def setNetworkManager_def target_def dest: update_index(1) [OF assms(1)] split: if_splits)
  qed (use assms(2,3) Some in \<open>auto simp: tracked_def SetFd_def SetProtectFunc_def SetNetworkInterfaces_def monitor_Start_def
      CreateDefaultInterfaceMonitor_def newPlatformInterfaceMonitor_def setLogger_def RegisterCallback_def UnregisterCallback_def
      RegisterMyInterface_def Let_def\<close>)
qed

lemma run_pushed:
  assumes "plat_run ops re es p = Some p'"
  shows "(fp_defaultName p', fp_defaultIndex p') = foldl pushed_default (fp_defaultName p, fp_defaultIndex p) es"
    and "fp_networkInterfaces p' = foldl pushed_interfaces (fp_networkInterfaces p) es"
  using assms by (induction es arbitrary: p) (auto simp: bind_eq_Some_conv dest: step_pushed)

lemma run_tracked:
  assumes "lawful_manager ops held" "plat_run ops re es p = Some p'" "tracked p"
  shows "tracked p'"
  using assms(2,3) by (induction es arbitrary: p) (auto simp: bind_eq_Some_conv dest: step_tracked [OF assms(1)])

definition current :: "('n \<Rightarrow> 'a NetworkInterface list) \<Rightarrow> ('a, 'n, 'cb) FdTunPlatform \<Rightarrow> bool" where
  "current held p \<longleftrightarrow> (\<forall>m n. fp_monitor p = Some m \<longrightarrow> mo_networkManager m = Some n \<longrightarrow> held n = fp_networkInterfaces p)"

lemma refresh_current:
  "lawful_manager ops held \<Longrightarrow> mo_networkManager (refreshInterfaces ops l m) = Some n \<Longrightarrow> held n = l"
  using refresh_held [of ops held l m] by (cases "mo_networkManager m") auto

lemma step_current:
  assumes "lawful_manager ops held" "plat_step ops re e p = Some p'" "current held p" "\<And>n. e \<noteq> BoxInitialize n"
  shows "current held p'"
proof (cases e)
  case (HostDefault name idx)
  then show ?thesis using assms(1-3)
    by (auto simp: current_def platform_UpdateDefaultInterface_def Let_def NetworkInterfaces_def update_index(2) refresh_current
        split: option.splits)
qed (use assms in \<open>auto simp: current_def SetFd_def SetProtectFunc_def SetNetworkInterfaces_def monitor_Start_def NetworkInterfaces_def
      CreateDefaultInterfaceMonitor_def newPlatformInterfaceMonitor_def setLogger_def RegisterCallback_def UnregisterCallback_def
      RegisterMyInterface_def Let_def refresh_current split: option.splits if_splits\<close>)

lemma run_current:
  assumes "lawful_manager ops held" "plat_run ops re es p = Some p'" "current held p" "list_all (\<lambda>e. \<forall>n. e \<noteq> BoxInitialize n) es"
  shows "current held p'"
  using assms(2-4) by (induction es arbitrary: p) (auto simp: bind_eq_Some_conv dest: step_current [OF assms(1)])


definition list_manager :: "(unit, unit NetworkInterface list) NetworkManagerOps" where
  "list_manager =
     \<lparr>nm_UpdateInterfaces = (\<lambda>l n. (None, l)), nm_ByIndex = (\<lambda>i n. find (\<lambda>x. in_Index x = i) (map ni_Interface n))\<rparr>"

definition wlan :: "unit NetworkInterface" where
  "wlan = \<lparr>ni_Interface = \<lparr>in_Index = 3, in_MTU = 1500, in_Name = ''wlan0'', in_Flags = 1 OR 32, in_Addresses = []\<rparr>, ni_Type = InterfaceTypeOther\<rparr>"


section \<open>Callbacks\<close>

definition seen :: "nat \<Rightarrow> nat \<Rightarrow> ('a, 'n, 'cb) platformInterfaceMonitor \<Rightarrow> 'a Interface option list" where
  "seen e k m = map snd (filter (\<lambda>x. fst x = e) (drop k (mo_notified m)))"

definition follows_default :: "nat \<Rightarrow> nat \<Rightarrow> 'a Interface option \<Rightarrow> ('a, 'n, 'cb) platformInterfaceMonitor \<Rightarrow> bool" where
  "follows_default e k d m \<longleftrightarrow>
     e \<in> fst ` set (mo_callbacks m) \<and> k \<le> length (mo_notified m) \<and> mo_defaultInterface m = last (d # seen e k m)"

lemma last_told:
  assumes "e \<in> fst ` set xs"
  shows "last (d # ys @ map snd (filter (\<lambda>x. fst x = e) (map (\<lambda>c. (fst c, v)) xs))) = v"
proof -
  have "map snd (filter (\<lambda>x. fst x = e) (map (\<lambda>c. (fst c, v)) xs)) = replicate (length (filter (\<lambda>c. fst c = e) xs)) v"
    by (induction xs) auto
  moreover have "length (filter (\<lambda>c. fst c = e) xs) \<noteq> 0" using assms by (auto simp: filter_empty_conv)
  ultimately show ?thesis by (simp add: last_append)
qed

lemma refresh_follows: "follows_default e k d m \<Longrightarrow> follows_default e k d (refreshInterfaces ops l m)"
  by (simp add: follows_default_def seen_def)

lemma box_follows:
  assumes "follows_default e k d m"
  shows "follows_default e k d (setNetworkManager n m)" "follows_default e k d (snd (RegisterCallback cb m))"
    and "follows_default e k d (RegisterMyInterface name m)" "e' \<noteq> e \<Longrightarrow> follows_default e k d (UnregisterCallback e' m)"
  using assms
  by (auto simp: follows_default_def seen_def setNetworkManager_def RegisterCallback_def RegisterMyInterface_def UnregisterCallback_def
      simp del: last.simps)

lemma update_follows:
  assumes "monitor_UpdateDefaultInterface ops re l name idx m = Some m'" "follows_default e k d m"
  shows "follows_default e k d m'"
proof -
  let ?new = "newInterface ops name idx (refreshInterfaces ops l m)"
  show ?thesis
  proof (cases "same_interface (mo_defaultInterface m) ?new")
    case True
    then have "m' = refreshInterfaces ops l m" using assms(1) by (simp add: monitor_UpdateDefaultInterface_def Let_def)
    then show ?thesis using assms(2) refresh_follows by simp
  next
    case False
    then have "mo_defaultInterface m' = ?new" "mo_callbacks m' = mo_callbacks m"
      "mo_notified m' = mo_notified m @ map (\<lambda>c. (fst c, ?new)) (mo_callbacks m)"
      using assms(1) by (auto simp: monitor_UpdateDefaultInterface_def Let_def split: if_splits)
    then show ?thesis using assms(2) last_told [of e "mo_callbacks m" d "seen e k m" ?new]
      by (simp add: follows_default_def seen_def del: last.simps)
  qed
qed


lemma step_follows:
  assumes "plat_step ops re ev p = Some p'" "\<exists>m. fp_monitor p = Some m \<and> follows_default e k d m"
    and "ev \<noteq> BoxUnregister e" "\<And>lg. ev \<noteq> BoxMonitor lg"
  shows "\<exists>m. fp_monitor p' = Some m \<and> follows_default e k d m"
proof -
  obtain m where m: "fp_monitor p = Some m" "follows_default e k d m" using assms(2) by blast
  show ?thesis
    using assms(1,3,4) m
    by (cases ev)
       (auto simp: SetFd_def SetProtectFunc_def platform_UpdateDefaultInterface_def SetNetworkInterfaces_def Initialize_def
         monitor_Start_def Let_def refresh_follows box_follows split: if_splits
         intro: update_follows update_follows [OF _ box_follows(1)])
qed

lemma run_follows:
  assumes "plat_run ops re es p = Some p'" "\<exists>m. fp_monitor p = Some m \<and> follows_default e k d m"
    and "list_all (\<lambda>ev. ev \<noteq> BoxUnregister e \<and> (\<forall>lg. ev \<noteq> BoxMonitor lg)) es"
  shows "\<exists>m. fp_monitor p' = Some m \<and> follows_default e k d m"
  using assms
proof (induction es arbitrary: p)
  case (Cons ev es)
  then obtain p1 where p1: "plat_step ops re ev p = Some p1" "plat_run ops re es p1 = Some p'" by (auto simp: bind_eq_Some_conv)
  have "\<exists>m. fp_monitor p1 = Some m \<and> follows_default e k d m" by (rule step_follows [OF p1(1) Cons.prems(2)]) (use Cons.prems(3) in auto)
  then show ?case using Cons.IH [OF p1(2)] Cons.prems(3) by auto
qed simp

text \<open>A registered callback knows the default interface. From the registration of a callback until it
  is unregistered or the monitor is replaced, the monitor's default interface is the one the callback
  was told last, or, when it was not told any, the one at its registration.\<close>

theorem callback_knows_default:
  assumes "fp_monitor p = Some m" "plat_run ops re (BoxRegister cb # after) p = Some p'"
    and "list_all (\<lambda>ev. ev \<noteq> BoxUnregister (fst (RegisterCallback cb m)) \<and> (\<forall>lg. ev \<noteq> BoxMonitor lg)) after"
  shows "\<exists>m'. fp_monitor p' = Some m' \<and>
    mo_defaultInterface m' = last (mo_defaultInterface m # seen (fst (RegisterCallback cb m)) (length (mo_notified m)) m')"
proof -
  let ?e = "fst (RegisterCallback cb m)"
  let ?p = "p\<lparr>fp_monitor := Some (snd (RegisterCallback cb m))\<rparr>"
  have "follows_default ?e (length (mo_notified m)) (mo_defaultInterface m) (snd (RegisterCallback cb m))"
    by (simp add: follows_default_def seen_def RegisterCallback_def)
  moreover have "plat_run ops re after ?p = Some p'" using assms(1,2) by simp
  ultimately obtain m' where "fp_monitor p' = Some m'" "follows_default ?e (length (mo_notified m)) (mo_defaultInterface m) m'"
    using run_follows [OF _ _ assms(3), of ops re ?p p'] by auto
  then show ?thesis unfolding follows_default_def by blast
qed

theorem callback_knows_default_witness:
  "\<exists>p p' m'. plat_run list_manager (\<lambda>_. False) [BoxMonitor True] NewFdTunPlatform = Some p \<and>
    plat_run list_manager (\<lambda>_. False) (BoxRegister () # [HostDefault ''wlan0'' 3]) p = Some p' \<and> fp_monitor p' = Some m' \<and>
    mo_defaultInterface m' = last (None # seen 0 0 m')"
proof -
  obtain p m p' where r: "plat_run list_manager (\<lambda>_. False) [BoxMonitor True] NewFdTunPlatform = Some p" "fp_monitor p = Some m"
    "mo_defaultInterface m = None" "mo_notified m = []" "mo_next m = 0"
    "plat_run list_manager (\<lambda>_. False) (BoxRegister () # [HostDefault ''wlan0'' 3]) p = Some p'"
    by (simp add: NewFdTunPlatform_def platform_UpdateDefaultInterface_def CreateDefaultInterfaceMonitor_def Let_def
      newPlatformInterfaceMonitor_def setLogger_def monitor_UpdateDefaultInterface_def refreshInterfaces_def
      newInterface_def same_interface_def RegisterCallback_def NetworkInterfaces_def)
  have e: "fst (RegisterCallback () m) = 0" using r(5) by (simp add: RegisterCallback_def)
  from callback_knows_default [OF r(2,6)] obtain m' where "fp_monitor p' = Some m'" "mo_defaultInterface m' = last (None # seen 0 0 m')"
    using r(3,4) e by auto
  then show ?thesis using r(1,6) by (intro exI [of _ p] exI [of _ p'] exI [of _ m']) simp
qed

end
