(* ===== verification/Transports.thy ===== *)
theory Transports
  imports Core_Example Android_Platform
begin

text \<open>
  The transports: the C bridge of Linux and Windows (\<open>core/glue\<close>) and the Android bridge
  (\<open>core/mobile\<close>). Each holds one facade, whose event sink pushes into a ring that the user interface
  polls, and opens, replaces and closes it. A mutex makes every entry point one step; the run loops of
  the VPN service advance between them. What the platform provides at an initialisation (directories,
  stores, the database, the runner) is a record. Directories are clean paths, which \<open>filepath.Join\<close>
  extends by a slash and the name.
\<close>

section \<open>Configuration\<close>

record initConfig =
  ic_DataDir :: string
  ic_LogLevel :: string
  ic_HelperPath :: string

definition init_field :: "string \<Rightarrow> json \<Rightarrow> initConfig \<Rightarrow> initConfig option" where
  "init_field k v c =
     (if k = ''datadir'' then into_string (\<lambda>x. ic_DataDir_update (\<lambda>_. x)) v c
      else if k = ''loglevel'' then into_string (\<lambda>x. ic_LogLevel_update (\<lambda>_. x)) v c
      else if k = ''helperpath'' then into_string (\<lambda>x. ic_HelperPath_update (\<lambda>_. x)) v c
      else Some c)"

definition init_config :: "string option \<Rightarrow> initConfig option" where
  "init_config configJSON =
     (let cfg = \<lparr>ic_DataDir = '''', ic_LogLevel = LevelInfo, ic_HelperPath = ''''\<rparr>
      in case configJSON of
           None \<Rightarrow> Some cfg
         | Some raw \<Rightarrow> if raw = '''' then Some cfg else Option.bind (json_parse raw) (\<lambda>j. into_object init_field j cfg))"

definition init_level :: "initConfig \<Rightarrow> LogLevel" where
  "init_level cfg = (if \<not> level_Valid (ic_LogLevel cfg) then LevelInfo else ic_LogLevel cfg)"

record ('d, 'k, 'c, 'r) Outside =
  ou_env :: "('d, 'k, 'c, 'r) FacadeEnv"
  ou_close :: "('d, 'k, 'c, 'r) FacadeEnv"
  ou_UserConfigDir :: "goerror + string"
  ou_platform :: string
  ou_tester :: "ServerProfile \<Rightarrow> goerror + int"
  ou_runner :: "string \<Rightarrow> 'r"
  ou_rnd1 :: "goerror + string"
  ou_rnd2 :: "goerror + string"
  ou_Open :: "string \<Rightarrow> goerror + 'd"
  ou_secrets :: 'k
  ou_file :: "string \<Rightarrow> 'c"

definition core_New ::
  "('d, 'k, 'c, 'r) Outside \<Rightarrow> string \<Rightarrow> LogLevel \<Rightarrow> string \<Rightarrow> (goerror + ('d, 'k, 'c, 'r) Facade) option" where
  "core_New w dataDir level helperPath =
     fa_New (ou_env w) (ou_platform w) dataDir level (ou_tester w) (ou_runner w helperPath) (ou_rnd1 w) (ou_rnd2 w)
       (ou_Open w (dataDir @ ''/omniproxy.db'')) (ou_secrets w) (ou_file w (dataDir @ ''/omniproxy.conf''))"

section \<open>Events on the wire\<close>

fun event_data :: "Event \<Rightarrow> json" where
  "event_data (StateChanged r) = payload_json (DataState r)"
| "event_data (LogAppended e) = log_entry_json e"
| "event_data (LatencyTested i ms) = JObject [(''id'', JString i), (''latencyMs'', JInt ms)]"

definition event_json :: "Event \<Rightarrow> json" where
  "event_json e = JObject [(''type'', JString (event_type e)), (''data'', event_data e)]"

fun event_encodable :: "Event \<Rightarrow> bool" where
  "event_encodable (StateChanged r) = encodable (DataState r)"
| "event_encodable (LogAppended e) = time_ok (le_Timestamp e)"
| "event_encodable (LatencyTested i ms) = True"

definition marshal_events :: "Event list \<Rightarrow> string option" where
  "marshal_events batch =
     (if list_all event_encodable batch then Some (json_print (JArray (map event_json batch))) else None)"

text \<open>The sink pushes what the facade sends; \<open>fc_sent\<close> is all a facade has sent.\<close>

definition forward ::
  "('d, 'k, 'c, 'r) Facade \<Rightarrow> ('d, 'k, 'c, 'r) Facade \<Rightarrow> Event EventRing \<Rightarrow> Event EventRing" where
  "forward f f' r = fold Push (drop (length (fc_sent f)) (fc_sent f')) r"

section \<open>The C bridge\<close>

record ('d, 'k, 'c, 'r) Glue =
  gl_facade :: "('d, 'k, 'c, 'r) Facade option"
  gl_events :: "Event EventRing"

definition glue_zero :: "('d, 'k, 'c, 'r) Glue" where
  "glue_zero = \<lparr>gl_facade = None, gl_events = New 512\<rparr>"

definition defaultDataDir :: "('d, 'k, 'c, 'r) Outside \<Rightarrow> string" where
  "defaultDataDir w = (case ou_UserConfigDir w of Inl e \<Rightarrow> ''.omniproxy'' | Inr base \<Rightarrow> base @ ''/omniproxy'')"

definition glue_close :: "('d, 'k, 'c, 'r) FacadeEnv \<Rightarrow> ('d, 'k, 'c, 'r) Glue \<Rightarrow> ('d, 'k, 'c, 'r) Glue option" where
  "glue_close env g =
     (case gl_facade g of
        None \<Rightarrow> Some g
      | Some f \<Rightarrow> map_option (\<lambda>f'. g\<lparr>gl_facade := Some f', gl_events := forward f f' (gl_events g)\<rparr>) (fa_Close env f))"

definition omniproxy_init ::
  "('d, 'k, 'c, 'r) Outside \<Rightarrow> string option \<Rightarrow> ('d, 'k, 'c, 'r) Glue \<Rightarrow> (int \<times> ('d, 'k, 'c, 'r) Glue) option" where
  "omniproxy_init w configJSON g =
     (case init_config configJSON of
        None \<Rightarrow> Some (- 1, g)
      | Some cfg \<Rightarrow>
          (let level = init_level cfg; dataDir = (if ic_DataDir cfg = '''' then defaultDataDir w else ic_DataDir cfg)
           in case core_New w dataDir level (ic_HelperPath cfg) of
                None \<Rightarrow> None
              | Some (Inl e) \<Rightarrow> Some (- 1, g)
              | Some (Inr f) \<Rightarrow>
                  map_option (\<lambda>g'. (0, g'\<lparr>gl_facade := Some (SetEventSink True f)\<rparr>)) (glue_close (ou_close w) g)))"

definition not_initialized :: string where
  "not_initialized =
     json_print (response_json (error_response \<lparr>er_Code = ErrCodeInternal, er_Message = ''core not initialized''\<rparr>))"

definition c_string :: "string option \<Rightarrow> string" where
  "c_string s = (case s of None \<Rightarrow> '''' | Some x \<Rightarrow> x)"

definition omniproxy_request ::
  "('d, 'k, 'c, 'r) FacadeEnv \<Rightarrow> string option \<Rightarrow> string option \<Rightarrow> ('d, 'k, 'c, 'r) Glue \<Rightarrow>
   (string \<times> ('d, 'k, 'c, 'r) Glue) option" where
  "omniproxy_request env name requestJSON g =
     (case gl_facade g of
        None \<Rightarrow> Some (not_initialized, g)
      | Some f \<Rightarrow>
          map_option (\<lambda>(b, f'). (b, g\<lparr>gl_facade := Some f', gl_events := forward f f' (gl_events g)\<rparr>))
            (Dispatch (facade_dispatcher env) (c_string name) (c_string requestJSON) f))"

definition mustJSON :: "string option \<Rightarrow> string" where
  "mustJSON b =
     (case b of
        None \<Rightarrow> json_print (response_json (error_response \<lparr>er_Code = ErrCodeInternal, er_Message = ''encode error''\<rparr>))
      | Some t \<Rightarrow> t)"

definition omniproxy_poll_events :: "('d, 'k, 'c, 'r) Glue \<Rightarrow> string \<times> ('d, 'k, 'c, 'r) Glue" where
  "omniproxy_poll_events g =
     (let (batch, r) = Drain (gl_events g)
      in (if length batch = 0 then ''[]'' else mustJSON (marshal_events batch), g\<lparr>gl_events := r\<rparr>))"

definition omniproxy_shutdown :: "('d, 'k, 'c, 'r) FacadeEnv \<Rightarrow> ('d, 'k, 'c, 'r) Glue \<Rightarrow> ('d, 'k, 'c, 'r) Glue option" where
  "omniproxy_shutdown env g =
     map_option (\<lambda>g'. g'\<lparr>gl_facade := None, gl_events := snd (Drain (gl_events g'))\<rparr>) (glue_close env g)"

subsection \<open>Runs\<close>

datatype glue_step = GInit "string option" | GRequest "string option" "string option" | GPoll | GShutdown | GLoops

fun glue_exec ::
  "('d, 'k, 'c, 'r) Outside \<Rightarrow> glue_step \<Rightarrow> ('d, 'k, 'c, 'r) Glue \<Rightarrow> (string \<times> ('d, 'k, 'c, 'r) Glue) option" where
  "glue_exec w (GInit cfg) g = map_option (\<lambda>(r, g'). (Itoa r, g')) (omniproxy_init w cfg g)"
| "glue_exec w (GRequest name req) g = omniproxy_request (ou_env w) name req g"
| "glue_exec w GPoll g = Some (omniproxy_poll_events g)"
| "glue_exec w GShutdown g = map_option (\<lambda>g'. ('''', g')) (omniproxy_shutdown (ou_env w) g)"
| "glue_exec w GLoops g =
     (case gl_facade g of
        None \<Rightarrow> Some ('''', g)
      | Some f \<Rightarrow>
          map_option (\<lambda>f'. ('''', g\<lparr>gl_facade := Some f', gl_events := forward f f' (gl_events g)\<rparr>)) (background (ou_env w) f))"

fun glue_run ::
  "(('d, 'k, 'c, 'r) Outside \<times> glue_step) list \<Rightarrow> ('d, 'k, 'c, 'r) Glue \<Rightarrow> (string list \<times> ('d, 'k, 'c, 'r) Glue) option" where
  "glue_run [] g = Some ([], g)"
| "glue_run ((w, st) # steps) g =
     (case glue_exec w st g of
        None \<Rightarrow> None
      | Some (r, g') \<Rightarrow> map_option (\<lambda>(rs, h). (r # rs, h)) (glue_run steps g'))"

text \<open>What a facade has sent grows.\<close>

lemma exec_sent:
  assumes "facade_exec env st f = Some f'" "wired f"
  shows "\<exists>es. fc_sent f' = fc_sent f @ es"
proof (cases "changes_gate st")
  case False
  then show ?thesis using exec_relays [OF assms(1)] assms(2) by (auto simp: relays_def)
next
  case True
  then have "fc_sent f' = fc_sent f"
    using assms(1) by (cases st) (auto simp: changes_gate_def dispatch_def with_request_def answer_def SetEventSink_def Let_def
      facade_dispatcher_def facade_handler_def fa_Subscribe_def fa_Unsubscribe_def split: sum.splits)
  then show ?thesis by simp
qed

definition glue_ok :: "('d, 'k, 'c, 'r) Glue \<Rightarrow> bool" where
  "glue_ok g \<longleftrightarrow> ring_ok (gl_events g) \<and> er_cap (gl_events g) = 512 \<and> (case gl_facade g of None \<Rightarrow> True | Some f \<Rightarrow> wired f)"

lemma forward_ok:
  assumes "ring_ok r"
  shows "ring_ok (forward f f' r)" "er_cap (forward f f' r) = er_cap r"
    and "fc_sent f' = fc_sent f @ es \<Longrightarrow> er_events (forward f f' r) = last_n (nat (er_cap r)) (er_events r @ es)"
proof -
  show "ring_ok (forward f f' r)" using er.fold_push(1) [OF assms] by (simp add: forward_def)
  moreover have "nat (er_cap (forward f f' r)) = nat (er_cap r)"
    using er.fold_push(2) [OF assms, of "drop (length (fc_sent f)) (fc_sent f')"] by (simp add: forward_def)
  ultimately show "er_cap (forward f f' r) = er_cap r" using assms unfolding ring_ok_def by linarith
  show "er_events (forward f f' r) = last_n (nat (er_cap r)) (er_events r @ es)" if "fc_sent f' = fc_sent f @ es"
    using er.fold_push(3) [OF assms, of es] that by (simp add: forward_def)
qed

lemma Dispatch_exec: "Dispatch (facade_dispatcher env) meth req f = Some (b, f') \<Longrightarrow> facade_exec env (Request meth req) f = Some f'"
  by (auto simp: Dispatch_def)

lemma close_relays:
  assumes "fa_Close env f = Some f'" "wired f"
  shows "wired f'" "\<exists>es. fc_sent f' = fc_sent f @ es"
proof -
  obtain r f1 s where c: "vpn_call env CallDisconnect (Inl errServerNotFound) f = Some (r, f1)"
    "f' = f1\<lparr>fc_vpn := s, fc_tunnel := snd (manager_Stop (fe_runner env) (fc_tunnel f1))\<rparr>"
    using assms(1) by (auto simp: fa_Close_def split: option.splits)
  have "relays f f1" using relays_steps [OF vpn_call_steps(1) [OF c(1)]] .
  then show "wired f'" "\<exists>es. fc_sent f' = fc_sent f @ es"
    using assms(2) c(2) gate_admitted(2) [of f1 f] by (auto simp: relays_def wired_def)
qed

text \<open>How a step moves the facade it keeps.\<close>

definition moved :: "('d, 'k, 'c, 'r) Glue \<Rightarrow> ('d, 'k, 'c, 'r) Glue \<Rightarrow> bool" where
  "moved g g' \<longleftrightarrow>
     (case gl_facade g of
        None \<Rightarrow> g' = g
      | Some f \<Rightarrow> \<exists>f' es. gl_facade g' = Some f' \<and> wired f' \<and> fc_sent f' = fc_sent f @ es \<and> gl_events g' = forward f f' (gl_events g))"

lemma moved_ok: "glue_ok g \<Longrightarrow> moved g g' \<Longrightarrow> glue_ok g'"
  by (auto simp: glue_ok_def moved_def forward_ok split: option.splits)

lemma request_moved:
  assumes "omniproxy_request env name req g = Some (b, g')" "glue_ok g"
  shows "moved g g'"
proof (cases "gl_facade g")
  case (Some f)
  then obtain f' where f': "Dispatch (facade_dispatcher env) (c_string name) (c_string req) f = Some (b, f')"
    "g' = g\<lparr>gl_facade := Some f', gl_events := forward f f' (gl_events g)\<rparr>"
    using assms(1) by (auto simp: omniproxy_request_def)
  have "wired f" using assms(2) Some by (simp add: glue_ok_def)
  then show ?thesis using exec_wired [OF Dispatch_exec [OF f'(1)]] exec_sent [OF Dispatch_exec [OF f'(1)]] Some f'(2) by (auto simp: moved_def)
qed (use assms in \<open>simp add: omniproxy_request_def moved_def\<close>)

lemma close_moved:
  assumes "glue_close env g = Some g'" "glue_ok g"
  shows "moved g g'"
  using assms close_relays by (fastforce simp: glue_close_def moved_def glue_ok_def split: option.splits)

lemma loops_moved:
  assumes "glue_exec w GLoops g = Some (b, g')" "glue_ok g"
  shows "moved g g'"
proof (cases "gl_facade g")
  case (Some f)
  then obtain f' where f': "facade_exec (ou_env w) Loops f = Some f'" "g' = g\<lparr>gl_facade := Some f', gl_events := forward f f' (gl_events g)\<rparr>"
    using assms(1) by auto
  have "wired f" using assms(2) Some by (simp add: glue_ok_def)
  then show ?thesis using exec_wired [OF f'(1)] exec_sent [OF f'(1)] Some f'(2) by (auto simp: moved_def)
qed (use assms in \<open>simp add: moved_def\<close>)

lemma init_cases:
  assumes "omniproxy_init w cfg g = Some (r, g')" "glue_ok g"
  obtains "r = - 1" "g' = g"
  | f h where "r = 0" "moved g h" "wired f" "g' = h\<lparr>gl_facade := Some (SetEventSink True f)\<rparr>"
proof (cases "r = - 1")
  case True
  then show ?thesis using assms(1) that(1)
    by (auto simp: omniproxy_init_def Let_def split: option.splits sum.splits)
next
  case False
  then obtain c dir level hp f h where "core_New w dir level hp = Some (Inr f)" and h: "glue_close (ou_close w) g = Some h"
    "r = 0" "g' = h\<lparr>gl_facade := Some (SetEventSink True f)\<rparr>"
    using assms(1) by (auto simp: omniproxy_init_def Let_def split: option.splits sum.splits)
  then have "wired f" using new_wired [of "ou_env w"] wire_wired unfolding core_New_def by metis
  then show ?thesis using that(2) h close_moved [OF h(1) assms(2)] by blast
qed

lemma glue_exec_ok:
  assumes "glue_exec w st g = Some (r, g')" "glue_ok g"
  shows "glue_ok g'"
proof (cases st)
  case (GInit cfg)
  then obtain i where i: "omniproxy_init w cfg g = Some (i, g')" using assms(1) by auto
  show ?thesis
  proof (rule init_cases [OF i assms(2)])
    show ?thesis if "g' = g" using that assms(2) by simp
    show ?thesis if "moved g h" "wired f" "g' = h\<lparr>gl_facade := Some (SetEventSink True f)\<rparr>" for f h
      using that moved_ok [OF assms(2) that(1)] by (simp add: glue_ok_def SetEventSink_def wired_def)
  qed
next
  case (GRequest name req)
  then show ?thesis using assms moved_ok [OF assms(2) request_moved] by simp
next
  case GPoll
  then show ?thesis using assms by (auto simp: omniproxy_poll_events_def Drain_def glue_ok_def ring_ok_def Let_def)
next
  case GShutdown
  then obtain h where "glue_close (ou_env w) g = Some h" "g' = h\<lparr>gl_facade := None, gl_events := snd (Drain (gl_events h))\<rparr>"
    using assms(1) by (auto simp: omniproxy_shutdown_def)
  then show ?thesis using moved_ok [OF assms(2) close_moved] assms(2) by (auto simp: Drain_def glue_ok_def ring_ok_def)
next
  case GLoops
  then show ?thesis using assms moved_ok loops_moved by blast
qed

lemma glue_run_ok: "glue_run steps g = Some (outs, g') \<Longrightarrow> glue_ok g \<Longrightarrow> glue_ok g'"
  by (induction steps g arbitrary: outs rule: glue_run.induct) (auto split: option.splits prod.splits dest: glue_exec_ok)

lemma glue_zero_ok: "glue_ok glue_zero"
  by (simp add: glue_ok_def glue_zero_def) (simp add: New_def)

definition keeps_facade :: "glue_step \<Rightarrow> bool" where
  "keeps_facade st = (case st of GRequest name req \<Rightarrow> True | GLoops \<Rightarrow> True | _ \<Rightarrow> False)"

lemma kept_events:
  assumes "glue_run steps g = Some (outs, g')" "list_all (\<lambda>p. keeps_facade (snd p)) steps" "glue_ok g" "gl_facade g = Some f"
  shows "\<exists>f' es. gl_facade g' = Some f' \<and> fc_sent f' = fc_sent f @ es \<and> er_events (gl_events g') = last_n 512 (er_events (gl_events g) @ es)"
  using assms
proof (induction steps g arbitrary: f outs rule: glue_run.induct)
  case (1 g)
  then have "length (er_events (gl_events g)) \<le> 512" by (simp add: glue_ok_def ring_ok_def)
  then show ?case using 1 by (intro exI [of _ f] exI [of _ "[]"]) simp
next
  case (2 w st steps g)
  then obtain r h rs where h: "glue_exec w st g = Some (r, h)" "glue_run steps h = Some (rs, g')"
    by (auto split: option.splits prod.splits)
  have "moved g h" using 2(3) h(1) request_moved [OF _ 2(4)] loops_moved [OF _ 2(4)]
    by (cases st) (auto simp: keeps_facade_def simp del: glue_exec.simps(5))
  then obtain f1 es1 where f1: "gl_facade h = Some f1" "fc_sent f1 = fc_sent f @ es1" "gl_events h = forward f f1 (gl_events g)"
    using 2(5) by (auto simp: moved_def)
  have ev: "er_events (gl_events h) = last_n 512 (er_events (gl_events g) @ es1)"
    using forward_ok(3) [of "gl_events g" f1 f es1] 2(4) f1 by (simp add: glue_ok_def)
  obtain f' es where "gl_facade g' = Some f'" "fc_sent f' = fc_sent f1 @ es"
    "er_events (gl_events g') = last_n 512 (er_events (gl_events h) @ es)"
    using 2(1) [OF h(1) refl h(2) _ glue_exec_ok [OF h(1) 2(4)] f1(1)] 2(3) by auto
  then show ?case using f1(2) ev last_n_last_n_append [of 512 "er_events (gl_events g) @ es1" es]
    by (intro exI [of _ f'] exI [of _ "es1 @ es"]) simp
qed

lemma print_no_events: "json_print (JArray (map event_json [])) = ''[]''"
  by simp

text \<open>C11: A poll returns what was sent. After a poll, and requests and steps of the run loops, the next poll
  returns the JSON array of the events that the facade sent to its transport since that poll, in
  order, of which the oldest beyond 512 are dropped; the array reads back to these events. An event
  whose time cannot be encoded turns the whole answer into an error text.\<close>

theorem poll_returns_what_was_sent:
  assumes "glue_run before glue_zero = Some (outs, g0)" "gl_facade g0 = Some f" "omniproxy_poll_events g0 = (t0, g)"
    and "glue_run steps g = Some (outs', g')" "list_all (\<lambda>p. keeps_facade (snd p)) steps"
  shows "\<exists>f' es. gl_facade g' = Some f' \<and> fc_sent f' = fc_sent f @ es \<and>
    fst (omniproxy_poll_events g') = mustJSON (marshal_events (last_n 512 es)) \<and>
    (list_all event_encodable es \<longrightarrow> json_ok (JArray (map event_json (last_n 512 es))) \<longrightarrow>
       json_parse (fst (omniproxy_poll_events g')) = Some (JArray (map event_json (last_n 512 es))))"
proof -
  have "glue_ok g0" using glue_run_ok [OF assms(1) glue_zero_ok] .
  then have "glue_ok g" using glue_exec_ok [of undefined GPoll g0 t0 g] assms(3) by simp
  moreover have g: "gl_facade g = Some f" "er_events (gl_events g) = []"
    using assms(2,3) by (auto simp: omniproxy_poll_events_def Drain_def Let_def)
  ultimately obtain f' es where f': "gl_facade g' = Some f'" "fc_sent f' = fc_sent f @ es" "er_events (gl_events g') = last_n 512 es"
    using kept_events [OF assms(4,5)] by fastforce
  have t: "fst (omniproxy_poll_events g') = mustJSON (marshal_events (last_n 512 es))"
    using f'(3) print_no_events by (simp add: omniproxy_poll_events_def Drain_def marshal_events_def mustJSON_def)
  have "list_all event_encodable (last_n 512 es)" if "list_all event_encodable es"
    using that set_last_n [of 512 es] by (auto simp: list_all_iff)
  then have "json_parse (fst (omniproxy_poll_events g')) = Some (JArray (map event_json (last_n 512 es)))"
    if "list_all event_encodable es" "json_ok (JArray (map event_json (last_n 512 es)))"
    using that(1) t json_roundtrip [OF that(2)] by (simp add: marshal_events_def mustJSON_def del: json_print.simps)
  then show ?thesis using f'(1,2) t by blast
qed

fun alive :: "bool \<Rightarrow> glue_step \<times> string \<Rightarrow> bool" where
  "alive b (GInit cfg, out) = (b \<or> out = ''0'')"
| "alive b (GShutdown, out) = False"
| "alive b (st, out) = b"

lemma exec_alive:
  assumes "glue_exec w st g = Some (r, g')" "glue_ok g"
  shows "(gl_facade g' \<noteq> None) = alive (gl_facade g \<noteq> None) (st, r)"
proof (cases st)
  case (GInit cfg)
  then obtain i where i: "omniproxy_init w cfg g = Some (i, g')" "r = Itoa i" using assms(1) by auto
  have d: "Itoa 0 = ''0''" "Itoa (- 1) \<noteq> ''0''" by code_simp+
  show ?thesis by (rule init_cases [OF i(1) assms(2)]) (use GInit i(2) d in simp_all)
next
  case (GRequest name req)
  then show ?thesis using assms request_moved [of "ou_env w" name req g r g'] by (auto simp: moved_def split: option.splits)
next
  case GPoll
  then show ?thesis using assms(1) by (auto simp: omniproxy_poll_events_def Drain_def Let_def)
next
  case GShutdown
  then show ?thesis using assms(1) by (auto simp: omniproxy_shutdown_def)
next
  case GLoops
  then show ?thesis using loops_moved [of w g r g'] assms by (auto simp: moved_def simp del: glue_exec.simps split: option.splits)
qed

lemma run_alive:
  "glue_run steps g = Some (outs, g') \<Longrightarrow> glue_ok g \<Longrightarrow>
   (gl_facade g' \<noteq> None) = foldl alive (gl_facade g \<noteq> None) (zip (map snd steps) outs)"
proof (induction steps g arbitrary: outs rule: glue_run.induct)
  case (2 w st steps g)
  then obtain r h rs where h: "glue_exec w st g = Some (r, h)" "glue_run steps h = Some (rs, g')" "outs = r # rs"
    by (auto split: option.splits prod.splits)
  show ?case using 2(1) [OF h(1) refl h(2) glue_exec_ok [OF h(1) 2(3)]] exec_alive [OF h(1) 2(3)] h(3) by simp
qed simp

text \<open>The bridge has a core exactly between an initialisation that returned 0 and the next shutdown. Without
  one every request is answered with the error that the core is not initialised and changes nothing,
  and an initialisation that fails leaves the bridge, with the core it may have, as it was.\<close>

theorem bridge_lifecycle:
  assumes "glue_run steps glue_zero = Some (outs, g)"
  shows "(gl_facade g \<noteq> None) = foldl alive False (zip (map snd steps) outs) \<and>
    (gl_facade g = None \<longrightarrow> omniproxy_request env name req g = Some (not_initialized, g)) \<and>
    (omniproxy_init w cfg g = Some (- 1, g') \<longrightarrow> g' = g)"
proof -
  have ok: "glue_ok g" using glue_run_ok [OF assms glue_zero_ok] .
  have "g' = g" if "omniproxy_init w cfg g = Some (- 1, g')" by (rule init_cases [OF that ok]) simp_all
  then show ?thesis using run_alive [OF assms glue_zero_ok] by (simp add: glue_zero_def omniproxy_request_def)
qed

section \<open>The example behind the bridge\<close>

definition demo_world :: "(gotime \<times> event) list \<Rightarrow> (row list, string \<rightharpoonup> string, string, Engine) Outside" where
  "demo_world sched =
     \<lparr>ou_env = demo_fenv sched, ou_close = demo_fenv [], ou_UserConfigDir = Inl (plain_error ''no home''), ou_platform = ''linux'',
      ou_tester = (\<lambda>p. Inr 1), ou_runner = (\<lambda>h. engine_New), ou_rnd1 = Inr legacy_key, ou_rnd2 = Inr legacy_key,
      ou_Open = (\<lambda>path. Inr []), ou_secrets = [DataKeyName \<mapsto> b64_encode StdEncoding legacy_key], ou_file = (\<lambda>path. legacy_file)\<rparr>"

definition demo_config_json :: string where
  "demo_config_json = json_print (JObject [(''dataDir'', JString ''/d''), (''logLevel'', JString ''info'')])"

lemma demo_init_config:
  "init_config (Some demo_config_json) = Some \<lparr>ic_DataDir = ''/d'', ic_LogLevel = ''info'', ic_HelperPath = ''''\<rparr>"
proof -
  let ?j = "JObject [(''dataDir'', JString ''/d''), (''logLevel'', JString ''info'')]"
  have "json_ok ?j" by (simp add: ascii_valid_utf8)
  then have "json_parse demo_config_json = Some ?j" unfolding demo_config_json_def by (rule json_roundtrip)
  moreover have "demo_config_json \<noteq> ''''" by (simp add: demo_config_json_def)
  moreover have "ToLower ''dataDir'' = ''datadir''" "ToLower ''logLevel'' = ''loglevel''" by code_simp+
  ultimately show ?thesis by (simp add: init_config_def into_object_def init_field_def into_string_def)
qed

lemma demo_init:
  assumes "demo_new = Some (Inr f0)"
  shows "omniproxy_init (demo_world []) (Some demo_config_json) glue_zero =
    Some (0, \<lparr>gl_facade = Some (SetEventSink True f0), gl_events = New 512\<rparr>)"
  using assms
  by (simp add: omniproxy_init_def demo_init_config init_level_def level_Valid_def core_New_def demo_world_def demo_new_def
    glue_close_def glue_zero_def)

lemma request_exec:
  assumes "facade_exec (ou_env w) (Request meth req) f = Some f'" "gl_facade g = Some f"
  shows "\<exists>b. glue_exec w (GRequest (Some meth) (Some req)) g =
    Some (b, g\<lparr>gl_facade := Some f', gl_events := forward f f' (gl_events g)\<rparr>)"
  using assms by (auto simp: omniproxy_request_def Dispatch_def c_string_def)

lemma demo_glue:
  "\<exists>outs g0 f1 g outs' g'. glue_run [(demo_world [], GInit (Some demo_config_json)), (demo_world [], GRequest (Some ''subscribe'') (Some ''''))] glue_zero =
      Some (outs, g0) \<and> outs ! 0 = ''0'' \<and> gl_facade g0 = Some f1 \<and> omniproxy_poll_events g0 = (''[]'', g) \<and>
    glue_run [(demo_world demo_schedule, GRequest (Some ''connect'') (Some demo_connect))] g = Some (outs', g')"
proof -
  obtain f0 f1 f where r: "demo_new = Some (Inr f0)" "facade_run demo_before f0 = Some f1" "facade_run demo_steps f1 = Some f"
    using demo_run by (elim exE conjE)
  let ?g = "\<lparr>gl_facade = Some (SetEventSink True f0), gl_events = New 512\<rparr>"
  let ?w = "demo_world []"
  have e1: "facade_exec (ou_env ?w) (Request ''subscribe'' '''') (SetEventSink True f0) = Some f1"
    using r(2) by (auto simp: demo_before_def demo_world_def split: option.splits)
  obtain b where b: "glue_exec ?w (GRequest (Some ''subscribe'') (Some '''')) ?g =
      Some (b, ?g\<lparr>gl_facade := Some f1, gl_events := forward (SetEventSink True f0) f1 (gl_events ?g)\<rparr>)"
    using request_exec [OF e1, of ?g] by auto
  have "fc_sent f1 = fc_sent (SetEventSink True f0)"
    using e1 by (auto simp: dispatch_def with_request_def answer_def facade_dispatcher_def facade_handler_def fa_Subscribe_def split: sum.splits)
  then have fw: "forward (SetEventSink True f0) f1 (New 512) = New 512" by (simp add: forward_def)
  let ?g0 = "\<lparr>gl_facade = Some f1, gl_events = New 512\<rparr>"
  have run: "glue_run [(?w, GInit (Some demo_config_json)), (?w, GRequest (Some ''subscribe'') (Some ''''))] glue_zero = Some ([Itoa 0, b], ?g0)"
    using demo_init [OF r(1)] b fw by simp
  have poll: "omniproxy_poll_events ?g0 = (''[]'', ?g0)" by (simp add: omniproxy_poll_events_def Drain_def New_def)
  have e2: "facade_exec (ou_env (demo_world demo_schedule)) (Request ''connect'' demo_connect) f1 = Some f"
    using r(3) by (auto simp: demo_steps_def demo_world_def split: option.splits)
  obtain b' where b': "glue_exec (demo_world demo_schedule) (GRequest (Some ''connect'') (Some demo_connect)) ?g0 =
      Some (b', ?g0\<lparr>gl_facade := Some f, gl_events := forward f1 f (gl_events ?g0)\<rparr>)"
    using request_exec [OF e2, of ?g0] by auto
  have "Itoa 0 = ''0''" by code_simp
  then show ?thesis
    by (intro exI [of _ "[Itoa 0, b]"] exI [of _ ?g0] exI [of _ f1] exI [of _ ?g0] exI [of _ "[b']"]
        exI [of _ "?g0\<lparr>gl_facade := Some f, gl_events := forward f1 f (gl_events ?g0)\<rparr>"] conjI run poll)
       (use b' in simp_all)
qed

theorem poll_returns_what_was_sent_witness:
  "\<exists>g0 f1 g outs' g' f' es. gl_facade g0 = Some f1 \<and> omniproxy_poll_events g0 = (''[]'', g) \<and>
     glue_run [(demo_world demo_schedule, GRequest (Some ''connect'') (Some demo_connect))] g = Some (outs', g') \<and>
     gl_facade g' = Some f' \<and> fc_sent f' = fc_sent f1 @ es \<and>
     fst (omniproxy_poll_events g') = mustJSON (marshal_events (last_n 512 es))"
proof -
  obtain outs g0 f1 g outs' g' where r:
    "glue_run [(demo_world [], GInit (Some demo_config_json)), (demo_world [], GRequest (Some ''subscribe'') (Some ''''))] glue_zero = Some (outs, g0)"
    "gl_facade g0 = Some f1" "omniproxy_poll_events g0 = (''[]'', g)"
    "glue_run [(demo_world demo_schedule, GRequest (Some ''connect'') (Some demo_connect))] g = Some (outs', g')"
    using demo_glue by (elim exE conjE)
  have "list_all (\<lambda>p. keeps_facade (snd p)) [(demo_world demo_schedule, GRequest (Some ''connect'') (Some demo_connect))]"
    by (simp add: keeps_facade_def)
  from poll_returns_what_was_sent [OF r this] obtain f' es where "gl_facade g' = Some f'" "fc_sent f' = fc_sent f1 @ es"
    "fst (omniproxy_poll_events g') = mustJSON (marshal_events (last_n 512 es))" by (elim exE conjE)
  then show ?thesis using r(2-4)
    by (intro exI [of _ g0] exI [of _ f1] exI [of _ g] exI [of _ outs'] exI [of _ g'] exI [of _ f'] exI [of _ es]) simp
qed

theorem bridge_lifecycle_witness:
  "\<exists>outs g. glue_run [(demo_world [], GInit (Some demo_config_json)), (demo_world [], GRequest (Some ''subscribe'') (Some ''''))] glue_zero = Some (outs, g) \<and>
     gl_facade g \<noteq> None \<and> foldl alive False (zip [GInit (Some demo_config_json), GRequest (Some ''subscribe'') (Some '''')] outs)"
proof -
  obtain outs g0 f1 where r:
    "glue_run [(demo_world [], GInit (Some demo_config_json)), (demo_world [], GRequest (Some ''subscribe'') (Some ''''))] glue_zero = Some (outs, g0)"
    "gl_facade g0 = Some f1"
    using demo_glue by (elim exE conjE)
  from bridge_lifecycle [OF r(1)] r show ?thesis by (intro exI [of _ outs] exI [of _ g0]) simp
qed

end
