(* ===== verification/Android_Bridge.thy ===== *)
theory Android_Bridge
  imports Transports
begin

text \<open>
  The Android bridge (\<open>core/mobile/mobile.go\<close>): the entry points the Kotlin host calls. Runners and
  platforms are objects the host reaches through package variables while a facade keeps the runner it
  was built with, so they are numbered: \<open>mb_platforms\<close> holds the platforms, \<open>mb_attached\<close> the
  platform of a runner's engine, and \<open>mb_facade_runner\<close> is the runner of the facade in use. The host's
  secret store and the in-memory store are the two halves of the state of secrets.
\<close>

section \<open>The host's secret store\<close>

definition android_Get :: "'h SecretOps \<Rightarrow> string \<Rightarrow> 'h \<Rightarrow> goerror + string" where
  "android_Get impl key s =
     (case so_Get impl key s of
        Inl e \<Rightarrow> Inl e
      | Inr v \<Rightarrow> if v = '''' then Inl errSecretNotFound else Inr v)"

definition androidSecretStore :: "'h SecretOps \<Rightarrow> 'h SecretOps" where
  "androidSecretStore impl = \<lparr>so_Get = android_Get impl, so_Set = so_Set impl, so_Delete = so_Delete impl\<rparr>"

definition on_host :: "'h SecretOps \<Rightarrow> ('h \<times> 'm) SecretOps" where
  "on_host ops =
     \<lparr>so_Get = (\<lambda>k s. so_Get ops k (fst s)), so_Set = (\<lambda>k v s. map_prod id (\<lambda>h. (h, snd s)) (so_Set ops k v (fst s))),
      so_Delete = (\<lambda>k s. map_prod id (\<lambda>h. (h, snd s)) (so_Delete ops k (fst s)))\<rparr>"

definition in_memory :: "('h \<times> InMemory) SecretOps" where
  "in_memory =
     \<lparr>so_Get = (\<lambda>k s. mem_Get k (snd s)), so_Set = (\<lambda>k v s. map_prod id (Pair (fst s)) (mem_Set k v (snd s))),
      so_Delete = (\<lambda>k s. map_prod id (Pair (fst s)) (mem_Delete k (snd s)))\<rparr>"

text \<open>Over a keystore that answers a missing key with the empty text, the adapter gives back every
  value but the empty one.\<close>

lemma android_get_set:
  assumes "\<And>k v k' s s'. so_Set impl k v s = (None, s') \<Longrightarrow> so_Get impl k' s' = (if k' = k then Inr v else so_Get impl k' s)"
    and "so_Set (androidSecretStore impl) k v s = (None, s')" "v \<noteq> ''''"
  shows "so_Get (androidSecretStore impl) k' s' = (if k' = k then Inr v else so_Get (androidSecretStore impl) k' s)"
  using assms(1) [of k v s s' k'] assms(2,3) by (simp add: androidSecretStore_def android_Get_def)

section \<open>State\<close>

record ('d, 'h, 'c, 'a, 'n, 'cb) Mobile =
  mb_facade :: "('d, 'h \<times> InMemory, 'c, Engine) Facade option"
  mb_runner :: "nat option"
  mb_tunPlat :: "nat option"
  mb_events :: "Event EventRing"
  mb_secretStore :: "'h SecretOps option"
  mb_fresh :: nat
  mb_platforms :: "nat \<Rightarrow> ('a, 'n, 'cb) FdTunPlatform"
  mb_attached :: "nat \<Rightarrow> nat option"
  mb_facade_runner :: nat
  mb_facade_secrets :: "('h \<times> InMemory) SecretOps"

definition mobile_zero :: "('d, 'h, 'c, 'a, 'n, 'cb) Mobile" where
  "mobile_zero =
     \<lparr>mb_facade = None, mb_runner = None, mb_tunPlat = None, mb_events = New 512, mb_secretStore = None, mb_fresh = 0,
      mb_platforms = (\<lambda>_. NewFdTunPlatform), mb_attached = (\<lambda>_. None), mb_facade_runner = 0, mb_facade_secrets = in_memory\<rparr>"

section \<open>Entry points\<close>

definition SetSecretStore ::
  "'h SecretOps option \<Rightarrow> ('d, 'h, 'c, 'a, 'n, 'cb) Mobile \<Rightarrow> ('d, 'h, 'c, 'a, 'n, 'cb) Mobile" where
  "SetSecretStore s st = st\<lparr>mb_secretStore := map_option androidSecretStore s\<rparr>"

definition mobile_field :: "string \<Rightarrow> json \<Rightarrow> initConfig \<Rightarrow> initConfig option" where
  "mobile_field k v c =
     (if k = ''datadir'' then into_string (\<lambda>x. ic_DataDir_update (\<lambda>_. x)) v c
      else if k = ''loglevel'' then into_string (\<lambda>x. ic_LogLevel_update (\<lambda>_. x)) v c
      else Some c)"

definition mobile_config :: "string \<Rightarrow> initConfig option" where
  "mobile_config configJSON =
     (let cfg = \<lparr>ic_DataDir = '''', ic_LogLevel = LevelInfo, ic_HelperPath = ''''\<rparr>
      in if configJSON \<noteq> '''' then Option.bind (json_parse configJSON) (\<lambda>j. into_object mobile_field j cfg) else Some cfg)"

definition mobile_dir :: "goerror + string \<Rightarrow> initConfig \<Rightarrow> goerror + string" where
  "mobile_dir userDir cfg =
     (if ic_DataDir cfg = '''' then (case userDir of Inl e \<Rightarrow> Inl e | Inr dir \<Rightarrow> Inr (dir @ ''/omniproxy'')) else Inr (ic_DataDir cfg))"

definition with_secrets :: "'k SecretOps \<Rightarrow> ('d, 'k, 'c, 'r) FacadeEnv \<Rightarrow> ('d, 'k, 'c, 'r) FacadeEnv" where
  "with_secrets ops env = env\<lparr>fe_repo := (fe_repo env)\<lparr>re_sec := ops\<rparr>\<rparr>"

text \<open>The package variables get a new runner and a new platform.\<close>

definition fresh_runner :: "('d, 'h, 'c, 'a, 'n, 'cb) Mobile \<Rightarrow> ('d, 'h, 'c, 'a, 'n, 'cb) Mobile" where
  "fresh_runner st =
     st\<lparr>mb_runner := Some (mb_fresh st), mb_tunPlat := Some (mb_fresh st), mb_fresh := Suc (mb_fresh st),
        mb_platforms := (mb_platforms st)(mb_fresh st := NewFdTunPlatform), mb_attached := (mb_attached st)(mb_fresh st := None)\<rparr>"

definition mobile_outside ::
  "('d, 'h \<times> InMemory, 'c, Engine) Outside \<Rightarrow> 'h SecretOps option \<Rightarrow> ('d, 'h \<times> InMemory, 'c, Engine) Outside" where
  "mobile_outside w store =
     (let w1 = w\<lparr>ou_platform := ''android'', ou_runner := (\<lambda>_. engine_New)\<rparr>
      in case store of
           None \<Rightarrow> w1\<lparr>ou_env := with_secrets in_memory (ou_env w), ou_secrets := (fst (ou_secrets w), NewInMemory)\<rparr>
         | Some ops \<Rightarrow> w1\<lparr>ou_env := with_secrets (on_host ops) (ou_env w)\<rparr>)"

definition mobile_close ::
  "('d, 'h \<times> InMemory, 'c, Engine) FacadeEnv \<Rightarrow> ('d, 'h, 'c, 'a, 'n, 'cb) Mobile \<Rightarrow> ('d, 'h, 'c, 'a, 'n, 'cb) Mobile option" where
  "mobile_close env st =
     (case mb_facade st of
        None \<Rightarrow> Some st
      | Some f \<Rightarrow>
          map_option (\<lambda>f'. st\<lparr>mb_facade := Some f', mb_events := forward f f' (mb_events st)\<rparr>)
            (fa_Close (with_secrets (mb_facade_secrets st) env) f))"

definition errConfig :: goerror where
  "errConfig = plain_error ''invalid JSON configuration''"

definition Init ::
  "('d, 'h \<times> InMemory, 'c, Engine) Outside \<Rightarrow> string \<Rightarrow> ('d, 'h, 'c, 'a, 'n, 'cb) Mobile \<Rightarrow>
   (goerror option \<times> ('d, 'h, 'c, 'a, 'n, 'cb) Mobile) option" where
  "Init w configJSON st =
     (case mobile_config configJSON of
        None \<Rightarrow> Some (Some errConfig, st)
      | Some cfg \<Rightarrow>
          (case mobile_dir (ou_UserConfigDir w) cfg of
             Inl e \<Rightarrow> Some (Some e, st)
           | Inr dataDir \<Rightarrow>
               (let st1 = fresh_runner st; w' = mobile_outside w (mb_secretStore st)
                in case core_New w' dataDir (init_level cfg) '''' of
                     None \<Rightarrow> None
                   | Some (Inl e) \<Rightarrow> Some (Some e, st1)
                   | Some (Inr f) \<Rightarrow>
                       map_option
                         (\<lambda>st2. (None, st2\<lparr>mb_facade := Some (SetEventSink True f), mb_facade_runner := mb_fresh st,
                            mb_facade_secrets := re_sec (fe_repo (ou_env w'))\<rparr>))
                         (mobile_close (ou_close w) st1))))"

text \<open>\<open>SetPlatformInterface\<close> of a runner's engine and the hooks sing-box then sees, which are those of
  \<open>noopPlatform\<close> for an engine without a platform.\<close>

definition SetPlatformInterface :: "nat \<Rightarrow> nat option \<Rightarrow> ('d, 'h, 'c, 'a, 'n, 'cb) Mobile \<Rightarrow> ('d, 'h, 'c, 'a, 'n, 'cb) Mobile" where
  "SetPlatformInterface r pi st = st\<lparr>mb_attached := (mb_attached st)(r := pi)\<rparr>"

definition currentPlatform :: "nat \<Rightarrow> ('d, 'h, 'c, 'a, 'n, 'cb) Mobile \<Rightarrow> PlatformHooks" where
  "currentPlatform r st = (case mb_attached st r of None \<Rightarrow> noopPlatform | Some p \<Rightarrow> fd_hooks (mb_platforms st p))"

definition SetTunFd :: "32 word \<Rightarrow> ('d, 'h, 'c, 'a, 'n, 'cb) Mobile \<Rightarrow> ('d, 'h, 'c, 'a, 'n, 'cb) Mobile" where
  "SetTunFd fd st =
     (case (mb_tunPlat st, mb_runner st) of
        (Some p, Some r) \<Rightarrow>
          SetPlatformInterface r (Some p) (st\<lparr>mb_platforms := (mb_platforms st)(p := SetFd (sint fd) (mb_platforms st p))\<rparr>)
      | _ \<Rightarrow> st)"

text \<open>An engine without a platform lets sing-box create the TUN device; one that was given a platform
  opens the host's, and its sockets are protected exactly when the host has set a protector.\<close>

lemma hooks_after_fd:
  assumes "mb_tunPlat st = Some p" "mb_runner st = Some r"
  shows "UsePlatformInterface (currentPlatform r (SetTunFd fd st))"
    and "UsePlatformAutoDetectInterfaceControl (currentPlatform r (SetTunFd fd st)) \<longleftrightarrow> fp_protect (mb_platforms st p) \<noteq> None"
    and "mb_attached st r = None \<Longrightarrow> \<not> UsePlatformInterface (currentPlatform r st)"
  using assms by (simp_all add: SetTunFd_def SetPlatformInterface_def currentPlatform_def fd_hooks_def noopPlatform_def SetFd_def)

definition mobile_Request ::
  "('d, 'h \<times> InMemory, 'c, Engine) FacadeEnv \<Rightarrow> string \<Rightarrow> string \<Rightarrow> ('d, 'h, 'c, 'a, 'n, 'cb) Mobile \<Rightarrow>
   (string \<times> ('d, 'h, 'c, 'a, 'n, 'cb) Mobile) option" where
  "mobile_Request env name requestJSON st =
     (case mb_facade st of
        None \<Rightarrow> Some (not_initialized, st)
      | Some f \<Rightarrow>
          map_option (\<lambda>(b, f'). (b, st\<lparr>mb_facade := Some f', mb_events := forward f f' (mb_events st)\<rparr>))
            (Dispatch (facade_dispatcher (with_secrets (mb_facade_secrets st) env)) name requestJSON f))"

definition with_platform ::
  "(('a, 'n, 'cb) FdTunPlatform \<Rightarrow> ('a, 'n, 'cb) FdTunPlatform option) \<Rightarrow> ('d, 'h, 'c, 'a, 'n, 'cb) Mobile \<Rightarrow>
   ('d, 'h, 'c, 'a, 'n, 'cb) Mobile option" where
  "with_platform op st =
     (case mb_tunPlat st of
        None \<Rightarrow> Some st
      | Some p \<Rightarrow> map_option (\<lambda>q. st\<lparr>mb_platforms := (mb_platforms st)(p := q)\<rparr>) (op (mb_platforms st p)))"

definition protect_func :: "(32 word \<Rightarrow> bool) \<Rightarrow> int \<Rightarrow> goerror option" where
  "protect_func protect fd =
     (if protect (word_of_int fd) then None else Some (plain_error ''mobile: VpnService.protect rejected fd''))"

definition SetSocketProtector ::
  "(32 word \<Rightarrow> bool) option \<Rightarrow> ('d, 'h, 'c, 'a, 'n, 'cb) Mobile \<Rightarrow> ('d, 'h, 'c, 'a, 'n, 'cb) Mobile option" where
  "SetSocketProtector protect st = with_platform (\<lambda>p. Some (SetProtectFunc (map_option protect_func protect) p)) st"

definition SetDefaultInterface ::
  "('a, 'n) NetworkManagerOps \<Rightarrow> ('cb \<Rightarrow> bool) \<Rightarrow> string \<Rightarrow> 32 word \<Rightarrow> ('d, 'h, 'c, 'a, 'n, 'cb) Mobile \<Rightarrow>
   ('d, 'h, 'c, 'a, 'n, 'cb) Mobile option" where
  "SetDefaultInterface ops re name idx st = with_platform (platform_UpdateDefaultInterface ops re name (sint idx)) st"

subsection \<open>The list of interfaces\<close>

record pushedInterface =
  pi_Name :: string
  pi_Index :: int
  pi_MTU :: int
  pi_Up :: bool
  pi_Addresses :: "string list"

definition zero_pushed :: pushedInterface where
  "zero_pushed = \<lparr>pi_Name = '''', pi_Index = 0, pi_MTU = 0, pi_Up = False, pi_Addresses = []\<rparr>"

definition pushed_field :: "string \<Rightarrow> json \<Rightarrow> pushedInterface \<Rightarrow> pushedInterface option" where
  "pushed_field k v p =
     (if k = ''name'' then into_string (\<lambda>x. pi_Name_update (\<lambda>_. x)) v p
      else if k = ''index'' then into_int (\<lambda>x. pi_Index_update (\<lambda>_. x)) v p
      else if k = ''mtu'' then into_int (\<lambda>x. pi_MTU_update (\<lambda>_. x)) v p
      else if k = ''up'' then into_bool (\<lambda>x. pi_Up_update (\<lambda>_. x)) v p
      else if k = ''addresses'' then into_strings (\<lambda>x. pi_Addresses_update (\<lambda>_. x)) v p
      else Some p)"

fun json_pushed :: "json list \<Rightarrow> pushedInterface list option" where
  "json_pushed [] = Some []"
| "json_pushed (j # js) =
     (case into_object pushed_field j zero_pushed of None \<Rightarrow> None | Some p \<Rightarrow> map_option ((#) p) (json_pushed js))"

definition decode_pushed :: "string \<Rightarrow> pushedInterface list option" where
  "decode_pushed interfacesJSON =
     (if interfacesJSON = '''' then Some []
      else (case json_parse interfacesJSON of Some JNull \<Rightarrow> Some [] | Some (JArray js) \<Rightarrow> json_pushed js | _ \<Rightarrow> None))"

definition interface_of :: "(string \<Rightarrow> 'a option) \<Rightarrow> pushedInterface \<Rightarrow> 'a NetworkInterface" where
  "interface_of parsePrefix it =
     \<lparr>ni_Interface =
        \<lparr>in_Index = pi_Index it, in_MTU = pi_MTU it, in_Name = pi_Name it, in_Flags = (if pi_Up it then 1 OR 32 else 0),
         in_Addresses = List.map_filter parsePrefix (pi_Addresses it)\<rparr>,
      ni_Type = InterfaceTypeOther\<rparr>"

definition mobile_SetNetworkInterfaces ::
  "('a, 'n) NetworkManagerOps \<Rightarrow> (string \<Rightarrow> 'a option) \<Rightarrow> string \<Rightarrow> ('d, 'h, 'c, 'a, 'n, 'cb) Mobile \<Rightarrow>
   ('d, 'h, 'c, 'a, 'n, 'cb) Mobile option" where
  "mobile_SetNetworkInterfaces ops parsePrefix interfacesJSON st =
     (case decode_pushed interfacesJSON of
        None \<Rightarrow> Some st
      | Some its \<Rightarrow> with_platform (\<lambda>p. Some (SetNetworkInterfaces ops (map (interface_of parsePrefix) its) p)) st)"

definition PollEvents :: "('d, 'h, 'c, 'a, 'n, 'cb) Mobile \<Rightarrow> string \<times> ('d, 'h, 'c, 'a, 'n, 'cb) Mobile" where
  "PollEvents st =
     (let (batch, r) = Drain (mb_events st)
      in (if length batch = 0 then ''[]'' else (case marshal_events batch of None \<Rightarrow> ''[]'' | Some b \<Rightarrow> b), st\<lparr>mb_events := r\<rparr>))"

definition Shutdown ::
  "('d, 'h \<times> InMemory, 'c, Engine) FacadeEnv \<Rightarrow> ('d, 'h, 'c, 'a, 'n, 'cb) Mobile \<Rightarrow> ('d, 'h, 'c, 'a, 'n, 'cb) Mobile option" where
  "Shutdown env st = map_option (\<lambda>st'. st'\<lparr>mb_facade := None\<rparr>) (mobile_close env st)"

section \<open>Runs\<close>

datatype ('h, 'a, 'n, 'cb) mobile_step =
    MSecrets "'h SecretOps option"
  | MInit string
  | MTunFd "32 word"
  | MProtector "(32 word \<Rightarrow> bool) option"
  | MDefault string "32 word"
  | MInterfaces string
  | MRequest string string
  | MPoll
  | MShutdown
  | MLoops
  | MBox "('a, 'n, 'cb) plat_event"

datatype mobile_out = OutErr "goerror option" | OutText string | OutNone

definition engine_platform :: "('d, 'h, 'c, 'a, 'n, 'cb) Mobile \<Rightarrow> nat option" where
  "engine_platform st = mb_attached st (mb_facade_runner st)"

record ('d, 'h, 'c, 'a, 'n, 'cb) MobileEnv =
  me_outside :: "('d, 'h \<times> InMemory, 'c, Engine) Outside"
  me_manager :: "('a, 'n) NetworkManagerOps"
  me_reenters :: "'cb \<Rightarrow> bool"
  me_ParsePrefix :: "string \<Rightarrow> 'a option"

fun mobile_exec ::
  "('d, 'h, 'c, 'a, 'n, 'cb) MobileEnv \<Rightarrow> ('h, 'a, 'n, 'cb) mobile_step \<Rightarrow> ('d, 'h, 'c, 'a, 'n, 'cb) Mobile \<Rightarrow>
   (mobile_out \<times> ('d, 'h, 'c, 'a, 'n, 'cb) Mobile) option" where
  "mobile_exec e (MSecrets s) st = Some (OutNone, SetSecretStore s st)"
| "mobile_exec e (MInit cfg) st = map_option (map_prod OutErr id) (Init (me_outside e) cfg st)"
| "mobile_exec e (MTunFd fd) st = Some (OutNone, SetTunFd fd st)"
| "mobile_exec e (MProtector p) st = map_option (Pair OutNone) (SetSocketProtector p st)"
| "mobile_exec e (MDefault name idx) st = map_option (Pair OutNone) (SetDefaultInterface (me_manager e) (me_reenters e) name idx st)"
| "mobile_exec e (MInterfaces j) st = map_option (Pair OutNone) (mobile_SetNetworkInterfaces (me_manager e) (me_ParsePrefix e) j st)"
| "mobile_exec e (MRequest name req) st = map_option (map_prod OutText id) (mobile_Request (ou_env (me_outside e)) name req st)"
| "mobile_exec e MPoll st = Some (map_prod OutText id (PollEvents st))"
| "mobile_exec e MShutdown st = map_option (Pair (OutErr None)) (Shutdown (ou_env (me_outside e)) st)"
| "mobile_exec e MLoops st =
     (case mb_facade st of
        None \<Rightarrow> Some (OutNone, st)
      | Some f \<Rightarrow>
          map_option (\<lambda>f'. (OutNone, st\<lparr>mb_facade := Some f', mb_events := forward f f' (mb_events st)\<rparr>))
            (background (with_secrets (mb_facade_secrets st) (ou_env (me_outside e))) f))"
| "mobile_exec e (MBox ev) st =
     (case engine_platform st of
        None \<Rightarrow> Some (OutNone, st)
      | Some p \<Rightarrow>
          map_option (\<lambda>q. (OutNone, st\<lparr>mb_platforms := (mb_platforms st)(p := q)\<rparr>))
            (plat_step (me_manager e) (me_reenters e) ev (mb_platforms st p)))"

fun mobile_run ::
  "(('d, 'h, 'c, 'a, 'n, 'cb) MobileEnv \<times> ('h, 'a, 'n, 'cb) mobile_step) list \<Rightarrow> ('d, 'h, 'c, 'a, 'n, 'cb) Mobile \<Rightarrow>
   (mobile_out list \<times> ('d, 'h, 'c, 'a, 'n, 'cb) Mobile) option" where
  "mobile_run [] st = Some ([], st)"
| "mobile_run ((e, s) # steps) st =
     (case mobile_exec e s st of
        None \<Rightarrow> None
      | Some (r, st') \<Rightarrow> map_option (\<lambda>(rs, h). (r # rs, h)) (mobile_run steps st'))"

text \<open>The file descriptor the engine of the facade in use would open in VPN mode.\<close>

definition engine_fd :: "('d, 'h, 'c, 'a, 'n, 'cb) Mobile \<Rightarrow> int option" where
  "engine_fd st = map_option (\<lambda>p. fp_fd (mb_platforms st p)) (engine_platform st)"

text \<open>Whether an initialisation gets as far as building a core, and whether the last one that did
  failed.\<close>

definition reaches_core :: "('d, 'h \<times> InMemory, 'c, Engine) Outside \<Rightarrow> string \<Rightarrow> bool" where
  "reaches_core w cfg = (case mobile_config cfg of None \<Rightarrow> False | Some c \<Rightarrow> \<not> isl (mobile_dir (ou_UserConfigDir w) c))"

fun orphan ::
  "bool \<Rightarrow> (('d, 'h, 'c, 'a, 'n, 'cb) MobileEnv \<times> ('h, 'a, 'n, 'cb) mobile_step) \<times> mobile_out \<Rightarrow> bool" where
  "orphan b ((e, MInit cfg), out) = (if reaches_core (me_outside e) cfg then out \<noteq> OutErr None else b)"
| "orphan b (es, out) = b"

definition pointers_ok :: "bool \<Rightarrow> ('d, 'h, 'c, 'a, 'n, 'cb) Mobile \<Rightarrow> bool" where
  "pointers_ok orph st \<longleftrightarrow>
     mb_tunPlat st = mb_runner st \<and> (\<forall>r. mb_runner st = Some r \<longrightarrow> r < mb_fresh st) \<and>
     (\<forall>r p. mb_attached st r = Some p \<longrightarrow> p = r) \<and>
     (mb_facade st \<noteq> None \<longrightarrow> mb_facade_runner st < mb_fresh st \<and> mb_runner st \<noteq> None \<and>
        (mb_runner st = Some (mb_facade_runner st)) = (\<not> orph))"

definition pointers :: "('d, 'h, 'c, 'a, 'n, 'cb) Mobile \<Rightarrow> nat option \<times> nat option \<times> nat \<times> (nat \<Rightarrow> nat option) \<times> nat" where
  "pointers st = (mb_runner st, mb_tunPlat st, mb_fresh st, mb_attached st, mb_facade_runner st)"

lemma same_pointers:
  "pointers st' = pointers st \<Longrightarrow> (mb_facade st' \<noteq> None \<Longrightarrow> mb_facade st \<noteq> None) \<Longrightarrow> pointers_ok b st \<Longrightarrow> pointers_ok b st'"
  by (auto simp: pointers_def pointers_ok_def)

lemma close_pointers: "mobile_close env st = Some st' \<Longrightarrow> pointers st' = pointers st \<and> (mb_facade st' = None \<longleftrightarrow> mb_facade st = None)"
  by (auto simp: mobile_close_def pointers_def split: option.splits)

lemma platform_pointers: "with_platform op st = Some st' \<Longrightarrow> pointers st' = pointers st \<and> mb_facade st' = mb_facade st"
  by (auto simp: with_platform_def pointers_def split: option.splits)

lemma platform_ok: "with_platform op st = Some st' \<Longrightarrow> pointers_ok b st \<Longrightarrow> pointers_ok b st'"
  using same_pointers [of st' st] platform_pointers [of op st st'] by simp

lemma fresh_runner_ok: "pointers_ok b st \<Longrightarrow> pointers_ok True (fresh_runner st)"
  by (auto simp: pointers_ok_def fresh_runner_def less_Suc_eq)

lemma init_pointers:
  assumes "Init w cfg st = Some (r, st')" "pointers_ok b st"
  shows "pointers_ok (if reaches_core w cfg then r \<noteq> None else b) st'"
proof (cases "reaches_core w cfg")
  case False
  then have "st' = st" using assms(1) by (auto simp: Init_def reaches_core_def split: option.splits sum.splits)
  then show ?thesis using False assms(2) by simp
next
  case True
  then obtain c dir where c: "mobile_config cfg = Some c" "mobile_dir (ou_UserConfigDir w) c = Inr dir"
    unfolding reaches_core_def by (auto split: option.splits) (metis sum.collapse(2))
  let ?w = "mobile_outside w (mb_secretStore st)"
  show ?thesis
  proof (cases r)
    case (Some e)
    then have "st' = fresh_runner st" using assms(1) c by (auto simp: Init_def Let_def split: option.splits sum.splits)
    then show ?thesis using True Some fresh_runner_ok [OF assms(2)] by simp
  next
    case None
    then obtain f st2 where st2: "mobile_close (ou_close w) (fresh_runner st) = Some st2"
      "st' = st2\<lparr>mb_facade := Some (SetEventSink True f), mb_facade_runner := mb_fresh st, mb_facade_secrets := re_sec (fe_repo (ou_env ?w))\<rparr>"
      using assms(1) c by (auto simp: Init_def Let_def split: option.splits sum.splits)
    have "pointers st2 = pointers (fresh_runner st)" using close_pointers [OF st2(1)] by simp
    then show ?thesis using True None st2(2) fresh_runner_ok [OF assms(2)]
      by (simp add: pointers_ok_def pointers_def fresh_runner_def)
  qed
qed

lemma exec_pointers:
  assumes "mobile_exec e s st = Some (r, st')" "pointers_ok b st"
  shows "pointers_ok (orphan b ((e, s), r)) st'"
proof (cases s)
  case (MInit cfg)
  then obtain i where "Init (me_outside e) cfg st = Some (i, st')" "r = OutErr i" using assms(1) by auto
  then show ?thesis using init_pointers [OF _ assms(2)] MInit by fastforce
next
  case (MTunFd fd)
  then show ?thesis using assms by (auto simp: SetTunFd_def SetPlatformInterface_def pointers_ok_def split: option.splits if_splits)
next
  case MShutdown
  then obtain st1 where "mobile_close (ou_env (me_outside e)) st = Some st1" "st' = st1\<lparr>mb_facade := None\<rparr>"
    using assms(1) by (auto simp: Shutdown_def)
  then show ?thesis using MShutdown close_pointers same_pointers [OF _ _ assms(2), of st'] by (fastforce simp: pointers_def)
next
  case (MProtector p)
  then show ?thesis using assms by (auto simp: SetSocketProtector_def intro: platform_ok)
next
  case (MDefault name idx)
  then show ?thesis using assms by (auto simp: SetDefaultInterface_def intro: platform_ok)
next
  case (MInterfaces j)
  then show ?thesis using assms by (auto simp: mobile_SetNetworkInterfaces_def split: option.splits intro: platform_ok)
next
  case MPoll
  then show ?thesis using assms same_pointers [OF _ _ assms(2), of st']
    by (auto simp: PollEvents_def Drain_def pointers_def)
qed (use assms same_pointers [OF _ _ assms(2), of st'] in
     \<open>auto simp: SetSecretStore_def mobile_Request_def pointers_def split: option.splits\<close>)

lemma run_pointers:
  "mobile_run steps st = Some (outs, st') \<Longrightarrow> pointers_ok b st \<Longrightarrow> pointers_ok (foldl orphan b (zip steps outs)) st'"
proof (induction steps st arbitrary: outs b rule: mobile_run.induct)
  case (2 e s steps st)
  then obtain r h rs where h: "mobile_exec e s st = Some (r, h)" "mobile_run steps h = Some (rs, st')" "outs = r # rs"
    by (auto split: option.splits prod.splits)
  show ?case using 2(1) [OF h(1) refl h(2) exec_pointers [OF h(1) 2(3)]] h(3) by simp
qed simp

text \<open>C10: The TUN descriptor reaches the engine unless the last initialisation failed. In every run of the
  Android bridge, while a core is in use, handing over a descriptor sets the descriptor the core's
  engine opens, except when the last initialisation that got as far as building a core failed: then the
  package variables point to a runner and a platform the core in use does not have, and its engine
  keeps what it had.\<close>

theorem tun_fd_reaches_engine:
  assumes "mobile_run steps mobile_zero = Some (outs, st)" "mb_facade st \<noteq> None"
  shows "engine_fd (SetTunFd fd st) = (if foldl orphan False (zip steps outs) then engine_fd st else Some (sint fd))"
proof -
  have "pointers_ok False mobile_zero" by (simp add: pointers_ok_def mobile_zero_def)
  then have p: "pointers_ok (foldl orphan False (zip steps outs)) st" using run_pointers [OF assms(1)] by blast
  then obtain r where r: "mb_runner st = Some r" "mb_tunPlat st = Some r" using assms(2) by (auto simp: pointers_ok_def)
  show ?thesis
  proof (cases "r = mb_facade_runner st")
    case True
    then have "\<not> foldl orphan False (zip steps outs)" using p r assms(2) by (auto simp: pointers_ok_def)
    then show ?thesis using True r by (simp add: engine_fd_def engine_platform_def SetTunFd_def SetPlatformInterface_def SetFd_def)
  next
    case False
    then have "foldl orphan False (zip steps outs)" using p r assms(2) by (auto simp: pointers_ok_def)
    moreover have "mb_attached st (mb_facade_runner st) = Some p' \<Longrightarrow> p' \<noteq> r" for p' using p False by (auto simp: pointers_ok_def)
    ultimately show ?thesis using False r
      by (cases "mb_attached st (mb_facade_runner st)") (simp_all add: engine_fd_def engine_platform_def SetTunFd_def SetPlatformInterface_def)
  qed
qed

section \<open>Two initialisations\<close>

text \<open>A first initialisation on an empty store, and a second whose database does not open.\<close>

definition absent_ops :: "unit ConfigOps" where
  "absent_ops = \<lparr>co_Load = (\<lambda>s. Inl errNotExist), co_Save = (\<lambda>b s. (None, s)), co_Backup = (\<lambda>s. s)\<rparr>"

definition phone_env :: "(row list, unit \<times> InMemory, unit, Engine) FacadeEnv" where
  "phone_env =
     \<lparr>fe_repo = \<lparr>re_sql = table_ops, re_sec = in_memory, re_order = (\<lambda>xs. xs)\<rparr>, fe_link = Link_Roundtrip.demo_env, fe_store = absent_ops,
      fe_crypto = Config_Engine.demo_env, fe_runner = inproc_ops demo_lib, fe_now = 0, fe_random = [], fe_fresh = (\<lambda>i. ([], 0, 0)),
      fe_schedule = []\<rparr>"

definition phone :: "goerror + row list \<Rightarrow> (row list, unit, unit, unit, unit NetworkInterface list, unit) MobileEnv" where
  "phone db =
     \<lparr>me_outside =
        \<lparr>ou_env = phone_env, ou_close = phone_env, ou_UserConfigDir = Inr ''/u'', ou_platform = '''', ou_tester = (\<lambda>p. Inr 1),
         ou_runner = (\<lambda>h. engine_New), ou_rnd1 = Inr legacy_key, ou_rnd2 = Inr legacy_key, ou_Open = (\<lambda>path. db),
         ou_secrets = ((), NewInMemory), ou_file = (\<lambda>path. ())\<rparr>,
      me_manager = list_manager, me_reenters = (\<lambda>_. False), me_ParsePrefix = (\<lambda>_. None)\<rparr>"

abbreviation (input) phone_keys :: "unit \<times> InMemory" where
  "phone_keys \<equiv> ((), [DataKeyName \<mapsto> b64_encode StdEncoding legacy_key])"

lemma phone_key:
  "GetOrCreateDataKey in_memory (Inr legacy_key) '''' ((), NewInMemory) = (Inr legacy_key, phone_keys)"
  "GetOrCreateDataKey in_memory (Inr legacy_key) '''' phone_keys = (Inr legacy_key, phone_keys)"
  by (simp_all add: GetOrCreateDataKey_def in_memory_def mem_Get_def mem_Set_def NewInMemory_def errSecretNotFound_def create_key_def
    NewDataKey_def valid_key_def b64_roundtrip)

lemma phone_new:
  "\<exists>f. core_New (mobile_outside (me_outside (phone (Inr []))) None) ''/u/omniproxy'' LevelInfo '''' = Some (Inr f)"
  "core_New (mobile_outside (me_outside (phone (Inl e))) None) ''/u/omniproxy'' LevelInfo '''' = Some (Inl e)"
proof -
  have l: "LoadLegacyServers in_memory (Inr legacy_key) absent_ops Config_Engine.demo_env (\<lambda>xs. xs) ((), NewInMemory) () lg =
      Some (Inr [], phone_keys, lg)" for lg
    by (simp add: LoadLegacyServers_def phone_key absent_ops_def errNotExist_def)
  have "newGCM legacy_key = None" by (simp add: newGCM_def)
  then have c: "config_New in_memory (Inr legacy_key) absent_ops Config_Engine.demo_env phone_keys () = (Inr (legacy_key, default_doc), phone_keys, ())"
    by (simp add: config_New_def phone_key load_def absent_ops_def errNotExist_def saveLocked_def Let_def Seal_def Config_Engine.demo_env_def)
  show "\<exists>f. core_New (mobile_outside (me_outside (phone (Inr []))) None) ''/u/omniproxy'' LevelInfo '''' = Some (Inr f)"
    "core_New (mobile_outside (me_outside (phone (Inl e))) None) ''/u/omniproxy'' LevelInfo '''' = Some (Inl e)"
    using l c by (simp_all add: core_New_def fa_New_def mobile_outside_def phone_def phone_env_def with_secrets_def Let_def)
qed

theorem tun_fd_reaches_engine_witness:
  "\<exists>outs st outs' st'. mobile_run [(phone (Inr []), MInit '''')] mobile_zero = Some (outs, st) \<and> engine_fd (SetTunFd 5 st) = Some 5 \<and>
     mobile_run [(phone (Inr []), MInit ''''), (phone (Inl (plain_error ''locked'')), MInit '''')] mobile_zero = Some (outs', st') \<and>
     engine_fd (SetTunFd 5 st') = None"
proof -
  let ?b = "phone (Inl (plain_error ''locked''))" and ?a = "phone (Inr [])"
  obtain f where f: "core_New (mobile_outside (me_outside ?a) None) ''/u/omniproxy'' LevelInfo '''' = Some (Inr f)" using phone_new(1) by blast
  have cfg: "mobile_config '''' = Some \<lparr>ic_DataDir = '''', ic_LogLevel = LevelInfo, ic_HelperPath = ''''\<rparr>" by (simp add: mobile_config_def)
  have dir: "ou_UserConfigDir (me_outside (phone db)) = Inr ''/u''" for db by (simp add: phone_def)
  have core: "reaches_core (me_outside (phone db)) ''''" for db by (simp add: reaches_core_def cfg dir mobile_dir_def)
  let ?st = "(fresh_runner mobile_zero)\<lparr>mb_facade := Some (SetEventSink True f), mb_facade_runner := 0,
     mb_facade_secrets := re_sec (fe_repo (ou_env (mobile_outside (me_outside ?a) None)))\<rparr>
     :: (row list, unit, unit, unit, unit NetworkInterface list, unit) Mobile"
  have z: "mb_secretStore mobile_zero = None" "mb_facade (fresh_runner mobile_zero) = None" "mb_fresh mobile_zero = 0"
    by (simp_all add: mobile_zero_def fresh_runner_def)
  have 1: "Init (me_outside ?a) '''' mobile_zero = Some (None, ?st)"
    using f by (simp add: Init_def cfg dir mobile_dir_def init_level_def level_Valid_def z mobile_close_def Let_def)
  have "mb_secretStore ?st = None" by (simp add: mobile_zero_def fresh_runner_def)
  then have 2: "Init (me_outside ?b) '''' ?st = Some (Some (plain_error ''locked''), fresh_runner ?st)"
    by (simp add: Init_def cfg dir mobile_dir_def init_level_def level_Valid_def phone_new(2) Let_def)
  have r: "mobile_run [(?a, MInit '''')] mobile_zero = Some ([OutErr None], ?st)"
    "mobile_run [(?a, MInit ''''), (?b, MInit '''')] mobile_zero = Some ([OutErr None, OutErr (Some (plain_error ''locked''))], fresh_runner ?st)"
    using 1 2 by simp_all
  have "mb_facade ?st \<noteq> None" "mb_facade (fresh_runner ?st) \<noteq> None" by (simp_all add: fresh_runner_def)
  then have "engine_fd (SetTunFd 5 ?st) = Some 5" "engine_fd (SetTunFd 5 (fresh_runner ?st)) = engine_fd (fresh_runner ?st)"
    using tun_fd_reaches_engine [OF r(1), of 5] tun_fd_reaches_engine [OF r(2), of 5] core by simp_all
  moreover have "engine_fd (fresh_runner ?st) = None"
    by (simp add: engine_fd_def engine_platform_def fresh_runner_def mobile_zero_def)
  ultimately show ?thesis using r
    by (intro exI [of _ "[OutErr None]"] exI [of _ ?st] exI [of _ "[OutErr None, OutErr (Some (plain_error ''locked''))]"]
        exI [of _ "fresh_runner ?st"]) simp
qed

end
