(* ===== verification/Helper.thy ===== *)
theory Helper
  imports Tunnel
begin

text \<open>
  The privileged helper: the wire messages (\<open>core/tunnel/helperproto\<close>), the server
  (\<open>core/tunnel/helperhost\<close>) and the control client (\<open>core/tunnel/helper_client.go\<close>).

  The server handles the lines of its one connection in order; a line is a decoded message or
  one that does not decode. The client is modelled as interleaved steps: the request threads,
  the read loop, timeouts and closes from other goroutines. Log events of the engine do not
  touch the state of either side.
\<close>

section \<open>Messages\<close>

record ClientMessage =
  cm_Type :: string
  cm_Seq :: "64 word"
  cm_Options :: "Options option"

record ServerMessage =
  sm_Type :: string
  sm_Seq :: "64 word"
  sm_OK :: bool
  sm_State :: string
  sm_Error :: string
  sm_Event :: "(string \<times> string) option"

definition response :: "64 word \<Rightarrow> bool \<Rightarrow> string \<Rightarrow> string \<Rightarrow> ServerMessage" where
  "response seq ok state errMsg =
     \<lparr>sm_Type = ''response'', sm_Seq = seq, sm_OK = ok, sm_State = state, sm_Error = errMsg,
      sm_Event = None\<rparr>"

definition log_event :: "Level \<Rightarrow> string \<Rightarrow> ServerMessage" where
  "log_event level message =
     \<lparr>sm_Type = ''event'', sm_Seq = 0, sm_OK = False, sm_State = '''', sm_Error = '''',
      sm_Event = Some (level_String level, message)\<rparr>"

section \<open>The server\<close>

type_synonym Host = "Engine option"

text \<open>\<open>Connect\<close>: the engine is started outside the lock, so the host is looked at again
  afterwards; the options of a message without any are the zero options.\<close>

definition zero_options :: Options where
  "zero_options =
     \<lparr>op_Mode = '''', op_LogLevel = 0,
      op_Outbound =
        \<lparr>ob_Protocol = '''', ob_Address = '''', ob_Port = 0, ob_Username = '''', ob_Password = '''',
         ob_Cipher = '''', ob_UUID = '''', ob_Flow = '''', ob_Security = '''', ob_GlobalPadding = False,
         ob_AuthenticatedLength = False, ob_PacketEncoding = '''', ob_TLS = None, ob_SSH = None,
         ob_Transport = None\<rparr>,
      op_Proxy = \<lparr>po_Listen = '''', po_Port = 0\<rparr>,
      op_Tun = \<lparr>tn_InterfaceName = '''', tn_MTU = 0, tn_Address = [], tn_AutoRoute = False,
                tn_Stack = '''', tn_StrictRoute = False\<rparr>,
      op_IPv6Mode = '''', op_CacheFilePath = ''''\<rparr>"

definition msg_options :: "ClientMessage \<Rightarrow> Options" where
  "msg_options msg = (case cm_Options msg of None \<Rightarrow> zero_options | Some o1 \<Rightarrow> o1)"

definition host_store :: "BoxLib \<Rightarrow> 64 word \<Rightarrow> Engine \<Rightarrow> Host \<Rightarrow> ServerMessage \<times> Host" where
  "host_store lib seq eng h =
     (if h \<noteq> None then (response seq False '''' ''tunnel already running'', h)
      else (response seq True ''connected'' '''', Some eng))"

definition host_Connect :: "BoxLib \<Rightarrow> ClientMessage \<Rightarrow> Host \<Rightarrow> (ServerMessage \<times> Host) option" where
  "host_Connect lib msg h =
     (if h \<noteq> None then Some (response (cm_Seq msg) False '''' ''tunnel already running'', h)
      else (case engine_Start lib (msg_options msg) engine_New of
              None \<Rightarrow> None
            | Some (Some err, eng) \<Rightarrow> Some (response (cm_Seq msg) False '''' (err_text err), h)
            | Some (None, eng) \<Rightarrow> Some (host_store lib (cm_Seq msg) eng h)))"

definition host_Disconnect :: "BoxLib \<Rightarrow> 64 word \<Rightarrow> Host \<Rightarrow> ServerMessage \<times> Host" where
  "host_Disconnect lib seq h =
     (case h of
        None \<Rightarrow> (response seq True ''disconnected'' '''', None)
      | Some eng \<Rightarrow>
          (case fst (engine_Close lib eng) of
             Some err \<Rightarrow> (response seq False '''' (err_text err), None)
           | None \<Rightarrow> (response seq True ''disconnected'' '''', None)))"

definition host_Ping :: "64 word \<Rightarrow> Host \<Rightarrow> ServerMessage" where
  "host_Ping seq h = response seq True (if h \<noteq> None then ''connected'' else ''disconnected'') ''''"

definition StopEngine :: "BoxLib \<Rightarrow> Host \<Rightarrow> Engine option \<times> Host" where
  "StopEngine lib h = (map_option (\<lambda>eng. snd (engine_Close lib eng)) h, None)"

text \<open>The scan loop: the responses written, and the engine that was closed last, if any;
  \<open>None\<close> when a start panics.\<close>

fun serve :: "BoxLib \<Rightarrow> ClientMessage option list \<Rightarrow> Host \<Rightarrow> (ServerMessage list \<times> Engine option \<times> Host) option" where
  "serve lib [] h = Some ([], StopEngine lib h)"
| "serve lib (None # lines) h = serve lib lines h"
| "serve lib (Some msg # lines) h =
     (if cm_Type msg = ''connect'' then
        (case host_Connect lib msg h of
           None \<Rightarrow> None
         | Some (r, h') \<Rightarrow> map_option (\<lambda>(rs, x). (r # rs, x)) (serve lib lines h'))
      else if cm_Type msg = ''disconnect'' then
        map_option (\<lambda>(rs, x). (fst (host_Disconnect lib (cm_Seq msg) h) # rs, x))
          (serve lib lines (snd (host_Disconnect lib (cm_Seq msg) h)))
      else if cm_Type msg = ''ping'' then
        map_option (\<lambda>(rs, x). (host_Ping (cm_Seq msg) h # rs, x)) (serve lib lines h)
      else if cm_Type msg = ''quit'' then Some ([], StopEngine lib h)
      else serve lib lines h)"

definition pkexecInvoker :: "string \<Rightarrow> int option" where
  "pkexecInvoker env =
     (if env = '''' then None
      else (case Atoi env of
              None \<Rightarrow> None
            | Some uid \<Rightarrow> if uid < 0 then None else Some uid))"

datatype run_result =
    RunFailed goerror
  | Rejected goerror
  | Served "ServerMessage list" "Engine option" Host
  | RunPanic

text \<open>\<open>Run\<close>: the outcome of each system call is an argument (creating the directory, listening,
  the two changes of owner, the mode, accepting), as are the peer's uid and the lines it
  sends.\<close>

record run_setup =
  su_mkdir :: "goerror option"
  su_listen :: "goerror option"
  su_chown :: "goerror option"
  su_chmod :: "goerror option"
  su_accept :: "goerror option"

definition Run ::
  "BoxLib \<Rightarrow> run_setup \<Rightarrow> string \<Rightarrow> int \<Rightarrow> ClientMessage option list \<Rightarrow> run_result" where
  "Run lib su env peer lines =
     (let invoker = pkexecInvoker env
      in case first_error [su_mkdir su, su_listen su,
                           (if invoker \<noteq> None then su_chown su else None), su_chmod su, su_accept su] of
           Some e \<Rightarrow> RunFailed e
         | None \<Rightarrow>
             (if invoker \<noteq> None \<and> peer \<noteq> the invoker
              then Rejected (plain_error (''helper socket: rejecting peer uid '' @ Itoa peer @
                     '' (expected '' @ Itoa (the invoker) @ '')''))
              else (case serve lib lines None of
                      None \<Rightarrow> RunPanic
                    | Some (rs, closed, h) \<Rightarrow> Served rs closed h)))"

section \<open>What the server promises\<close>

definition host_ok :: "Host \<Rightarrow> bool" where
  "host_ok h \<longleftrightarrow> (case h of None \<Rightarrow> True | Some e \<Rightarrow> engine_ok e \<and> engine_Running e)"

lemma host_Connect_ok: "host_ok h \<Longrightarrow> host_Connect lib msg h = Some (r, h') \<Longrightarrow> host_ok h'"
  using engine_Start_ok [OF engine_New_ok] engine_Start_running(1)
  by (auto simp: host_ok_def host_Connect_def host_store_def split: if_splits option.splits prod.splits)

lemma host_Disconnect_host [simp]: "snd (host_Disconnect lib seq h) = None"
  by (simp add: host_Disconnect_def split: option.split)

text \<open>The requests that are answered: those before the first quit, of a known type.\<close>

fun answered :: "ClientMessage option list \<Rightarrow> ClientMessage list" where
  "answered [] = []"
| "answered (None # lines) = answered lines"
| "answered (Some msg # lines) =
     (if cm_Type msg = ''quit'' then []
      else if cm_Type msg \<in> {''connect'', ''disconnect'', ''ping''} then msg # answered lines
      else answered lines)"

lemma serve_answers:
  "serve lib lines h = Some (rs, closed, h') \<Longrightarrow>
   h' = None \<and> map sm_Seq rs = map cm_Seq (answered lines) \<and> list_all (\<lambda>r. sm_Type r = ''response'') rs"
proof (induction lib lines h arbitrary: rs rule: serve.induct)
  case (3 lib msg lines h)
  consider "cm_Type msg = ''connect''" | "cm_Type msg = ''disconnect''" | "cm_Type msg = ''ping''"
    | "cm_Type msg = ''quit''" | "cm_Type msg \<notin> {''connect'', ''disconnect'', ''ping'', ''quit''}"
    by blast
  then show ?case
  proof cases
    case 1
    with "3.prems" obtain r h1 rs1 where c: "host_Connect lib msg h = Some (r, h1)"
      "serve lib lines h1 = Some (rs1, closed, h')" "rs = r # rs1"
      by (auto split: option.splits prod.splits)
    have "sm_Seq r = cm_Seq msg" "sm_Type r = ''response''"
      using c(1) by (auto simp: host_Connect_def host_store_def response_def
        split: if_splits option.splits prod.splits)
    with "3.IH"(1) [OF 1 c(1) refl] c 1 show ?thesis by simp
  next
    case 2
    with "3.prems" obtain rs1 where c: "serve lib lines None = Some (rs1, closed, h')"
      "rs = fst (host_Disconnect lib (cm_Seq msg) h) # rs1"
      by (auto split: option.splits prod.splits)
    have "sm_Seq (fst (host_Disconnect lib (cm_Seq msg) h)) = cm_Seq msg"
      "sm_Type (fst (host_Disconnect lib (cm_Seq msg) h)) = ''response''"
      by (auto simp: host_Disconnect_def response_def split: option.splits)
    with "3.IH"(2) c 2 show ?thesis by auto
  next
    case 3
    with "3.prems" obtain rs1 where "serve lib lines h = Some (rs1, closed, h')"
      "rs = host_Ping (cm_Seq msg) h # rs1"
      by (auto split: option.splits prod.splits)
    with "3.IH"(3) 3 show ?thesis by (auto simp: host_Ping_def response_def)
  next
    case 4
    with "3.prems" show ?thesis by (auto simp: StopEngine_def)
  next
    case 5
    with "3.prems" "3.IH"(4) show ?thesis by auto
  qed
qed (auto simp: StopEngine_def)

lemma serve_closed:
  "serve lib lines h = Some (rs, closed, h') \<Longrightarrow> host_ok h \<Longrightarrow>
   (case closed of None \<Rightarrow> True | Some e \<Rightarrow> engine_ok e \<and> \<not> engine_Running e)"
proof (induction lib lines h arbitrary: rs rule: serve.induct)
  case (1 lib h)
  then show ?case using engine_Close_ok by (auto simp: StopEngine_def host_ok_def split: option.splits)
next
  case (3 lib msg lines h)
  show ?case
  proof (cases "cm_Type msg = ''connect''")
    case True
    with "3.prems" obtain r h1 rs1 where c: "host_Connect lib msg h = Some (r, h1)"
      "serve lib lines h1 = Some (rs1, closed, h')"
      by (auto split: option.splits prod.splits)
    with "3.IH"(1) [OF True c(1) refl] host_Connect_ok [OF "3.prems"(2) c(1)] show ?thesis by blast
  next
    case False
    with "3.prems" "3.IH"(2-) show ?thesis
      using engine_Close_ok
      by (auto simp: StopEngine_def host_ok_def split: option.splits prod.splits if_splits)
  qed
qed auto

section \<open>The control client\<close>

datatype await_result = AwResponse ServerMessage | AwError goerror

text \<open>Where a request stands: after taking its number, sent, waiting on its channel, returned.\<close>

datatype req_pc =
    Q_Idle
  | Q_Send ClientMessage
  | Q_Await "64 word"
  | Q_Wait "64 word"
  | Q_Done "64 word" await_result

datatype reader_pc = Scanning | Closing | Notifying | Ended

text \<open>\<open>hc_issued\<close> counts the requests ever numbered (the code keeps only the 64-bit counter).\<close>

record helperClient =
  hc_seqCounter :: "64 word"
  hc_issued :: nat
  hc_pending :: "64 word set"
  hc_chan :: "64 word \<Rightarrow> ServerMessage list"
  hc_closed :: bool
  hc_intentional :: bool
  hc_running :: bool
  hc_lost :: bool
  hc_reader :: reader_pc
  hc_sent :: "ClientMessage list"
  hc_reqs :: "nat \<Rightarrow> req_pc"

definition dialHelper :: helperClient where
  "dialHelper =
     \<lparr>hc_seqCounter = 0, hc_issued = 0, hc_pending = {}, hc_chan = (\<lambda>_. []), hc_closed = False,
      hc_intentional = False, hc_running = False, hc_lost = False, hc_reader = Scanning,
      hc_sent = [], hc_reqs = (\<lambda>_. Q_Idle)\<rparr>"

definition errClosed :: goerror where "errClosed = plain_error ''helper: connection closed''"
definition errTimedOut :: goerror where "errTimedOut = plain_error ''helper: request timed out''"

definition closed_msg :: ServerMessage where
  "closed_msg = \<lparr>sm_Type = ''response'', sm_Seq = 0, sm_OK = False, sm_State = '''',
     sm_Error = ''helper: connection closed'', sm_Event = None\<rparr>"

definition req_goto :: "nat \<Rightarrow> req_pc \<Rightarrow> helperClient \<Rightarrow> helperClient" where
  "req_goto t k c = c\<lparr>hc_reqs := (hc_reqs c)(t := k)\<rparr>"

definition nextSeq :: "nat \<Rightarrow> string \<Rightarrow> Options option \<Rightarrow> helperClient \<Rightarrow> helperClient" where
  "nextSeq t ty opts c =
     (let s = hc_seqCounter c + 1
      in req_goto t (Q_Send \<lparr>cm_Type = ty, cm_Seq = s, cm_Options = opts\<rparr>) (c\<lparr>hc_seqCounter := s, hc_issued := hc_issued c + 1\<rparr>))"

definition send :: "nat \<Rightarrow> ClientMessage \<Rightarrow> goerror option \<Rightarrow> helperClient \<Rightarrow> helperClient" where
  "send t msg enc c =
     (if hc_closed c then req_goto t (Q_Done (cm_Seq msg) (AwError errClosed)) c
      else (case enc of
              Some e \<Rightarrow> req_goto t (Q_Done (cm_Seq msg) (AwError e)) c
            | None \<Rightarrow> req_goto t (Q_Await (cm_Seq msg)) (c\<lparr>hc_sent := hc_sent c @ [msg]\<rparr>)))"

definition await_register :: "nat \<Rightarrow> 64 word \<Rightarrow> helperClient \<Rightarrow> helperClient" where
  "await_register t s c =
     (if hc_closed c then req_goto t (Q_Done s (AwError errClosed)) c
      else req_goto t (Q_Wait s)
             (c\<lparr>hc_pending := insert s (hc_pending c), hc_chan := (hc_chan c)(s := [])\<rparr>))"

definition await_take :: "nat \<Rightarrow> 64 word \<Rightarrow> helperClient \<Rightarrow> helperClient option" where
  "await_take t s c =
     (case hc_chan c s of
        [] \<Rightarrow> None
      | m # ms \<Rightarrow>
          Some (req_goto t (Q_Done s (AwResponse m))
                  (c\<lparr>hc_chan := (hc_chan c)(s := ms), hc_pending := hc_pending c - {s}\<rparr>)))"

definition await_timeout :: "nat \<Rightarrow> 64 word \<Rightarrow> helperClient \<Rightarrow> helperClient" where
  "await_timeout t s c =
     req_goto t (Q_Done s (AwError errTimedOut)) (c\<lparr>hc_pending := hc_pending c - {s}\<rparr>)"

text \<open>One message of the read loop; a channel has room for one message.\<close>

definition deliver :: "ServerMessage \<Rightarrow> helperClient \<Rightarrow> helperClient option" where
  "deliver msg c =
     (if sm_Type msg \<noteq> ''response'' then Some c
      else
        (let run1 = (if sm_OK msg \<and> sm_State msg = ''connected'' then True else hc_running c);
             run2 = (if sm_State msg = ''disconnected'' then False else run1);
             c1 = c\<lparr>hc_running := run2, hc_pending := hc_pending c - {sm_Seq msg}\<rparr>
         in if sm_Seq msg \<in> hc_pending c then
              (if hc_chan c (sm_Seq msg) = []
               then Some (c1\<lparr>hc_chan := (hc_chan c)(sm_Seq msg := [msg])\<rparr>) else None)
            else Some c1))"

definition hc_close :: "bool \<Rightarrow> helperClient \<Rightarrow> helperClient" where
  "hc_close sendQuit c =
     (if hc_closed c then c
      else c\<lparr>hc_closed := True, hc_intentional := sendQuit, hc_running := False, hc_pending := {},
             hc_sent := hc_sent c @ (if sendQuit then [\<lparr>cm_Type = ''quit'', cm_Seq = 0, cm_Options = None\<rparr>] else []),
             hc_chan := (\<lambda>s. if s \<in> hc_pending c then hc_chan c s @ [closed_msg] else hc_chan c s)\<rparr>)"

definition notifyLost :: "helperClient \<Rightarrow> helperClient" where
  "notifyLost c = c\<lparr>hc_lost := True\<rparr>"

datatype hc_event =
    HCall nat string "Options option"
  | HSend nat "goerror option"
  | HRegister nat
  | HTake nat
  | HTimeout nat
  | HMessage ServerMessage
  | HEOF
  | HReader
  | HClose bool

definition reader_step :: "helperClient \<Rightarrow> helperClient option" where
  "reader_step c =
     (case hc_reader c of
        Closing \<Rightarrow> Some ((hc_close False c)\<lparr>hc_reader := Notifying\<rparr>)
      | Notifying \<Rightarrow>
          Some ((if \<not> hc_intentional c then notifyLost c else c)\<lparr>hc_reader := Ended\<rparr>)
      | _ \<Rightarrow> None)"

definition hc_step :: "hc_event \<Rightarrow> helperClient \<Rightarrow> helperClient option" where
  "hc_step ev c =
     (case ev of
        HCall t ty opts \<Rightarrow>
          (case hc_reqs c t of
             Q_Idle \<Rightarrow> Some (nextSeq t ty opts c) | Q_Done s r \<Rightarrow> Some (nextSeq t ty opts c)
           | _ \<Rightarrow> None)
      | HSend t enc \<Rightarrow> (case hc_reqs c t of Q_Send msg \<Rightarrow> Some (send t msg enc c) | _ \<Rightarrow> None)
      | HRegister t \<Rightarrow> (case hc_reqs c t of Q_Await s \<Rightarrow> Some (await_register t s c) | _ \<Rightarrow> None)
      | HTake t \<Rightarrow> (case hc_reqs c t of Q_Wait s \<Rightarrow> await_take t s c | _ \<Rightarrow> None)
      | HTimeout t \<Rightarrow> (case hc_reqs c t of Q_Wait s \<Rightarrow> Some (await_timeout t s c) | _ \<Rightarrow> None)
      | HMessage msg \<Rightarrow> (if hc_reader c = Scanning then deliver msg c else None)
      | HEOF \<Rightarrow> (if hc_reader c = Scanning then Some (c\<lparr>hc_reader := Closing\<rparr>) else None)
      | HReader \<Rightarrow> reader_step c
      | HClose quit \<Rightarrow> Some (hc_close quit c))"

fun hc_run :: "hc_event list \<Rightarrow> helperClient \<Rightarrow> helperClient option" where
  "hc_run [] c = Some c"
| "hc_run (ev # evs) c = (case hc_step ev c of None \<Rightarrow> None | Some c' \<Rightarrow> hc_run evs c')"

inductive hc_reachable :: "helperClient \<Rightarrow> bool" where
  dial: "hc_reachable dialHelper"
| more: "hc_reachable c \<Longrightarrow> hc_step ev c = Some c' \<Longrightarrow> hc_reachable c'"

text \<open>\<open>connect\<close>, \<open>disconnect\<close> and \<open>ping\<close> turn the result of a request into an error.\<close>

definition request_error :: "await_result \<Rightarrow> goerror option" where
  "request_error r =
     (case r of
        AwError e \<Rightarrow> Some (wrap ''privileged helper: '' e)
      | AwResponse m \<Rightarrow>
          (if \<not> sm_OK m then Some (plain_error (''privileged helper: '' @ sm_Error m)) else None))"

definition ping_error :: "await_result \<Rightarrow> goerror option" where
  "ping_error r =
     (case r of
        AwError e \<Rightarrow> Some (wrap ''privileged helper: '' e)
      | AwResponse m \<Rightarrow>
          (if \<not> sm_OK m then Some (plain_error ''privileged helper: ping rejected'') else None))"

section \<open>Invariant of the client\<close>

fun req_seq :: "req_pc \<Rightarrow> 64 word option" where
  "req_seq (Q_Send msg) = Some (cm_Seq msg)"
| "req_seq (Q_Await s) = Some s"
| "req_seq (Q_Wait s) = Some s"
| "req_seq _ = None"

definition link_inv :: "helperClient \<Rightarrow> bool" where
  "link_inv c \<longleftrightarrow>
     hc_seqCounter c = of_nat (hc_issued c) \<and> (hc_closed c \<longrightarrow> hc_pending c = {}) \<and>
     (hc_intentional c \<longrightarrow> hc_closed c) \<and>
     (hc_reader c = Notifying \<or> hc_reader c = Ended \<longrightarrow> hc_closed c) \<and>
     (hc_lost c \<longleftrightarrow> hc_reader c = Ended \<and> \<not> hc_intentional c)"

text \<open>A reply that may be given to request \<open>s\<close>: one with its number, or the closing one.\<close>

definition reply_ok :: "64 word \<Rightarrow> ServerMessage \<Rightarrow> bool" where
  "reply_ok s m \<longleftrightarrow> sm_Seq m = s \<or> m = closed_msg"

lemma reply_ok_intros [simp]: "reply_ok (sm_Seq m) m" "reply_ok s closed_msg"
  by (simp_all add: reply_ok_def)

definition chan_inv :: "helperClient \<Rightarrow> bool" where
  "chan_inv c \<longleftrightarrow> (\<forall>s. list_all (reply_ok s) (hc_chan c s))"

definition done_inv :: "helperClient \<Rightarrow> bool" where
  "done_inv c \<longleftrightarrow> (\<forall>t s m. hc_reqs c t = Q_Done s (AwResponse m) \<longrightarrow> reply_ok s m)"

lemma hc_stepE:
  assumes "hc_step ev c = Some c'"
  obtains
    (call) t ty opts where "c' = nextSeq t ty opts c" "req_seq (hc_reqs c t) = None"
  | (send) t msg enc where "hc_reqs c t = Q_Send msg" "c' = send t msg enc c"
  | (register) t s where "hc_reqs c t = Q_Await s" "c' = await_register t s c"
  | (take) t s m ms where "hc_reqs c t = Q_Wait s" "hc_chan c s = m # ms"
      "c' = req_goto t (Q_Done s (AwResponse m))
         (c\<lparr>hc_chan := (hc_chan c)(s := ms), hc_pending := hc_pending c - {s}\<rparr>)"
  | (timeout) t s where "hc_reqs c t = Q_Wait s" "c' = await_timeout t s c"
  | (message) msg where "hc_reader c = Scanning" "deliver msg c = Some c'"
  | (eof) "hc_reader c = Scanning" "c' = c\<lparr>hc_reader := Closing\<rparr>"
  | (closing) "hc_reader c = Closing" "c' = (hc_close False c)\<lparr>hc_reader := Notifying\<rparr>"
  | (notify) "hc_reader c = Notifying"
      "c' = (if \<not> hc_intentional c then notifyLost c else c)\<lparr>hc_reader := Ended\<rparr>"
  | (close) quit where "c' = hc_close quit c"
proof (cases ev)
  case (HCall t ty opts)
  with assms show thesis using that(1) by (cases "hc_reqs c t") (auto simp: hc_step_def)
next
  case (HSend t enc)
  with assms show thesis using that(2) by (cases "hc_reqs c t") (auto simp: hc_step_def)
next
  case (HRegister t)
  with assms show thesis using that(3) by (cases "hc_reqs c t") (auto simp: hc_step_def)
next
  case (HTake t)
  with assms obtain s where "hc_reqs c t = Q_Wait s" "await_take t s c = Some c'"
    by (cases "hc_reqs c t") (auto simp: hc_step_def)
  then show thesis using that(4) by (cases "hc_chan c s") (auto simp: await_take_def)
next
  case (HTimeout t)
  with assms show thesis using that(5) by (cases "hc_reqs c t") (auto simp: hc_step_def)
next
  case (HMessage msg)
  with assms show thesis using that(6) by (auto simp: hc_step_def split: if_splits)
next
  case HEOF
  with assms show thesis using that(7) by (auto simp: hc_step_def split: if_splits)
next
  case HReader
  with assms show thesis using that(8,9) by (cases "hc_reader c") (auto simp: hc_step_def reader_step_def)
next
  case (HClose quit)
  with assms show thesis using that(10) by (auto simp: hc_step_def)
qed

lemma deliver_sel:
  assumes "deliver msg c = Some c'"
  shows "hc_seqCounter c' = hc_seqCounter c" "hc_issued c' = hc_issued c"
    "hc_closed c' = hc_closed c" "hc_intentional c' = hc_intentional c" "hc_reader c' = hc_reader c"
    "hc_lost c' = hc_lost c" "hc_reqs c' = hc_reqs c" "hc_pending c' \<subseteq> hc_pending c"
  using assms by (auto simp: deliver_def Let_def split: if_splits)

lemma send_sel:
  "hc_seqCounter (send t msg enc c) = hc_seqCounter c" "hc_issued (send t msg enc c) = hc_issued c"
  "hc_closed (send t msg enc c) = hc_closed c" "hc_intentional (send t msg enc c) = hc_intentional c"
  "hc_reader (send t msg enc c) = hc_reader c" "hc_lost (send t msg enc c) = hc_lost c"
  "hc_pending (send t msg enc c) = hc_pending c" "hc_chan (send t msg enc c) = hc_chan c"
  by (simp_all add: send_def req_goto_def split: option.split)

lemma hc_close_sel:
  "hc_seqCounter (hc_close q c) = hc_seqCounter c" "hc_issued (hc_close q c) = hc_issued c"
  "hc_closed (hc_close q c)" "hc_intentional (hc_close q c) = (if hc_closed c then hc_intentional c else q)"
  "hc_reader (hc_close q c) = hc_reader c" "hc_lost (hc_close q c) = hc_lost c"
  "hc_reqs (hc_close q c) = hc_reqs c"
  by (simp_all add: hc_close_def)

lemma link_inv_step:
  assumes "link_inv c" "hc_step ev c = Some c'"
  shows "link_inv c'"
proof -
  note inv = assms(1) [unfolded link_inv_def]
  have pend: "hc_closed (hc_close q c) \<longrightarrow> hc_pending (hc_close q c) = {}" for q
    using inv by (simp add: hc_close_def)
  from assms(2) show ?thesis
  proof (cases rule: hc_stepE)
    case message
    then show ?thesis using deliver_sel [OF message(2)] inv by (auto simp: link_inv_def)
  next
    case send
    then show ?thesis using inv by (simp only: link_inv_def send_sel) blast
  next
    case closing
    then show ?thesis using inv pend [of False] by (simp add: link_inv_def hc_close_sel)
  next
    case notify
    then show ?thesis using inv by (simp add: link_inv_def notifyLost_def)
  next
    case (close q)
    show ?thesis
    proof (cases "hc_closed c")
      case True
      with close inv assms(1) show ?thesis by (simp add: hc_close_def)
    next
      case False
      with inv have "\<not> hc_lost c" "hc_reader c \<noteq> Ended" by blast+
      with close inv pend [of q] show ?thesis by (simp add: link_inv_def hc_close_sel)
    qed
  next
    case (call t ty opts)
    then show ?thesis using inv by (simp add: link_inv_def nextSeq_def req_goto_def Let_def)
  next
    case (register t s)
    then show ?thesis using inv by (cases "hc_closed c") (simp_all add: link_inv_def await_register_def req_goto_def)
  next
    case (take t s m ms)
    then show ?thesis using inv by (simp add: link_inv_def req_goto_def)
  next
    case (timeout t s)
    then show ?thesis using inv by (simp add: link_inv_def await_timeout_def req_goto_def)
  next
    case eof
    then show ?thesis using inv by (simp add: link_inv_def)
  qed
qed

lemma chan_inv_step:
  assumes "chan_inv c" "hc_step ev c = Some c'"
  shows "chan_inv c'"
  using assms(2)
proof (cases rule: hc_stepE)
  case message
  then show ?thesis using assms(1) by (auto simp: chan_inv_def deliver_def Let_def split: if_splits)
next
  case send
  then show ?thesis using assms(1) by (simp add: chan_inv_def send_def req_goto_def split: option.split)
next
  case (take t s m ms)
  then show ?thesis using assms(1) by (auto simp: chan_inv_def req_goto_def dest: spec [of _ s])
qed (use assms(1) in \<open>simp add: chan_inv_def nextSeq_def await_register_def await_timeout_def
  hc_close_def notifyLost_def req_goto_def Let_def\<close>)+

lemma done_inv_step:
  assumes "chan_inv c" "done_inv c" "hc_step ev c = Some c'"
  shows "done_inv c'"
  using assms(3)
proof (cases rule: hc_stepE)
  case message
  then show ?thesis using deliver_sel(7) [OF message(2)] assms(2) by (simp add: done_inv_def)
next
  case (take t s m ms)
  then have "reply_ok s m" using assms(1) by (metis chan_inv_def list.pred_inject(2))
  with take assms(2) show ?thesis by (simp add: done_inv_def req_goto_def)
next
  case send
  then show ?thesis using assms(2) by (simp add: done_inv_def send_def req_goto_def split: option.split)
qed (use assms(2) in \<open>simp add: done_inv_def nextSeq_def await_register_def await_timeout_def
  hc_close_def notifyLost_def req_goto_def Let_def\<close>)+

lemma hc_reachable_inv: "hc_reachable c \<Longrightarrow> link_inv c \<and> chan_inv c \<and> done_inv c"
proof (induction rule: hc_reachable.induct)
  case dial
  then show ?case by (simp add: link_inv_def chan_inv_def done_inv_def dialHelper_def)
next
  case (more c ev c')
  then show ?case using link_inv_step chan_inv_step done_inv_step by blast
qed

text \<open>A pending channel is empty, so neither the read loop nor a close ever blocks on it.\<close>

definition room_inv :: "helperClient \<Rightarrow> bool" where
  "room_inv c \<longleftrightarrow> (\<forall>s \<in> hc_pending c. hc_chan c s = [])"

lemma room_inv_step:
  assumes "room_inv c" "hc_step ev c = Some c'"
  shows "room_inv c'"
  using assms(2)
proof (cases rule: hc_stepE)
  case message
  then show ?thesis using assms(1) by (auto simp: room_inv_def deliver_def Let_def split: if_splits)
next
  case send
  then show ?thesis using assms(1) by (simp add: room_inv_def send_sel)
next
  case (take t s m ms)
  then show ?thesis using assms(1) by (auto simp: room_inv_def req_goto_def)
qed (use assms(1) in \<open>simp add: room_inv_def nextSeq_def await_register_def await_timeout_def
  hc_close_def notifyLost_def req_goto_def Let_def\<close>)+

text \<open>While the counter has not wrapped, the numbers of the requests in flight are distinct, and
  a waiting request is still pending or has its reply.\<close>

definition seq_inv :: "helperClient \<Rightarrow> bool" where
  "seq_inv c \<longleftrightarrow>
     (\<forall>t s. req_seq (hc_reqs c t) = Some s \<longrightarrow> unat s \<le> hc_issued c) \<and>
     (\<forall>t t' s. req_seq (hc_reqs c t) = Some s \<longrightarrow> req_seq (hc_reqs c t') = Some s \<longrightarrow> t = t') \<and>
     (\<forall>t s. hc_reqs c t = Q_Wait s \<longrightarrow> s \<in> hc_pending c \<or> hc_chan c s \<noteq> [])"

lemma seq_inv_same:
  assumes "seq_inv c" "hc_issued c' = hc_issued c"
    and "\<And>t s. req_seq (hc_reqs c' t) = Some s \<Longrightarrow> req_seq (hc_reqs c t) = Some s"
    and "\<And>t s. hc_reqs c' t = Q_Wait s \<Longrightarrow> s \<in> hc_pending c' \<or> hc_chan c' s \<noteq> []"
  shows "seq_inv c'"
  using assms unfolding seq_inv_def by metis

lemma seq_inv_call:
  assumes "seq_inv c" "link_inv c" "Suc (hc_issued c) < 2 ^ 64"
  shows "seq_inv (nextSeq t ty opts c)"
proof -
  let ?s = "hc_seqCounter c + 1 :: 64 word"
  have s: "unat ?s = Suc (hc_issued c)"
  proof -
    have "?s = of_nat (Suc (hc_issued c))" using assms(2) by (simp add: link_inv_def)
    then show ?thesis using assms(3) by (simp add: unsigned_of_nat take_bit_nat_eq_self del: of_nat_Suc)
  qed
  have old: "s' \<noteq> ?s \<and> unat s' \<le> Suc (hc_issued c)" if "req_seq (hc_reqs c t') = Some s'" for t' s'
  proof -
    have "unat s' \<le> hc_issued c" using assms(1) that by (simp add: seq_inv_def)
    with s show ?thesis by auto
  qed
  then show ?thesis
    using assms(1) s unfolding seq_inv_def nextSeq_def req_goto_def Let_def
    by (auto split: if_splits)
qed

lemma seq_inv_waits:
  assumes "seq_inv c" "hc_reqs c t = Q_Wait s"
  shows "s \<in> hc_pending c \<or> hc_chan c s \<noteq> []"
  using assms unfolding seq_inv_def by blast

lemma seq_inv_other:
  assumes "seq_inv c" "hc_reqs c t = Q_Wait s" "hc_reqs c u = Q_Wait q" "u \<noteq> t"
  shows "q \<noteq> s"
proof
  assume "q = s"
  then have "req_seq (hc_reqs c u) = Some s" "req_seq (hc_reqs c t) = Some s"
    using assms(2,3) by simp_all
  then show False using assms(1,4) unfolding seq_inv_def by blast
qed

lemma seq_inv_send:
  assumes "seq_inv c" "hc_reqs c t = Q_Send msg"
  shows "seq_inv (send t msg enc c)"
proof (rule seq_inv_same [OF assms(1)])
  show "hc_issued (send t msg enc c) = hc_issued c" by (simp add: send_sel)
  show "req_seq (hc_reqs c u) = Some q" if "req_seq (hc_reqs (send t msg enc c) u) = Some q" for u q
    using that assms(2) by (auto simp: send_def req_goto_def split: option.splits if_splits)
  show "q \<in> hc_pending (send t msg enc c) \<or> hc_chan (send t msg enc c) q \<noteq> []"
    if "hc_reqs (send t msg enc c) u = Q_Wait q" for u q
  proof -
    have "hc_reqs c u = Q_Wait q"
      using that by (auto simp: send_def req_goto_def split: option.splits if_splits)
    from seq_inv_waits [OF assms(1) this] show ?thesis by (simp add: send_sel)
  qed
qed

lemma seq_inv_register:
  assumes "seq_inv c" "hc_reqs c t = Q_Await s"
  shows "seq_inv (await_register t s c)"
proof (rule seq_inv_same [OF assms(1)])
  show "hc_issued (await_register t s c) = hc_issued c" by (simp add: await_register_def req_goto_def)
  show "req_seq (hc_reqs c u) = Some q" if "req_seq (hc_reqs (await_register t s c) u) = Some q" for u q
    using that assms(2) by (auto simp: await_register_def req_goto_def split: if_splits)
  show "q \<in> hc_pending (await_register t s c) \<or> hc_chan (await_register t s c) q \<noteq> []"
    if "hc_reqs (await_register t s c) u = Q_Wait q" for u q
    using that seq_inv_waits [OF assms(1), of u q]
    by (auto simp: await_register_def req_goto_def split: if_splits)
qed

lemma seq_inv_take:
  assumes "seq_inv c" "hc_reqs c t = Q_Wait s"
  shows "seq_inv (req_goto t (Q_Done s r)
    (c\<lparr>hc_chan := (hc_chan c)(s := ms), hc_pending := hc_pending c - {s}\<rparr>))" (is "seq_inv ?c")
proof (rule seq_inv_same [OF assms(1)])
  show "hc_issued ?c = hc_issued c" by (simp add: req_goto_def)
  show "req_seq (hc_reqs c u) = Some q" if "req_seq (hc_reqs ?c u) = Some q" for u q
    using that assms(2) by (auto simp: req_goto_def split: if_splits)
  show "q \<in> hc_pending ?c \<or> hc_chan ?c q \<noteq> []" if "hc_reqs ?c u = Q_Wait q" for u q
  proof -
    have u: "u \<noteq> t" "hc_reqs c u = Q_Wait q" using that by (auto simp: req_goto_def split: if_splits)
    show ?thesis
      using seq_inv_other [OF assms u(2,1)] seq_inv_waits [OF assms(1) u(2)] by (simp add: req_goto_def)
  qed
qed

lemma seq_inv_timeout:
  assumes "seq_inv c" "hc_reqs c t = Q_Wait s"
  shows "seq_inv (await_timeout t s c)"
  using seq_inv_take [OF assms, of _ "hc_chan c s"] by (simp add: await_timeout_def)

lemma deliver_fields:
  assumes "deliver msg c = Some c'"
  shows "hc_pending c' = (if sm_Type msg = ''response'' then hc_pending c - {sm_Seq msg} else hc_pending c)"
    "hc_chan c' = (if sm_Type msg = ''response'' \<and> sm_Seq msg \<in> hc_pending c
       then (hc_chan c)(sm_Seq msg := [msg]) else hc_chan c)"
  using assms by (auto simp: deliver_def Let_def split: if_splits)

lemma deliver_chan:
  assumes "deliver msg c = Some c'" "s \<in> hc_pending c \<or> hc_chan c s \<noteq> []"
  shows "s \<in> hc_pending c' \<or> hc_chan c' s \<noteq> []"
  unfolding deliver_fields [OF assms(1)] using assms(2) by auto

lemma seq_inv_deliver:
  assumes "seq_inv c" "deliver msg c = Some c'"
  shows "seq_inv c'"
proof (rule seq_inv_same [OF assms(1)])
  show "hc_issued c' = hc_issued c" using deliver_sel [OF assms(2)] by simp
  show "req_seq (hc_reqs c u) = Some q" if "req_seq (hc_reqs c' u) = Some q" for u q
    using that deliver_sel [OF assms(2)] by simp
  show "q \<in> hc_pending c' \<or> hc_chan c' q \<noteq> []" if "hc_reqs c' u = Q_Wait q" for u q
    using that deliver_chan [OF assms(2) seq_inv_waits [OF assms(1), of u q]] deliver_sel [OF assms(2)] by simp
qed

lemma seq_inv_close:
  assumes "seq_inv c"
  shows "seq_inv (hc_close q c)"
proof (rule seq_inv_same [OF assms])
  show "p \<in> hc_pending (hc_close q c) \<or> hc_chan (hc_close q c) p \<noteq> []"
    if "hc_reqs (hc_close q c) u = Q_Wait p" for u p
    using that seq_inv_waits [OF assms, of u p] by (auto simp: hc_close_def split: if_splits)
qed (simp_all add: hc_close_sel)

lemma seq_inv_local: "seq_inv (c\<lparr>hc_reader := r\<rparr>) = seq_inv c" "seq_inv (c\<lparr>hc_lost := l\<rparr>) = seq_inv c"
  by (simp_all add: seq_inv_def)

lemma seq_inv_step:
  assumes "seq_inv c" "link_inv c" "hc_step ev c = Some c'" "hc_issued c' < 2 ^ 64"
  shows "seq_inv c'"
  using assms(3)
proof (cases rule: hc_stepE)
  case (call t ty opts)
  then show ?thesis
    using seq_inv_call [OF assms(1,2)] assms(4) by (simp add: nextSeq_def req_goto_def Let_def)
qed (use assms(1) in \<open>simp_all add: seq_inv_send seq_inv_register seq_inv_take seq_inv_timeout
  seq_inv_deliver seq_inv_close seq_inv_local notifyLost_def\<close>)

lemma hc_issued_mono: "hc_step ev c = Some c' \<Longrightarrow> hc_issued c \<le> hc_issued c'"
  by (erule hc_stepE) (auto simp: nextSeq_def send_sel await_register_def await_timeout_def
    req_goto_def hc_close_def notifyLost_def Let_def dest: deliver_sel)

lemma hc_reachable_seq: "hc_reachable c \<Longrightarrow> room_inv c \<and> (hc_issued c < 2 ^ 64 \<longrightarrow> seq_inv c)"
proof (induction rule: hc_reachable.induct)
  case dial
  then show ?case by (simp add: room_inv_def seq_inv_def dialHelper_def)
next
  case (more c ev c')
  then show ?case
    using room_inv_step seq_inv_step hc_reachable_inv hc_issued_mono [OF more(2)] by (meson le_less_trans)
qed

section \<open>Properties\<close>


definition demo_setup :: run_setup where
  "demo_setup = \<lparr>su_mkdir = None, su_listen = None, su_chown = None, su_chmod = None, su_accept = None\<rparr>"

definition demo_lines :: "ClientMessage option list" where
  "demo_lines =
     [Some \<lparr>cm_Type = ''connect'', cm_Seq = 1,
            cm_Options = Some (BuildEngineOptions demo_server ''vpn'' ''auto'' 2 '''')\<rparr>,
      None, Some \<lparr>cm_Type = ''ping'', cm_Seq = 2, cm_Options = None\<rparr>]"


text \<open>C36: replies reach the requests they belong to. In every reachable state of the control
  client, whatever the interleaving of requests, messages, timeouts and closes, a request that
  returned a reply got one with its own sequence number or the notice that the connection was
  closed; and the read loop is never blocked by a channel that nobody empties.\<close>

theorem client_correlates_replies:
  assumes "hc_reachable c"
  shows "(\<forall>t s m. hc_reqs c t = Q_Done s (AwResponse m) \<longrightarrow> sm_Seq m = s \<or> m = closed_msg) \<and>
    (hc_reader c = Scanning \<longrightarrow> (\<forall>msg. hc_step (HMessage msg) c \<noteq> None))"
proof -
  have "done_inv c" "room_inv c"
    using hc_reachable_inv [OF assms] hc_reachable_seq [OF assms] by blast+
  then show ?thesis
    by (auto simp: done_inv_def reply_ok_def room_inv_def hc_step_def deliver_def Let_def)
qed

definition demo_requests :: "hc_event list" where
  "demo_requests =
     [HCall 0 ''connect'' None, HCall 1 ''ping'' None, HSend 1 None, HSend 0 None, HRegister 0, HRegister 1,
      HMessage (response 2 True ''disconnected'' ''''), HMessage (response 1 True ''connected'' ''''),
      HTake 0, HTake 1]"

lemma hc_run_reachable: "hc_reachable c \<Longrightarrow> hc_run evs c = Some c' \<Longrightarrow> hc_reachable c'"
  by (induction evs c rule: hc_run.induct) (auto split: option.splits intro: hc_reachable.more)

theorem client_correlates_replies_witness:
  "\<exists>c m. hc_run demo_requests dialHelper = Some c \<and> hc_reqs c 1 = Q_Done 2 (AwResponse m) \<and> sm_Seq m = 2"
proof -
  have "map_option (\<lambda>c. hc_reqs c 1) (hc_run demo_requests dialHelper) =
      Some (Q_Done 2 (AwResponse (response 2 True ''disconnected'' '''')))"
    by code_simp
  then obtain c where c: "hc_run demo_requests dialHelper = Some c"
    "hc_reqs c 1 = Q_Done 2 (AwResponse (response 2 True ''disconnected'' ''''))"
    by auto
  have "response 2 True ''disconnected'' '''' \<noteq> closed_msg" by (simp add: response_def closed_msg_def)
  with client_correlates_replies [OF hc_run_reachable [OF hc_reachable.dial c(1)]] c
  show ?thesis by blast
qed

text \<open>C37: nobody waits on a closed connection. In every reachable state in which the connection is
  closed (and fewer than \<open>2 ^ 64\<close> requests were made), each waiting request has a reply in its
  channel and can return without its timeout; a new request fails at once. The loss of the
  tunnel is signalled exactly when the read loop ended and the close was not a deliberate
  quit.\<close>

theorem closed_client_wakes_everyone:
  assumes "hc_reachable c" "hc_issued c < 2 ^ 64"
  shows "(hc_closed c \<longrightarrow> (\<forall>t s. hc_reqs c t = Q_Wait s \<longrightarrow> hc_step (HTake t) c \<noteq> None) \<and>
       (\<forall>t s. hc_reqs c t = Q_Await s \<longrightarrow>
          (\<exists>c'. hc_step (HRegister t) c = Some c' \<and> hc_reqs c' t = Q_Done s (AwError errClosed)))) \<and>
    (hc_lost c \<longleftrightarrow> hc_reader c = Ended \<and> \<not> hc_intentional c)"
proof -
  have link: "link_inv c" and seq: "seq_inv c"
    using hc_reachable_inv [OF assms(1)] hc_reachable_seq [OF assms(1)] assms(2) by blast+
  have "hc_chan c s \<noteq> []" if "hc_closed c" "hc_reqs c t = Q_Wait s" for t s
    using that link seq unfolding link_inv_def seq_inv_def by blast
  then show ?thesis
    using link by (auto simp: link_inv_def hc_step_def await_take_def await_register_def req_goto_def
      split: list.split)
qed

theorem closed_client_wakes_everyone_witness:
  "\<exists>c. hc_run [HCall 0 ''connect'' None, HSend 0 None, HRegister 0, HClose False] dialHelper = Some c \<and>
     hc_closed c \<and> hc_step (HTake 0) c \<noteq> None"
proof -
  let ?evs = "[HCall 0 ''connect'' None, HSend 0 None, HRegister 0, HClose False]"
  have "map_option (\<lambda>c. (hc_closed c, hc_reqs c 0, hc_issued c)) (hc_run ?evs dialHelper) =
      Some (True, Q_Wait 1, 1)"
    by code_simp
  then obtain c where c: "hc_run ?evs dialHelper = Some c" "hc_closed c" "hc_reqs c 0 = Q_Wait 1"
    "hc_issued c = 1"
    by auto
  have n: "hc_issued c < 2 ^ 64" by (simp add: c(4))
  have "hc_step (HTake 0) c \<noteq> None"
    using closed_client_wakes_everyone [OF hc_run_reachable [OF hc_reachable.dial c(1)] n] c(2,3) by simp
  then show ?thesis using c(1,2) by (intro exI [of _ c]) simp
qed

text \<open>A reply can be lost. A request registers its channel only after it was sent, so a reply
  that arrives in between is dropped: there is a reachable state in which the helper's
  successful reply to a connect was read (the client counts the tunnel as running) while the
  connect itself returned a timeout.\<close>

theorem early_reply_is_lost:
  "\<exists>c. hc_reachable c \<and> hc_running c \<and> \<not> hc_closed c \<and>
     hc_reqs c 0 = Q_Done 1 (AwError errTimedOut) \<and>
     map cm_Type (hc_sent c) = [''connect''] \<and>
     request_error (AwError errTimedOut) = Some (plain_error ''privileged helper: helper: request timed out'')"
proof -
  let ?evs = "[HCall 0 ''connect'' None, HSend 0 None, HMessage (response 1 True ''connected'' ''''),
      HRegister 0, HTimeout 0]"
  have "map_option (\<lambda>c. (hc_running c, hc_closed c, hc_reqs c 0, map cm_Type (hc_sent c))) (hc_run ?evs dialHelper) =
      Some (True, False, Q_Done 1 (AwError errTimedOut), [''connect''])"
    by code_simp
  then obtain c where "hc_run ?evs dialHelper = Some c" "hc_running c" "\<not> hc_closed c"
    "hc_reqs c 0 = Q_Done 1 (AwError errTimedOut)" "map cm_Type (hc_sent c) = [''connect'']"
    by auto
  moreover have "request_error (AwError errTimedOut) =
      Some (plain_error ''privileged helper: helper: request timed out'')"
    by (simp add: request_error_def wrap_def errTimedOut_def)
  ultimately show ?thesis
    using hc_run_reachable [OF hc_reachable.dial, of ?evs c] by (intro exI [of _ c]) simp
qed

end
