(* ===== verification/Helper_Runner.thy ===== *)
theory Helper_Runner
  imports Helper
begin

text \<open>
  The mode-aware runner of the Linux bridge (\<open>HelperRunner\<close> of \<open>core/tunnel/helper_client.go\<close>): proxy
  mode runs the engine in the process, VPN mode drives the privileged helper over its control client.
  The client is the one of the theory \<open>Helper\<close>: a request of the runner is made by its thread 0 and
  runs under a schedule of the client's events (its own steps, messages of the helper, pings of the
  keepalive); it returns when its request is done. What the operating system answers (the socket
  path, dialling, spawning) is a record; the runtime directory is a clean path. Also here: the command the spawner runs, the socket path and the
  entry point of the helper program.
\<close>

section \<open>Paths and commands\<close>

definition HelperSocketPath :: "string \<Rightarrow> (string \<Rightarrow> goerror option) \<Rightarrow> goerror + string" where
  "HelperSocketPath xdg mkdir =
     (let runtimeDir = (if xdg = '''' then ''/tmp'' else xdg); dir = runtimeDir @ ''/omniproxy''
      in case mkdir dir of Some e \<Rightarrow> Inl e | None \<Rightarrow> Inr (dir @ ''/helper.sock''))"

definition NewHelperSpawner :: "string \<Rightarrow> string \<Rightarrow> string \<Rightarrow> string \<times> string list" where
  "NewHelperSpawner helperPath env socketPath =
     (let (bin, direct) =
            (if helperPath = '''' then (if env \<noteq> '''' then (env, True) else (''omniproxy-helper'', False)) else (helperPath, False));
          args = [''--socket'', socketPath]
      in if direct then (bin, args) else (''pkexec'', bin # args))"

text \<open>The exit status and the error text of the helper program, given what \<open>helperhost.Run\<close> returns.\<close>

definition helper_main :: "string \<Rightarrow> (string \<Rightarrow> goerror option) \<Rightarrow> nat \<times> string" where
  "helper_main socket run =
     (if socket = '''' then (2, ''omniproxy-helper: --socket is required'')
      else (case run socket of Some e \<Rightarrow> (1, ''omniproxy-helper: '' @ err_text e) | None \<Rightarrow> (0, '''')))"

definition helperLevelToEngine :: "string \<Rightarrow> Level" where
  "helperLevelToEngine l =
     (if l = ''trace'' then EngTrace
      else if l = ''debug'' then EngDebug
      else if l = ''warn'' then EngWarn
      else if l = ''error'' \<or> l = ''fatal'' \<or> l = ''panic'' then EngError
      else EngInfo)"

definition helperLevelToModel :: "string \<Rightarrow> LogLevel" where
  "helperLevelToModel l = engineToModelLevel (helperLevelToEngine l)"

section \<open>The runner\<close>

record HelperRunner =
  hr_inProc :: Engine
  hr_client :: "helperClient option"
  hr_cmd :: "nat option"
  hr_spawned :: nat

definition NewHelperAwareRunner :: HelperRunner where
  "NewHelperAwareRunner = \<lparr>hr_inProc = engine_New, hr_client = None, hr_cmd = None, hr_spawned = 0\<rparr>"

record SpawnEnv =
  se_socket :: "goerror + string"
  se_dial :: bool
  se_spawn :: "goerror option"
  se_start :: "goerror option"
  se_dials :: "bool list"

definition alive_client :: "helperClient \<Rightarrow> bool" where
  "alive_client c = (\<not> hc_closed c)"

text \<open>The dials before the deadline, 200 ms apart.\<close>

fun dial_until :: "bool list \<Rightarrow> helperClient option" where
  "dial_until [] = None"
| "dial_until (ok # oks) = (if ok then Some dialHelper else dial_until oks)"

definition errSpawnTimeout :: goerror where
  "errSpawnTimeout = plain_error ''privileged helper: timed out waiting for the helper socket (pkexec cancelled?)''"

definition ensureHelper :: "SpawnEnv \<Rightarrow> HelperRunner \<Rightarrow> (goerror + helperClient) \<times> HelperRunner" where
  "ensureHelper e r =
     (case Option.bind (hr_client r) (\<lambda>c. if alive_client c then Some c else None) of
        Some c \<Rightarrow> (Inr c, r)
      | None \<Rightarrow>
          (case se_socket e of
             Inl err \<Rightarrow> (Inl (wrap ''privileged helper: '' err), r)
           | Inr sock \<Rightarrow>
               if se_dial e then (Inr dialHelper, r\<lparr>hr_client := Some dialHelper\<rparr>)
               else (case se_spawn e of
                       Some err \<Rightarrow> (Inl (wrap ''privileged helper: spawn: '' err), r)
                     | None \<Rightarrow>
                         (case se_start e of
                            Some err \<Rightarrow> (Inl (wrap ''privileged helper: start: '' err), r)
                          | None \<Rightarrow>
                              (let r1 = r\<lparr>hr_cmd := Some (hr_spawned r), hr_spawned := Suc (hr_spawned r)\<rparr>
                               in case dial_until (se_dials e) of
                                    Some c \<Rightarrow> (Inr c, r1\<lparr>hr_client := Some c\<rparr>)
                                  | None \<Rightarrow> (Inl errSpawnTimeout, r1))))))"

text \<open>What may happen to the client while the runner's request waits, or between its calls: not
  another call of the runner and no deliberate close; the keepalive makes only pings.\<close>

definition client_event :: "hc_event \<Rightarrow> bool" where
  "client_event ev =
     (case ev of
        HCall t ty opts \<Rightarrow> t \<noteq> 0 \<and> ty = ''ping'' \<and> opts = None
      | HClose quit \<Rightarrow> \<not> quit
      | _ \<Rightarrow> True)"

definition client_call :: "string \<Rightarrow> Options option \<Rightarrow> hc_event list \<Rightarrow> helperClient \<Rightarrow> (goerror option \<times> helperClient) option" where
  "client_call ty opts sched c =
     (if list_all client_event sched then
        (case hc_run (HCall 0 ty opts # sched) c of
           None \<Rightarrow> None
         | Some c' \<Rightarrow> (case hc_reqs c' 0 of Q_Done s res \<Rightarrow> Some (request_error res, c') | _ \<Rightarrow> None))
      else None)"

definition hr_Start ::
  "BoxLib \<Rightarrow> SpawnEnv \<Rightarrow> hc_event list \<Rightarrow> Options \<Rightarrow> HelperRunner \<Rightarrow> (goerror option \<times> HelperRunner) option" where
  "hr_Start lib e sched opts r =
     (if op_Mode opts = ModeProxy then map_option (\<lambda>(err, eng). (err, r\<lparr>hr_inProc := eng\<rparr>)) (engine_Start lib opts (hr_inProc r))
      else (case ensureHelper e r of
              (Inl err, r1) \<Rightarrow> Some (Some err, r1)
            | (Inr c, r1) \<Rightarrow>
                map_option (\<lambda>(err, c'). (err, r1\<lparr>hr_client := Some c'\<rparr>)) (client_call ''connect'' (Some opts) sched c)))"

definition hr_Stop :: "BoxLib \<Rightarrow> hc_event list \<Rightarrow> HelperRunner \<Rightarrow> (goerror option \<times> HelperRunner) option" where
  "hr_Stop lib sched r =
     (if engine_Running (hr_inProc r) then
        (let (err, eng) = engine_Close lib (hr_inProc r) in Some (err, r\<lparr>hr_inProc := eng\<rparr>))
      else (case hr_client r of
              None \<Rightarrow> Some (None, r)
            | Some c \<Rightarrow>
                map_option (\<lambda>(err, c'). (err, r\<lparr>hr_client := Some c'\<rparr>)) (client_call ''disconnect'' None sched c)))"

definition hr_Running :: "HelperRunner \<Rightarrow> bool" where
  "hr_Running r = (engine_Running (hr_inProc r) \<or> (case hr_client r of None \<Rightarrow> False | Some c \<Rightarrow> hc_running c))"

text \<open>The loss channel: nil, or a channel that is closed or not.\<close>

definition hr_Lost :: "HelperRunner \<Rightarrow> bool option" where
  "hr_Lost r = (if engine_Running (hr_inProc r) then None else map_option hc_lost (hr_client r))"

definition opt_errors :: "goerror option \<Rightarrow> goerror list" where
  "opt_errors e = (case e of None \<Rightarrow> [] | Some x \<Rightarrow> [x])"

text \<open>\<open>Close\<close> returns the errors it joins: of the quit message, of the connection and of the engine.\<close>

definition hr_Close :: "BoxLib \<Rightarrow> goerror option \<Rightarrow> goerror option \<Rightarrow> HelperRunner \<Rightarrow> goerror list \<times> HelperRunner" where
  "hr_Close lib quit conn r =
     (let errs = (case hr_client r of None \<Rightarrow> [] | Some c \<Rightarrow> if hc_closed c then [] else opt_errors quit @ opt_errors conn);
          r1 = r\<lparr>hr_client := None, hr_cmd := None\<rparr>
      in if engine_Running (hr_inProc r1) then
           (let (err, eng) = engine_Close lib (hr_inProc r1) in (errs @ opt_errors err, r1\<lparr>hr_inProc := eng\<rparr>))
         else (errs, r1))"

section \<open>Runs\<close>

datatype runner_step = RStart Options | RStop | RClose | RBackground

record RunnerEnv =
  rv_lib :: BoxLib
  rv_spawn :: SpawnEnv
  rv_sched :: "hc_event list"
  rv_quit :: "goerror option"
  rv_conn :: "goerror option"

fun runner_exec :: "RunnerEnv \<Rightarrow> runner_step \<Rightarrow> HelperRunner \<Rightarrow> HelperRunner option" where
  "runner_exec e (RStart opts) r = map_option snd (hr_Start (rv_lib e) (rv_spawn e) (rv_sched e) opts r)"
| "runner_exec e RStop r = map_option snd (hr_Stop (rv_lib e) (rv_sched e) r)"
| "runner_exec e RClose r = Some (snd (hr_Close (rv_lib e) (rv_quit e) (rv_conn e) r))"
| "runner_exec e RBackground r =
     (if list_all client_event (rv_sched e) then
        (case hr_client r of
           None \<Rightarrow> Some r
         | Some c \<Rightarrow> map_option (\<lambda>c'. r\<lparr>hr_client := Some c'\<rparr>) (hc_run (rv_sched e) c))
      else None)"

fun runner_run :: "(RunnerEnv \<times> runner_step) list \<Rightarrow> HelperRunner \<Rightarrow> HelperRunner option" where
  "runner_run [] r = Some r"
| "runner_run ((e, s) # steps) r = Option.bind (runner_exec e s r) (runner_run steps)"

text \<open>Only options of VPN mode travel to the helper.\<close>

definition vpn_message :: "ClientMessage \<Rightarrow> bool" where
  "vpn_message m = (case cm_Options m of None \<Rightarrow> True | Some opts \<Rightarrow> op_Mode opts \<noteq> ModeProxy)"

definition vpn_only :: "helperClient \<Rightarrow> bool" where
  "vpn_only c \<longleftrightarrow> list_all vpn_message (hc_sent c) \<and> (\<forall>t m. hc_reqs c t = Q_Send m \<longrightarrow> vpn_message m)"

definition no_tun :: "Engine \<Rightarrow> bool" where
  "no_tun e = (case eg_box e of None \<Rightarrow> True | Some b \<Rightarrow> list_all (\<lambda>i. case i of TunInbound a b c d e f g \<Rightarrow> False | _ \<Rightarrow> True) (bo_Inbounds b))"

definition apart :: "HelperRunner \<Rightarrow> bool" where
  "apart r \<longleftrightarrow> no_tun (hr_inProc r) \<and> (case hr_client r of None \<Rightarrow> True | Some c \<Rightarrow> hc_reachable c \<and> vpn_only c)"

lemma close_vpn_only: "vpn_only c \<Longrightarrow> vpn_only (hc_close q c)"
  by (cases "hc_closed c") (auto simp: hc_close_def vpn_only_def vpn_message_def)

lemma step_vpn_only:
  assumes "hc_step ev c = Some c'" "vpn_only c" "\<And>t ty opts. ev = HCall t ty (Some opts) \<Longrightarrow> op_Mode opts \<noteq> ModeProxy"
  shows "vpn_only c'"
proof (cases ev)
  case (HCall t ty opts)
  then show ?thesis using assms
    by (auto simp: hc_step_def nextSeq_def req_goto_def vpn_only_def vpn_message_def Let_def split: req_pc.splits option.splits if_splits)
next
  case (HSend t enc)
  then show ?thesis using assms(1,2)
    by (auto simp: hc_step_def send_def req_goto_def vpn_only_def split: req_pc.splits option.splits if_splits)
next
  case (HMessage msg)
  then show ?thesis using assms(1,2) by (auto simp: hc_step_def deliver_def Let_def vpn_only_def split: if_splits)
next
  case (HClose q)
  then show ?thesis using assms(1,2) close_vpn_only [of c q] by (simp add: hc_step_def)
next
  case HReader
  then show ?thesis using assms(1,2) close_vpn_only [of c False]
    by (auto simp: hc_step_def reader_step_def notifyLost_def vpn_only_def split: reader_pc.splits if_splits)
qed (use assms(1,2) in \<open>auto simp: hc_step_def await_register_def await_take_def await_timeout_def req_goto_def vpn_only_def
      split: req_pc.splits if_splits list.splits\<close>)

lemma run_vpn_only:
  assumes "hc_run evs c = Some c'" "vpn_only c" "list_all client_event evs"
  shows "vpn_only c'"
  using assms by (induction evs arbitrary: c) (auto simp: client_event_def split: option.splits dest: step_vpn_only)

lemma call_vpn_only:
  assumes "client_call ty opts sched c = Some (r, c')" "vpn_only c" "hc_reachable c" "\<And>o1. opts = Some o1 \<Longrightarrow> op_Mode o1 \<noteq> ModeProxy"
  shows "vpn_only c' \<and> hc_reachable c'"
proof -
  obtain c1 where c1: "hc_step (HCall 0 ty opts) c = Some c1" "hc_run sched c1 = Some c'" "list_all client_event sched"
    using assms(1) by (auto simp: client_call_def split: if_splits option.splits req_pc.splits)
  have "vpn_only c1" using step_vpn_only [OF c1(1) assms(2)] assms(4) by simp
  then show ?thesis using run_vpn_only [OF c1(2) _ c1(3)] hc_run_reachable [OF hc_reachable.more [OF assms(3) c1(1)] c1(2)] by simp
qed

lemma dial_vpn_only [simp]: "vpn_only dialHelper" "hc_reachable dialHelper"
  by (simp_all add: vpn_only_def dialHelper_def hc_reachable.dial [unfolded dialHelper_def])

lemma dial_until_Some: "dial_until oks = Some c \<Longrightarrow> c = dialHelper"
  by (induction oks) (auto split: if_splits)

lemma ensure_apart:
  assumes "ensureHelper e r = (x, r')" "apart r"
  shows "apart r'" "x = Inr c \<Longrightarrow> vpn_only c \<and> hc_reachable c"
proof -
  have "apart r' \<and> (\<forall>c. x = Inr c \<longrightarrow> vpn_only c \<and> hc_reachable c)"
    using assms
    by (auto simp: ensureHelper_def apart_def Let_def bind_eq_Some_conv dest: dial_until_Some split: option.splits sum.splits if_splits bind_splits)
  then show "apart r'" "x = Inr c \<Longrightarrow> vpn_only c \<and> hc_reachable c" by auto
qed

lemma start_no_tun: "engine_Start lib opts e = Some (r, e') \<Longrightarrow> op_Mode opts = ModeProxy \<Longrightarrow> no_tun e \<Longrightarrow> no_tun e'"
  by (auto simp: engine_Start_def engine_launch_def buildOptions_def no_tun_def Let_def
      split: if_splits option.splits build_result.splits)

lemma close_no_tun: "no_tun e \<Longrightarrow> no_tun (snd (engine_Close lib e))"
  by (auto simp: engine_Close_def no_tun_def split: option.splits)

lemma runner_exec_apart:
  assumes "runner_exec e s r = Some r'" "apart r"
  shows "apart r'"
proof (cases s)
  case (RStart opts)
  show ?thesis
  proof (cases "op_Mode opts = ModeProxy")
    case True
    then show ?thesis using assms RStart by (auto simp: hr_Start_def apart_def dest: start_no_tun)
  next
    case False
    obtain x r1 where x: "ensureHelper (rv_spawn e) r = (x, r1)" by (rule prod.exhaust)
    note a = ensure_apart [OF x assms(2)]
    show ?thesis
    proof (cases x)
      case (Inl err)
      then show ?thesis using assms(1) RStart False x a(1) by (simp add: hr_Start_def)
    next
      case (Inr c)
      then obtain err c' where c': "client_call ''connect'' (Some opts) (rv_sched e) c = Some (err, c')" "r' = r1\<lparr>hr_client := Some c'\<rparr>"
        using assms(1) RStart False x by (auto simp: hr_Start_def)
      have "vpn_only c' \<and> hc_reachable c'" by (rule call_vpn_only [OF c'(1)]) (use a(2) [OF Inr] False in auto)
      then show ?thesis using a(1) c'(2) by (simp add: apart_def)
    qed
  qed
next
  case RStop
  then show ?thesis using assms close_no_tun [of "hr_inProc r" "rv_lib e"]
    by (auto simp: hr_Stop_def apart_def Let_def dest: call_vpn_only split: if_splits option.splits prod.splits)
next
  case RClose
  then show ?thesis using assms close_no_tun [of "hr_inProc r" "rv_lib e"]
    by (auto simp: hr_Close_def apart_def Let_def split: if_splits option.splits prod.splits)
next
  case RBackground
  then show ?thesis using assms run_vpn_only hc_run_reachable
    by (auto simp: apart_def split: if_splits option.splits)
qed

lemma runner_run_apart: "runner_run steps r = Some r' \<Longrightarrow> apart r \<Longrightarrow> apart r'"
proof (induction steps r rule: runner_run.induct)
  case (2 e s steps r)
  then obtain r1 where "runner_exec e s r = Some r1" "runner_run steps r1 = Some r'" by (auto simp: bind_eq_Some_conv)
  then show ?case using 2 runner_exec_apart by blast
qed simp

section \<open>Properties\<close>

lemma Close_empties:
  "\<not> hr_Running (snd (hr_Close lib q k r)) \<and> hr_client (snd (hr_Close lib q k r)) = None \<and> hr_cmd (snd (hr_Close lib q k r)) = None \<and>
   hr_Close lib q' k' (snd (hr_Close lib q k r)) = ([], snd (hr_Close lib q k r))"
proof -
  obtain err eng where e: "engine_Close lib (hr_inProc r) = (err, eng)" by (rule prod.exhaust)
  then have "\<not> engine_Running eng" using engine_Close_running [of lib "hr_inProc r"] by simp
  then show ?thesis using e by (auto simp: hr_Close_def hr_Running_def Let_def)
qed


definition demo_spawn :: SpawnEnv where
  "demo_spawn = \<lparr>se_socket = Inr ''/run/omniproxy/helper.sock'', se_dial = False, se_spawn = None, se_start = None, se_dials = [False, True]\<rparr>"

definition demo_connected :: "hc_event list" where
  "demo_connected = [HSend 0 None, HRegister 0, HMessage (response 1 True ''connected'' ''''), HTake 0]"

definition demo_renv :: RunnerEnv where
  "demo_renv = \<lparr>rv_lib = demo_lib, rv_spawn = demo_spawn, rv_sched = demo_connected, rv_quit = None, rv_conn = None\<rparr>"

lemma demo_started:
  assumes "op_Mode opts = ModeVPN"
  shows "\<exists>c. hr_Start demo_lib demo_spawn demo_connected opts NewHelperAwareRunner =
      Some (None, \<lparr>hr_inProc = engine_New, hr_client = Some c, hr_cmd = Some 0, hr_spawned = 1\<rparr>) \<and>
    hc_running c \<and> \<not> hc_closed c \<and> hc_seqCounter c = 1 \<and> (\<exists>s x. hc_reqs c 0 = Q_Done s x)"
  using assms
  by (simp add: hr_Start_def ensureHelper_def NewHelperAwareRunner_def demo_spawn_def client_call_def demo_connected_def client_event_def
    hc_step_def dialHelper_def nextSeq_def req_goto_def send_def await_register_def deliver_def response_def await_take_def
    request_error_def Let_def)


text \<open>The runner under the tunnel manager; a stop that does not return is left out.\<close>

definition helper_ops :: "BoxLib \<Rightarrow> SpawnEnv \<Rightarrow> hc_event list \<Rightarrow> hc_event list \<Rightarrow> HelperRunner RunnerOps" where
  "helper_ops lib e starting stopping =
     \<lparr>ro_Start = hr_Start lib e starting, ro_Stop = (\<lambda>r. case hr_Stop lib stopping r of Some x \<Rightarrow> x | None \<Rightarrow> (None, r)),
      ro_Running = hr_Running\<rparr>"

definition demo_timeout :: "hc_event list" where
  "demo_timeout = [HSend 0 None, HRegister 0, HTimeout 0]"

text \<open>C34: A stop that fails is forgotten. Over the helper the manager can end inactive while the tunnel
  is up: a disconnect that is not answered in time returns an error, the client still counts the
  tunnel as running, and the manager has forgotten its profile.\<close>

theorem failed_stop_is_forgotten:
  "\<exists>m m'. manager_Start (helper_ops demo_lib demo_spawn demo_connected demo_timeout) p ModeVPN (NewManager NewHelperAwareRunner) = Some (None, m) \<and>
     Active m \<and>
     manager_Stop (helper_ops demo_lib demo_spawn demo_connected demo_timeout) m = (Some (wrap ''privileged helper: '' errTimedOut), m') \<and>
     \<not> Active m' \<and> hr_Running (mg_runner m')"
proof -
  let ?ops = "helper_ops demo_lib demo_spawn demo_connected demo_timeout"
  let ?o = "manager_options p ModeVPN (NewManager NewHelperAwareRunner)"
  have "op_Mode ?o = ModeVPN" by (simp add: manager_options_def BuildEngineOptions_def Let_def)
  then obtain c s x where c: "hr_Start demo_lib demo_spawn demo_connected ?o NewHelperAwareRunner =
      Some (None, \<lparr>hr_inProc = engine_New, hr_client = Some c, hr_cmd = Some 0, hr_spawned = 1\<rparr>)"
    "hc_running c" "\<not> hc_closed c" "hc_reqs c 0 = Q_Done s x" using demo_started by blast
  let ?r = "\<lparr>hr_inProc = engine_New, hr_client = Some c, hr_cmd = Some 0, hr_spawned = 1\<rparr>"
  obtain c' where c': "client_call ''disconnect'' None demo_timeout c = Some (Some (wrap ''privileged helper: '' errTimedOut), c')" "hc_running c'"
    using c(2-4) by (simp add: client_call_def demo_timeout_def client_event_def hc_step_def nextSeq_def req_goto_def send_def
      await_register_def await_timeout_def request_error_def Let_def)
  have "hr_Stop demo_lib demo_timeout ?r = Some (Some (wrap ''privileged helper: '' errTimedOut), ?r\<lparr>hr_client := Some c'\<rparr>)"
    using c' by (simp add: hr_Stop_def engine_Running_def engine_New_def)
  then show ?thesis using c(1) c'(2)
    by (auto simp: manager_Start_def manager_Stop_def helper_ops_def NewManager_def Active_def hr_Running_def)
qed

end
