(* ===== verification/Store_Schema.thy ===== *)
theory Store_Schema
  imports Server_Rows
begin

text \<open>
  The database behind the repository (\<open>core/store/store.go\<close>, \<open>migrations.go\<close>): opening it, and the
  forward-only migrations of its schema, each in a transaction of its own that also records its version.
  The SQL library is a parameter, one function per call the code makes; \<open>schema_db\<close> states what the
  code relies on. The table of \<open>migrateV1\<close> is a list of columns.
\<close>

section \<open>The SQL library\<close>

record column =
  cl_name :: string
  cl_type :: string
  cl_constraint :: string

record ('d, 't) SqlConn =
  cn_Open :: "string \<Rightarrow> 'd \<Rightarrow> goerror option"
  cn_Ping :: "'d \<Rightarrow> goerror option"
  cn_Close :: "'d \<Rightarrow> goerror option"
  cn_InitMigrations :: "'d \<Rightarrow> goerror option \<times> 'd"
  cn_CountVersion :: "int \<Rightarrow> 'd \<Rightarrow> goerror + int"
  cn_Begin :: "'d \<Rightarrow> goerror + 't"
  cn_CreateServers :: "column list \<Rightarrow> (string \<times> string) list \<Rightarrow> 't \<Rightarrow> goerror option \<times> 't"
  cn_RecordVersion :: "int \<Rightarrow> string \<Rightarrow> 't \<Rightarrow> goerror option \<times> 't"
  cn_Commit :: "'t \<Rightarrow> 'd \<Rightarrow> goerror option \<times> 'd"

section \<open>Migrations\<close>

record 't migration =
  mi_version :: int
  mi_name :: string
  mi_up :: "'t \<Rightarrow> goerror option \<times> 't"

definition required :: "string \<Rightarrow> string \<Rightarrow> column" where
  "required name type = \<lparr>cl_name = name, cl_type = type, cl_constraint = ''NOT NULL''\<rparr>"

definition text_default :: "string \<Rightarrow> string \<Rightarrow> column" where
  "text_default dflt name = \<lparr>cl_name = name, cl_type = ''TEXT'', cl_constraint = ''NOT NULL DEFAULT '' @ CHR 0x27 # dflt @ [CHR 0x27]\<rparr>"

definition int_default :: "string \<Rightarrow> string \<Rightarrow> column" where
  "int_default dflt name = \<lparr>cl_name = name, cl_type = ''INTEGER'', cl_constraint = ''NOT NULL DEFAULT '' @ dflt\<rparr>"

definition v1_columns :: "column list" where
  "v1_columns =
     [\<lparr>cl_name = ''id'', cl_type = ''TEXT'', cl_constraint = ''PRIMARY KEY''\<rparr>, required ''name'' ''TEXT'', required ''protocol'' ''TEXT'',
      required ''address'' ''TEXT'', required ''port'' ''INTEGER'', text_default '''' ''username'', text_default '''' ''password'',
      text_default '''' ''cipher'', text_default '''' ''uuid'', text_default '''' ''flow'', text_default '''' ''security'',
      int_default ''0'' ''global_padding'', int_default ''0'' ''authenticated_length'', text_default '''' ''packet_encoding'',
      int_default ''0'' ''tls_enabled'', int_default ''0'' ''tls_allow_insecure'', text_default '''' ''tls_server_name'',
      text_default ''[]'' ''tls_alpn'', text_default '''' ''tls_fingerprint'', text_default '''' ''transport_type'',
      text_default '''' ''transport_path'', text_default '''' ''transport_host'', int_default ''0'' ''transport_max_early_data'',
      text_default '''' ''transport_early_data_header_name'', text_default '''' ''ssh_user'', text_default '''' ''ssh_host_key'',
      text_default '''' ''ssh_private_key'', int_default ''0'' ''reality_enabled'', text_default '''' ''reality_public_key'',
      text_default '''' ''reality_short_id'', text_default '''' ''reality_spider_x'', int_default ''1'' ''enabled'',
      text_default ''[]'' ''tags'', text_default '''' ''group_name'', int_default ''0'' ''favorite'', int_default ''0'' ''last_latency_ms'',
      text_default '''' ''last_tested_at'', required ''created_at'' ''TEXT'', required ''updated_at'' ''TEXT'',
      text_default ''[]'' ''secret_refs'']"

definition v1_indexes :: "(string \<times> string) list" where
  "v1_indexes =
     [(''idx_servers_protocol'', ''protocol''), (''idx_servers_group'', ''group_name''), (''idx_servers_favorite'', ''favorite''),
      (''idx_servers_enabled'', ''enabled'')]"

definition migrateV1 :: "('d, 't) SqlConn \<Rightarrow> 't \<Rightarrow> goerror option \<times> 't" where
  "migrateV1 ops tx = cn_CreateServers ops v1_columns v1_indexes tx"

definition migrations :: "('d, 't) SqlConn \<Rightarrow> 't migration list" where
  "migrations ops = [\<lparr>mi_version = 1, mi_name = ''servers'', mi_up = migrateV1 ops\<rparr>]"

definition migration_error :: "string \<Rightarrow> 't migration \<Rightarrow> goerror \<Rightarrow> goerror" where
  "migration_error what m e = wrap (''store: '' @ what @ '' migration '' @ Itoa (mi_version m) @ '': '') e"

definition db_apply :: "('d, 't) SqlConn \<Rightarrow> gotime \<Rightarrow> 't migration \<Rightarrow> 'd \<Rightarrow> goerror option \<times> 'd" where
  "db_apply ops now m d =
     (case cn_Begin ops d of
        Inl e \<Rightarrow> (Some (migration_error ''begin'' m e), d)
      | Inr tx \<Rightarrow>
          (case mi_up m tx of
             (Some e, tx1) \<Rightarrow> (Some (wrap (''store: migration '' @ Itoa (mi_version m) @ '' ('' @ mi_name m @ ''): '') e), d)
           | (None, tx1) \<Rightarrow>
               (case cn_RecordVersion ops (mi_version m) (FormatRFC3339 now) tx1 of
                  (Some e, tx2) \<Rightarrow> (Some (migration_error ''record'' m e), d)
                | (None, tx2) \<Rightarrow>
                    (case cn_Commit ops tx2 d of
                       (Some e, d') \<Rightarrow> (Some (migration_error ''commit'' m e), d')
                     | (None, d') \<Rightarrow> (None, d')))))"

fun migrate_loop :: "('d, 't) SqlConn \<Rightarrow> gotime \<Rightarrow> 't migration list \<Rightarrow> 'd \<Rightarrow> goerror option \<times> 'd" where
  "migrate_loop ops now [] d = (None, d)"
| "migrate_loop ops now (m # ms) d =
     (case cn_CountVersion ops (mi_version m) d of
        Inl e \<Rightarrow> (Some (migration_error ''check'' m e), d)
      | Inr applied \<Rightarrow>
          if applied > 0 then migrate_loop ops now ms d
          else (case db_apply ops now m d of
                  (Some e, d') \<Rightarrow> (Some e, d')
                | (None, d') \<Rightarrow> migrate_loop ops now ms d'))"

definition db_migrate :: "('d, 't) SqlConn \<Rightarrow> gotime \<Rightarrow> 't migration list \<Rightarrow> 'd \<Rightarrow> goerror option \<times> 'd" where
  "db_migrate ops now ms d =
     (case cn_InitMigrations ops d of
        (Some e, d') \<Rightarrow> (Some (wrap ''store: init migrations table: '' e), d')
      | (None, d') \<Rightarrow> migrate_loop ops now ms d')"

definition store_dsn :: "string \<Rightarrow> string" where
  "store_dsn path = ''file:'' @ path @ ''?_pragma=busy_timeout(5000)&_pragma=journal_mode(WAL)''"

definition store_Open :: "('d, 't) SqlConn \<Rightarrow> gotime \<Rightarrow> 't migration list \<Rightarrow> string \<Rightarrow> 'd \<Rightarrow> goerror option \<times> 'd" where
  "store_Open ops now ms path d =
     (case cn_Open ops (store_dsn path) d of
        Some e \<Rightarrow> (Some (wrap (''store: open '' @ path @ '': '') e), d)
      | None \<Rightarrow>
          (case cn_Ping ops d of
             Some e \<Rightarrow> (Some (wrap (''store: ping '' @ path @ '': '') e), d)
           | None \<Rightarrow> db_migrate ops now ms d))"

definition store_Close :: "('d, 't) SqlConn \<Rightarrow> 'd option \<Rightarrow> goerror option" where
  "store_Close ops d = (case d of None \<Rightarrow> None | Some x \<Rightarrow> cn_Close ops x)"

lemma version_index:
  assumes "distinct (map mi_version ms)" "i < length ms" "k \<le> length ms"
  shows "(mi_version (ms ! i) \<in> mi_version ` set (take k ms)) = (i < k)"
proof -
  have img: "mi_version ` set (take k ms) = (!) (map mi_version ms) ` {0..<k}"
    using nth_image [of k ms] assms(3) by (force simp: image_iff)
  have "inj_on ((!) (map mi_version ms)) {0..<length ms}" using assms(1) by (simp add: inj_on_nth)
  then have "((!) (map mi_version ms) i \<in> (!) (map mi_version ms) ` {0..<k}) = (i \<in> {0..<k})"
    by (rule inj_on_image_mem_iff) (use assms(2,3) in auto)
  then show ?thesis using assms(2) by (simp only: img) simp
qed

section \<open>The contract\<close>

locale schema_db =
  fixes ops :: "('d, 't) SqlConn"
    and view :: "'d \<Rightarrow> int set \<times> 's"
    and txview :: "'t \<Rightarrow> int set \<times> 's"
  assumes init_view: "cn_InitMigrations ops d = (r, d') \<Longrightarrow> view d' = view d"
    and count_view: "cn_CountVersion ops v d = Inr n \<Longrightarrow> (0 < n) = (v \<in> fst (view d))"
    and begin_view: "cn_Begin ops d = Inr tx \<Longrightarrow> txview tx = view d"
    and record_view: "cn_RecordVersion ops v at tx = (None, tx') \<Longrightarrow> txview tx' = (insert v (fst (txview tx)), snd (txview tx))"
    and commit_view: "cn_Commit ops tx d = (None, d') \<Longrightarrow> view d' = txview tx"
    and commit_failed: "cn_Commit ops tx d = (Some e, d') \<Longrightarrow> view d' = view d"
begin

text \<open>The database after the first \<open>k\<close> migrations, given what each does to the schema.\<close>

definition applied :: "('t migration \<Rightarrow> 's \<Rightarrow> 's) \<Rightarrow> 't migration list \<Rightarrow> 's \<Rightarrow> nat \<Rightarrow> 'd \<Rightarrow> bool" where
  "applied eff ms s0 k d \<longleftrightarrow> k \<le> length ms \<and> view d = (mi_version ` set (take k ms), fold eff (take k ms) s0)"

lemma apply_effect:
  assumes "db_apply ops now (ms ! k) d = (r, d')" "applied eff ms s0 k d" "k < length ms"
    and "\<And>m tx tx'. m \<in> set ms \<Longrightarrow> mi_up m tx = (None, tx') \<Longrightarrow> txview tx' = (fst (txview tx), eff m (snd (txview tx)))"
  shows "applied eff ms s0 (if r = None then Suc k else k) d'"
proof (cases r)
  case (Some e)
  then have "view d' = view d" using assms(1) commit_failed by (auto simp: db_apply_def split: sum.splits prod.splits option.splits)
  then show ?thesis using Some assms(2) by (simp add: applied_def)
next
  case None
  then obtain tx tx1 tx2 where t: "cn_Begin ops d = Inr tx" "mi_up (ms ! k) tx = (None, tx1)"
    "cn_RecordVersion ops (mi_version (ms ! k)) (FormatRFC3339 now) tx1 = (None, tx2)" "cn_Commit ops tx2 d = (None, d')"
    using assms(1) by (auto simp: db_apply_def split: sum.splits prod.splits option.splits)
  have "ms ! k \<in> set ms" using assms(3) by simp
  then show ?thesis
    using None assms(2,3) begin_view [OF t(1)] assms(4) [OF _ t(2)] record_view [OF t(3)] commit_view [OF t(4)]
    by (simp add: applied_def take_Suc_conv_app_nth)
qed

lemma loop_effect:
  assumes "migrate_loop ops now (drop i (take n ms)) d = (r, d')" "applied eff ms s0 k d" "i \<le> k" "n \<le> length ms"
    and up: "\<And>m tx tx'. m \<in> set ms \<Longrightarrow> mi_up m tx = (None, tx') \<Longrightarrow> txview tx' = (fst (txview tx), eff m (snd (txview tx)))"
    and dist: "distinct (map mi_version ms)"
  shows "\<exists>k'. k \<le> k' \<and> applied eff ms s0 k' d' \<and> (r = None \<longrightarrow> n \<le> k')"
  using assms(1-4)
proof (induction "n - i" arbitrary: i k d)
  case 0
  then have "drop i (take n ms) = []" "n \<le> k" by simp_all
  then show ?case using 0(2,3) by (intro exI [of _ k]) simp
next
  case (Suc x)
  then have "i < n" "x = n - Suc i" by linarith+
  then have i: "drop i (take n ms) = ms ! i # drop (Suc i) (take n ms)" "i < length ms"
    using Cons_nth_drop_Suc [of i "take n ms"] Suc.prems(4) by simp_all
  have rest: "\<exists>k'. l \<le> k' \<and> applied eff ms s0 k' d' \<and> (r = None \<longrightarrow> n \<le> k')"
    if "migrate_loop ops now (drop (Suc i) (take n ms)) e = (r, d')" "applied eff ms s0 l e" "Suc i \<le> l" for e l
    using Suc.hyps(1) [OF \<open>x = n - Suc i\<close> that Suc.prems(4)] .
  show ?case
  proof (cases "cn_CountVersion ops (mi_version (ms ! i)) d")
    case (Inl e)
    then have "d' = d" "r \<noteq> None" using Suc.prems(1) i(1) by auto
    then show ?thesis using Suc.prems(2) by (intro exI [of _ k]) auto
  next
    case (Inr c)
    have "(mi_version (ms ! i) \<in> mi_version ` set (take k ms)) = (i < k)"
      using version_index [OF dist i(2), of k] Suc.prems(2) by (simp add: applied_def)
    then have c: "(0 < c) = (i < k)" using count_view [OF Inr] Suc.prems(2) by (simp add: applied_def)
    show ?thesis
    proof (cases "i < k")
      case True
      then show ?thesis using rest [of d k] Suc.prems(1,2) i(1) Inr c by simp
    next
      case False
      then have k: "k = i" using Suc.prems(3) by simp
      obtain r1 d1 where a: "db_apply ops now (ms ! i) d = (r1, d1)" by (rule prod.exhaust)
      have e: "applied eff ms s0 (if r1 = None then Suc k else k) d1"
        by (rule apply_effect [OF _ Suc.prems(2) _ up]) (use a k i(2) in simp_all)
      show ?thesis
      proof (cases r1)
        case None
        then have "migrate_loop ops now (drop (Suc i) (take n ms)) d1 = (r, d')" using Suc.prems(1) i(1) Inr c a False by simp
        then obtain k' where "Suc k \<le> k'" "applied eff ms s0 k' d'" "r = None \<longrightarrow> n \<le> k'" using rest [of d1 "Suc k"] e k None by auto
        then show ?thesis by (intro exI [of _ k']) simp
      next
        case (Some y)
        then have "d' = d1" "r = Some y" using Suc.prems(1) i(1) Inr c a False by simp_all
        then show ?thesis using e Some by (intro exI [of _ k]) simp
      qed
    qed
  qed
qed

lemma Open_effect:
  assumes "store_Open ops now (take n ms) path d = (r, d')" "applied eff ms s0 k d" "n \<le> length ms"
    and "\<And>m tx tx'. m \<in> set ms \<Longrightarrow> mi_up m tx = (None, tx') \<Longrightarrow> txview tx' = (fst (txview tx), eff m (snd (txview tx)))"
    and "distinct (map mi_version ms)"
  shows "\<exists>k'. k \<le> k' \<and> applied eff ms s0 k' d' \<and> (r = None \<longrightarrow> n \<le> k')"
proof -
  consider "r \<noteq> None" "view d' = view d" | d1 where "view d1 = view d" "migrate_loop ops now (take n ms) d1 = (r, d')"
    using assms(1) init_view by (fastforce simp: store_Open_def db_migrate_def split: option.splits prod.splits)
  then show ?thesis
  proof cases
    case 1
    then show ?thesis using assms(2) by (intro exI [of _ k]) (auto simp: applied_def)
  next
    case (2 d1)
    then show ?thesis using loop_effect [of now 0 n ms d1 r d' eff s0 k] assms(2-5) by (simp add: applied_def)
  qed
qed

end

section \<open>A database file\<close>

text \<open>The recorded versions and the columns and indexes of the table \<open>servers\<close>; any call can fail, as
  the argument says. A transaction works on a copy.\<close>

record SchemaFile =
  sf_versions :: "int list"
  sf_servers :: "(column list \<times> (string \<times> string) list) option"

definition empty_file :: SchemaFile where
  "empty_file = \<lparr>sf_versions = [], sf_servers = None\<rparr>"

definition file_conn :: "(string \<Rightarrow> goerror option) \<Rightarrow> (SchemaFile, SchemaFile) SqlConn" where
  "file_conn fault =
     \<lparr>cn_Open = (\<lambda>dsn d. fault ''open''), cn_Ping = (\<lambda>d. fault ''ping''), cn_Close = (\<lambda>d. fault ''close''),
      cn_InitMigrations = (\<lambda>d. (fault ''init'', d)),
      cn_CountVersion = (\<lambda>v d. case fault ''count'' of Some e \<Rightarrow> Inl e | None \<Rightarrow> Inr (int (count_list (sf_versions d) v))),
      cn_Begin = (\<lambda>d. case fault ''begin'' of Some e \<Rightarrow> Inl e | None \<Rightarrow> Inr d),
      cn_CreateServers =
        (\<lambda>cols idx tx. case fault ''create'' of Some e \<Rightarrow> (Some e, tx)
           | None \<Rightarrow> (None, tx\<lparr>sf_servers := Some (case sf_servers tx of None \<Rightarrow> (cols, idx) | Some s \<Rightarrow> s)\<rparr>)),
      cn_RecordVersion =
        (\<lambda>v at tx. case fault ''record'' of Some e \<Rightarrow> (Some e, tx) | None \<Rightarrow> (None, tx\<lparr>sf_versions := sf_versions tx @ [v]\<rparr>)),
      cn_Commit = (\<lambda>tx d. case fault ''commit'' of Some e \<Rightarrow> (Some e, d) | None \<Rightarrow> (None, tx))\<rparr>"

definition file_view :: "SchemaFile \<Rightarrow> int set \<times> (column list \<times> (string \<times> string) list) option" where
  "file_view d = (set (sf_versions d), sf_servers d)"

lemma count_list_pos: "0 < count_list xs x \<longleftrightarrow> x \<in> set xs"
  using count_list_0_iff [of xs x] by auto

interpretation fc: schema_db "file_conn fault" file_view file_view for fault
  by unfold_locales (auto simp: file_conn_def file_view_def count_list_pos split: option.splits prod.splits)

text \<open>Opening again and again, each time with other failures.\<close>

fun opens_run :: "((string \<Rightarrow> goerror option) \<times> gotime \<times> string) list \<Rightarrow> SchemaFile \<Rightarrow> goerror option list \<times> SchemaFile" where
  "opens_run [] d = ([], d)"
| "opens_run ((fault, now, path) # os) d =
     (let (r, d') = store_Open (file_conn fault) now (migrations (file_conn fault)) path d; (rs, d'') = opens_run os d'
      in (r # rs, d''))"

definition create_servers :: "SchemaFile migration \<Rightarrow> (column list \<times> (string \<times> string) list) option \<Rightarrow> (column list \<times> (string \<times> string) list) option" where
  "create_servers m s = Some (case s of None \<Rightarrow> (v1_columns, v1_indexes) | Some x \<Rightarrow> x)"

lemma Open_file:
  assumes "store_Open (file_conn fault) now (migrations (file_conn fault)) path d = (r, d')"
    and "file_view d = ({}, None) \<or> file_view d = ({1}, Some (v1_columns, v1_indexes))"
  shows "file_view d' = file_view d \<or> file_view d' = ({1}, Some (v1_columns, v1_indexes))"
    and "r = None \<Longrightarrow> file_view d' = ({1}, Some (v1_columns, v1_indexes))"
proof -
  let ?ms = "migrations (file_conn fault)"
  have two: "fc.applied create_servers ?ms None k x \<longleftrightarrow>
      k = 0 \<and> file_view x = ({}, None) \<or> k = 1 \<and> file_view x = ({1}, Some (v1_columns, v1_indexes))" for k x
    by (cases k) (auto simp: fc.applied_def migrations_def create_servers_def)
  obtain k where "fc.applied create_servers ?ms None k d" using assms(2) two by blast
  moreover have "file_view tx' = (fst (file_view tx), create_servers m (snd (file_view tx)))"
    if "m \<in> set ?ms" "mi_up m tx = (None, tx')" for m tx tx'
    using that by (auto simp: migrations_def migrateV1_def file_conn_def file_view_def create_servers_def split: option.splits)
  ultimately obtain k' where "k \<le> k'" "fc.applied create_servers ?ms None k' d'" "r = None \<longrightarrow> 1 \<le> k'" "fc.applied create_servers ?ms None k d"
    using fc.Open_effect [of fault now 1 ?ms path d r d' create_servers None k] assms(1) by (auto simp: migrations_def)
  then show "file_view d' = file_view d \<or> file_view d' = ({1}, Some (v1_columns, v1_indexes))"
    "r = None \<Longrightarrow> file_view d' = ({1}, Some (v1_columns, v1_indexes))" using two by auto
qed

lemma opens_file:
  assumes "opens_run os d = (rs, d')" "file_view d = ({}, None) \<or> file_view d = ({1}, Some (v1_columns, v1_indexes))"
  shows "file_view d' = file_view d \<or> file_view d' = ({1}, Some (v1_columns, v1_indexes))"
    and "None \<in> set rs \<Longrightarrow> file_view d' = ({1}, Some (v1_columns, v1_indexes))"
proof -
  have "(file_view d' = file_view d \<or> file_view d' = ({1}, Some (v1_columns, v1_indexes))) \<and>
    (None \<in> set rs \<longrightarrow> file_view d' = ({1}, Some (v1_columns, v1_indexes)))"
    using assms
  proof (induction os d arbitrary: rs rule: opens_run.induct)
    case (2 fault now path os d)
    obtain r d1 where o: "store_Open (file_conn fault) now (migrations (file_conn fault)) path d = (r, d1)" by (rule prod.exhaust)
    obtain rs' where rs': "opens_run os d1 = (rs', d')" "rs = r # rs'" using 2(2) o by (auto simp: Let_def split: prod.splits)
    note v = Open_file [OF o 2(3)]
    then have "file_view d1 = ({}, None) \<or> file_view d1 = ({1}, Some (v1_columns, v1_indexes))" using 2(3) by auto
    with 2(1) [OF o [symmetric] refl rs'(1)] v rs'(2) show ?case by auto
  qed simp
  then show "file_view d' = file_view d \<or> file_view d' = ({1}, Some (v1_columns, v1_indexes))"
    "None \<in> set rs \<Longrightarrow> file_view d' = ({1}, Some (v1_columns, v1_indexes))" by blast+
qed

text \<open>What a row must be for a table: a value of the right type in every column.\<close>

definition row_fits :: "column list \<Rightarrow> row \<Rightarrow> bool" where
  "row_fits cols r =
     list_all2 (\<lambda>c v. case v of SText s \<Rightarrow> cl_type c = ''TEXT'' | SInt i \<Rightarrow> cl_type c = ''INTEGER'') cols r"

lemma values_fit: "row_fits v1_columns (serverValues p refs)"
  by (simp add: row_fits_def v1_columns_def serverValues_def required_def text_default_def int_default_def)

lemma schema_columns:
  "map cl_name v1_columns = serverColumnList"
  "int_columns = filter (\<lambda>i. cl_type (v1_columns ! i) = ''INTEGER'') [0..<length v1_columns]"
  by code_simp+


definition no_fault :: "string \<Rightarrow> goerror option" where
  "no_fault s = None"

definition commit_fault :: "string \<Rightarrow> goerror option" where
  "commit_fault s = (if s = ''commit'' then Some (plain_error ''disk full'') else None)"


end
