(* ===== verification/Runtime_Services.thy ===== *)
theory Runtime_Services
  imports Bridge_API Tunnel
begin

text \<open>
  Services around the engine and the logger: the registry of protocols the engine's library is given
  (\<open>engine/registry.go\<close>), the way of an engine message into the log (\<open>engine/log.go\<close>,
  \<open>engineLogSink\<close> of \<open>core/tunnel/runner.go\<close>), the printf-style methods of the logger and the lines of its
  console sink (\<open>core/log/logger.go\<close>), and the latency tester (\<open>core/tunnel/latency.go\<close>). The texts
  \<open>fmt.Sprintf\<close> produces are arguments.
\<close>

section \<open>Registries\<close>

text \<open>Pairs of a protocol's type and of the Go type of its options.\<close>

definition inboundRegistry :: "(string \<times> string) list" where
  "inboundRegistry = [(''tun'', ''TunInboundOptions''), (''mixed'', ''HTTPMixedInboundOptions'')]"

definition outboundRegistry :: "(string \<times> string) list" where
  "outboundRegistry =
     [(''direct'', ''DirectOutboundOptions''), (''vless'', ''VLESSOutboundOptions''), (''vmess'', ''VMessOutboundOptions''),
      (''shadowsocks'', ''ShadowsocksOutboundOptions''), (''socks'', ''SOCKSOutboundOptions''), (''http'', ''HTTPOutboundOptions''),
      (''ssh'', ''SSHOutboundOptions''), (''trojan'', ''TrojanOutboundOptions''), (''block'', ''StubOptions'')]"

text \<open>The types of DNS servers for which a transport is registered.\<close>

definition dnsTransportRegistry :: "string list" where
  "dnsTransportRegistry = [''local'', ''udp'']"

fun outbound_options :: "OutboundOptions \<Rightarrow> string" where
  "outbound_options DirectOut = ''DirectOutboundOptions''"
| "outbound_options StubOut = ''StubOptions''"
| "outbound_options (VLESSOut a b c d e f) = ''VLESSOutboundOptions''"
| "outbound_options (VMessOut a b c d e f g h) = ''VMessOutboundOptions''"
| "outbound_options (TrojanOut a b c d) = ''TrojanOutboundOptions''"
| "outbound_options (ShadowsocksOut a b c) = ''ShadowsocksOutboundOptions''"
| "outbound_options (SOCKSOut a b c d) = ''SOCKSOutboundOptions''"
| "outbound_options (HTTPOut a b c d) = ''HTTPOutboundOptions''"
| "outbound_options (SSHOut a b c d e f) = ''SSHOutboundOptions''"

fun inbound_options :: "Inbound \<Rightarrow> string \<times> string" where
  "inbound_options (TunInbound a b c d e f g) = (''tun'', ''TunInboundOptions'')"
| "inbound_options (MixedInbound a b c) = (''mixed'', ''HTTPMixedInboundOptions'')"

definition registered :: "BoxOptions \<Rightarrow> bool" where
  "registered b \<longleftrightarrow>
     list_all (\<lambda>x. (oc_Type x, outbound_options (oc_Options x)) \<in> set outboundRegistry) (bo_Outbounds b) \<and>
     list_all (\<lambda>x. inbound_options x \<in> set inboundRegistry) (bo_Inbounds b) \<and>
     (case bo_DNS b of None \<Rightarrow> True | Some d \<Rightarrow> list_all (\<lambda>s. ds_Type s \<in> set dnsTransportRegistry) (do_Servers d))"

text \<open>Every name in a configuration refers to something in it.\<close>

definition resolved :: "BoxOptions \<Rightarrow> bool" where
  "resolved b \<longleftrightarrow>
     (let tags = map oc_Tag (bo_Outbounds b)
      in distinct tags \<and> bo_Final b \<in> set tags \<and>
         list_all (\<lambda>r. case ru_Action r of HijackDNS \<Rightarrow> bo_DNS b \<noteq> None | RouteTo t \<Rightarrow> t \<in> set tags) (bo_Rules b) \<and>
         (case bo_DNS b of
            None \<Rightarrow> True
          | Some d \<Rightarrow>
              distinct (map ds_Tag (do_Servers d)) \<and> do_Final d \<in> ds_Tag ` set (do_Servers d) \<and>
              list_all (\<lambda>s. ds_Detour s = '''' \<or> ds_Detour s \<in> set tags) (do_Servers d) \<and>
              list_all (\<lambda>r. snd r \<in> ds_Tag ` set (do_Servers d)) (do_Rules d)))"

lemma outbound_registered:
  "(oc_Type (engine_buildOutbound ob), outbound_options (oc_Options (engine_buildOutbound ob))) \<in> set outboundRegistry"
  by (simp add: engine_buildOutbound_def ssh_out_def outboundRegistry_def Let_def split: option.split)

text \<open>C27: The engine is given options its library can run. Whatever options the engine accepts, every
  outbound and inbound of the configuration it builds is of a type the engine registers, with the option
  type that is registered for it, and so is the type of every DNS server; the tags are distinct; and every name in it (the final outbound, the
  targets of rules, the servers of DNS rules and their detours) is the tag of something in it.\<close>

theorem built_options_run:
  assumes "buildOptions is_addr opts = Built b"
  shows "registered b \<and> resolved b \<and> length (bo_Inbounds b) = 1"
proof -
  let ?m = "if op_IPv6Mode opts = '''' \<or> \<not> ipv6_Valid (op_IPv6Mode opts) then IPv6ModePreferIPv4 else op_IPv6Mode opts"
  have base: "bo_Outbounds (base_options opts) = [\<lparr>oc_Type = ''direct'', oc_Tag = ''direct'', oc_Options = DirectOut\<rparr>, engine_buildOutbound (op_Outbound opts)]"
    "bo_Final (base_options opts) = ''proxy''" "bo_Rules (base_options opts) = []" "bo_DNS (base_options opts) = None"
    by (simp_all add: base_options_def)
  have reg: "(''direct'', ''DirectOutboundOptions'') \<in> set outboundRegistry" "(''block'', ''StubOptions'') \<in> set outboundRegistry"
    "(''tun'', ''TunInboundOptions'') \<in> set inboundRegistry" "(''mixed'', ''HTTPMixedInboundOptions'') \<in> set inboundRegistry"
    by (simp_all add: outboundRegistry_def inboundRegistry_def)
  show ?thesis
  proof (cases "op_Mode opts = ModeVPN")
    case True
    then obtain b2 where "b = b2\<lparr>bo_Inbounds := [tun_inbound (op_Tun opts)]\<rparr>" "bo_Outbounds b2 = bo_Outbounds (vpn_options ?m (base_options opts))"
      "bo_Final b2 = bo_Final (vpn_options ?m (base_options opts))" "bo_Rules b2 = bo_Rules (vpn_options ?m (base_options opts))"
      "bo_DNS b2 = bo_DNS (vpn_options ?m (base_options opts))"
      using assms by (auto simp: buildOptions_def Let_def split: option.splits if_splits)
    moreover have "inbound_options (tun_inbound (op_Tun opts)) = (''tun'', ''TunInboundOptions'')" by (simp add: tun_inbound_def)
    ultimately show ?thesis using reg outbound_registered
      by (simp add: registered_def resolved_def vpn_options_def base blockOutbound_def blockIPv6Rule_def dnsHijackRule_def buildDNSOptions_def
        dnsTransportRegistry_def Let_def)
  next
    case False
    then obtain b2 l p where "b = b2\<lparr>bo_Inbounds := [MixedInbound ''mixed'' l p]\<rparr>" "bo_Outbounds b2 = bo_Outbounds (base_options opts)"
      "bo_Final b2 = bo_Final (base_options opts)" "bo_Rules b2 = bo_Rules (base_options opts)" "bo_DNS b2 = bo_DNS (base_options opts)"
      using assms by (auto simp: buildOptions_def Let_def split: option.splits if_splits)
    then show ?thesis using reg outbound_registered by (simp add: registered_def resolved_def base Let_def)
  qed
qed

theorem built_options_run_witness:
  "\<exists>b. buildOptions (\<lambda>a. True) (BuildEngineOptions demo_server ''vpn'' ''disable_ipv6'' EngInfo ''c.db'') = Built b \<and>
     registered b \<and> resolved b \<and> length (bo_Inbounds b) = 1"
proof -
  let ?o = "BuildEngineOptions demo_server ''vpn'' ''disable_ipv6'' EngInfo ''c.db''"
  have "validate ?o = None" by (rule validate_profile) (simp_all add: demo_server_def)
  then obtain b where b: "buildOptions (\<lambda>a. True) ?o = Built b"
    using built_vpn [of ?o] by (auto simp: BuildEngineOptions_def)
  from built_options_run [OF b] b show ?thesis by blast
qed

section \<open>The logger's entry points\<close>

text \<open>\<open>Log\<close> and the printf-style methods, each with the text \<open>fmt.Sprintf\<close> makes of its
  arguments.\<close>

type_synonym 'k logged = "('k \<times> LogEntry) list \<times> 'k Logger"

definition logger_Log :: "gotime \<Rightarrow> LogLevel \<Rightarrow> string \<Rightarrow> string \<Rightarrow> (string \<times> jvalue) list \<Rightarrow> 'k Logger \<Rightarrow> 'k logged" where
  "logger_Log now lv component message ctx l = log now lv component message ctx l"

definition Tracef :: "gotime \<Rightarrow> string \<Rightarrow> string \<Rightarrow> 'k Logger \<Rightarrow> 'k logged" where
  "Tracef now component formatted l = log now LevelTrace component formatted [] l"

definition Debugf :: "gotime \<Rightarrow> string \<Rightarrow> string \<Rightarrow> 'k Logger \<Rightarrow> 'k logged" where
  "Debugf now component formatted l = log now LevelDebug component formatted [] l"

definition Infof :: "gotime \<Rightarrow> string \<Rightarrow> string \<Rightarrow> 'k Logger \<Rightarrow> 'k logged" where
  "Infof now component formatted l = log now LevelInfo component formatted [] l"

definition Warnf :: "gotime \<Rightarrow> string \<Rightarrow> string \<Rightarrow> 'k Logger \<Rightarrow> 'k logged" where
  "Warnf now component formatted l = log now LevelWarn component formatted [] l"

definition Errorf :: "gotime \<Rightarrow> string \<Rightarrow> string \<Rightarrow> 'k Logger \<Rightarrow> 'k logged" where
  "Errorf now component formatted l = log now LevelError component formatted [] l"

text \<open>The line the console sink writes for an entry. The encoding of the context is an argument:
  it fails for a value \<open>encoding/json\<close> cannot encode, and then the context is left out.\<close>

definition console_line :: "((string \<times> jvalue) list \<Rightarrow> string option) \<Rightarrow> LogEntry \<Rightarrow> string" where
  "console_line marshal e =
     FormatRFC3339 (le_Timestamp e) @ '' '' @ ToUpper (le_Level e) @ '' '' @ le_Component e @ '' '' @ le_Message e @
     (if 0 < length (le_Context e)
      then (case marshal (le_Context e) of Some ctx \<Rightarrow> '' '' @ ctx | None \<Rightarrow> '''')
      else '''') @ [CHR 0x0A]"

text \<open>The level of a logger decides alone which of the five methods write: those at or above it.\<close>

lemma f_methods_by_level:
  assumes "level_Valid (lg_level l)" "lg_sinks l \<noteq> []"
  shows "fst (Tracef now c t l) \<noteq> [] \<longleftrightarrow> lg_level l = LevelTrace"
    and "fst (Debugf now c t l) \<noteq> [] \<longleftrightarrow> lg_level l \<in> {LevelTrace, LevelDebug}"
    and "fst (Infof now c t l) \<noteq> [] \<longleftrightarrow> lg_level l \<in> {LevelTrace, LevelDebug, LevelInfo}"
    and "fst (Warnf now c t l) \<noteq> [] \<longleftrightarrow> lg_level l \<noteq> LevelError"
    and "fst (Errorf now c t l) \<noteq> []"
  using assms
  by (auto simp: Tracef_def Debugf_def Infof_def Warnf_def Errorf_def log_def level_Valid_def Rank_def Let_def
      split: prod.splits)

section \<open>Engine messages\<close>

text \<open>A message of the engine's library goes through the platform writer, which turns the library's
  level into the engine's, and the sink of the runner, which turns that into a level of the log. Either
  pointer may be nil.\<close>

definition engineLogSink :: "gotime \<Rightarrow> Level \<Rightarrow> string \<Rightarrow> 'k Logger option \<Rightarrow> ('k \<times> LogEntry) list \<times> 'k Logger option" where
  "engineLogSink now level message logger =
     (case logger of
        None \<Rightarrow> ([], None)
      | Some l \<Rightarrow> map_prod id Some (logger_Log now (engineToModelLevel level) ''engine'' message [] l))"

definition platformLogWriter :: "(Level \<Rightarrow> string \<Rightarrow> 's \<Rightarrow> 'o list \<times> 's) option \<Rightarrow> int \<Rightarrow> string \<Rightarrow> 's \<Rightarrow> 'o list \<times> 's" where
  "platformLogWriter sink level message s =
     (case sink of None \<Rightarrow> ([], s) | Some write \<Rightarrow> write (levelFromBox level) message s)"

text \<open>The severity of a library message survives both conversions: of two messages the one the
  library ranks as more severe (the lower number) is not ranked lower in the log.\<close>

lemma engine_message_levels:
  assumes "0 \<le> x" "x \<le> y" "y \<le> 6"
  shows "Rank (engineToModelLevel (levelFromBox y)) \<le> Rank (engineToModelLevel (levelFromBox x))"
proof -
  have "x \<in> {0, 1, 2, 3, 4, 5, 6}" "y \<in> {0, 1, 2, 3, 4, 5, 6}" using assms by auto
  then show ?thesis using assms(2)
    by (auto simp: levelFromBox_def engineToModelLevel_def Rank_def)
qed

lemma engine_message_redacted:
  assumes "platformLogWriter (Some (engineLogSink now)) x message (Some l) = (ws, l')" "(k, e) \<in> set ws"
  shows "k \<in> set (lg_sinks l) \<and> le_Component e = ''engine'' \<and> le_Message e = Redact (lg_redactor l) (stripANSI message)"
  using assms
  by (auto simp: platformLogWriter_def engineLogSink_def logger_Log_def log_def log_entry_def Let_def
      split: prod.splits if_splits)

section \<open>The latency tester\<close>

record LatencyTester =
  lt_timeout :: duration

definition DefaultLatencyTimeout :: duration where
  "DefaultLatencyTimeout = 3 * second"

definition NewLatencyTester :: "duration \<Rightarrow> LatencyTester" where
  "NewLatencyTester timeout = \<lparr>lt_timeout = (if timeout \<le> 0 then DefaultLatencyTimeout else timeout)\<rparr>"

text \<open>The dial is an argument: for a timeout and an address it gives an error, or the time that passed
  until the connection was closed again.\<close>

definition tester_TestLatency ::
  "(duration \<Rightarrow> string \<Rightarrow> goerror + duration) \<Rightarrow> gotime \<Rightarrow> LatencyTester \<Rightarrow> ServerProfile \<Rightarrow> 'k Logger \<Rightarrow>
   (goerror + int) \<times> 'k logged" where
  "tester_TestLatency dial now t p l =
     (let addr = JoinHostPort (sp_Address p) (Itoa (sp_Port p))
      in case dial (lt_timeout t) addr of
           Inl err \<Rightarrow> (Inl err, [], l)
         | Inr elapsed \<Rightarrow>
             (let ms = elapsed div 1000000; ms = (if ms < 1 then 1 else ms)
              in (Inr ms, Infof now ''tunnel'' (''latency to '' @ sp_Address p @ '':'' @ Itoa (sp_Port p) @ '' = '' @ Itoa ms @ ''ms'') l)))"

text \<open>A reported latency is positive, so it differs from the 0 of a profile that was never tested, and
  is at most the time that passed, rounded down, or 1; the timeout the dial is given is positive.\<close>

lemma tested_latency:
  assumes "fst (tester_TestLatency dial now (NewLatencyTester timeout) p l) = Inr ms"
  shows "0 < lt_timeout (NewLatencyTester timeout) \<and>
    (\<exists>elapsed. dial (lt_timeout (NewLatencyTester timeout)) (JoinHostPort (sp_Address p) (Itoa (sp_Port p))) = Inr elapsed \<and>
       ms = max 1 (elapsed div 1000000))"
proof (rule conjI)
  show "0 < lt_timeout (NewLatencyTester timeout)" by (simp add: NewLatencyTester_def DefaultLatencyTimeout_def)
  show "\<exists>elapsed. dial (lt_timeout (NewLatencyTester timeout)) (JoinHostPort (sp_Address p) (Itoa (sp_Port p))) = Inr elapsed \<and>
      ms = max 1 (elapsed div 1000000)"
    using assms by (cases "dial (lt_timeout (NewLatencyTester timeout)) (JoinHostPort (sp_Address p) (Itoa (sp_Port p)))")
      (auto simp: tester_TestLatency_def Let_def split: if_splits)
qed

end
