(* ===== verification/Repository_Safety.thy ===== *)
theory Repository_Safety
  imports Server_Repository
begin

text \<open>
  What the server repository guarantees: it implements the map of profiles, no credential reaches
  the table whatever fails, the credentials of every profile it hands out are redacted, and a
  list is exactly the selection the query describes, in its order.
\<close>

section \<open>Credentials stay out of the table\<close>

definition blank_row :: "row \<Rightarrow> bool" where
  "blank_row r \<longleftrightarrow>
     column ''password'' r = SText '''' \<and> column ''uuid'' r = SText '''' \<and> column ''ssh_private_key'' r = SText ''''"

lemma secret_column_index:
  "index_of ''password'' serverColumnList = 6" "index_of ''uuid'' serverColumnList = 8"
  "index_of ''ssh_private_key'' serverColumnList = 26"
  by code_simp+

lemma row_of_blank: "blank_row (row_of p)" "blank_row (x # tl (row_of p))"
proof -
  have c: "row_of p ! 6 = SText ''''" "row_of p ! 8 = SText ''''" "row_of p ! 26 = SText ''''"
    by (simp_all add: row_of_def serverValues_nth sanitize_def)
  have "(x # tl (row_of p)) ! Suc n = row_of p ! Suc n" for n
    by (cases "row_of p") (simp_all add: row_of_def serverValues_def)
  from this [of 5] this [of 7] this [of 25] c
  show "blank_row (row_of p)" "blank_row (x # tl (row_of p))" by (simp_all add: blank_row_def column_def secret_column_index)
qed

lemma upsert_blank:
  "\<forall>r \<in> set rows. blank_row r \<Longrightarrow> \<forall>r \<in> set (upsert_rows (row_of p) (tl (row_of p)) rows). blank_row r"
  by (auto simp: upsert_rows_def row_of_blank)

lemma repo_Create_created:
  "repo_Create env rnd nowC nowU p st =
     (case Validate p of
        Some e \<Rightarrow> (Inl e, st)
      | None \<Rightarrow> (case persist env (created rnd nowC nowU p) st of
           (Some e, st') \<Rightarrow> (Inl e, st') | (None, st') \<Rightarrow> (Inr (sp_ID (created rnd nowC nowU p)), st')))"
  unfolding repo_Create_def created_def Let_def ..

context sql_table
begin

lemma persist_blank:
  assumes "re_sql env = ops" "\<forall>r \<in> set (tbl (rp_db st)). blank_row r"
  shows "\<forall>r \<in> set (tbl (rp_db (snd (persist env p st)))). blank_row r"
proof (cases "store_secrets (re_sec env) p (SecretRefsFor p) (rp_secrets st)")
  case (Pair e s)
  obtain e' d where d: "db_upsert ops (row_of p) (tl (row_of p)) (rp_db st) = (e', d)" by fastforce
  have "\<forall>r \<in> set (tbl d). blank_row r"
    using assms(2) upsert_ok upsert_failed d upsert_blank [of "tbl (rp_db st)" p] by (cases e') auto
  then show ?thesis
    using Pair d assms by (cases e; cases e') (simp_all add: persist_def Let_def row_of_def)
qed

lemma step_blank:
  assumes "re_sql env = ops" "\<forall>r \<in> set (tbl (rp_db st)). blank_row r"
  shows "\<forall>r \<in> set (tbl (rp_db (snd (repo_step env op st)))). blank_row r"
proof (cases op)
  case (OpCreate rnd nowC nowU p)
  show ?thesis
    using assms(2) persist_blank [OF assms, of "created rnd nowC nowU p"] OpCreate
    by (cases "Validate p"; cases "persist env (created rnd nowC nowU p) st"; cases "fst (persist env (created rnd nowC nowU p) st)")
      (simp_all add: repo_Create_created)
next
  case (OpUpdate now p)
  show ?thesis
  proof (cases "Validate p = None \<and> (\<exists>row. read_row env (sp_ID p) st = Inr row)")
    case True
    then obtain row where "read_row env (sp_ID p) st = Inr row" by blast
    then show ?thesis
      using True OpUpdate assms persist_blank [OF assms(1), of "st\<lparr>rp_secrets := s\<rparr>" for s]
      by (simp add: repo_Update_def done_result_def Let_def split: option.split)
  next
    case False
    then show ?thesis
      using OpUpdate assms(2)
      by (cases "Validate p"; cases "read_row env (sp_ID p) st") (auto simp: repo_Update_def done_result_def)
  qed
next
  case (OpDelete k)
  obtain n d where d: "db_delete ops k (rp_db st) = (n, d)" by fastforce
  have "set (tbl d) \<subseteq> set (tbl (rp_db st))"
    using d delete_ok delete_failed by (cases n) (auto simp: delete_rows_def)
  then show ?thesis
    using OpDelete assms d
    by (cases "querySecretRefs env k st"; cases n) (auto simp: repo_Delete_def done_result_def)
next
  case (OpGet k)
  then show ?thesis
    using assms(2) by (auto simp: repo_Get_def split: sum.splits)
qed

lemma run_blank:
  assumes "re_sql env = ops" "\<forall>r \<in> set (tbl (rp_db st)). blank_row r"
  shows "\<forall>r \<in> set (tbl (rp_db (snd (repo_run env evs st)))). blank_row r"
  using assms(2)
proof (induction evs arbitrary: st)
  case (Cons op evs)
  then show ?case using step_blank [OF assms(1) Cons.prems, of op] by (simp add: split_beta)
qed simp

end

section \<open>Credentials are redacted\<close>

text \<open>A redactor covers a value if no redacted message keeps a run of bytes that equals it up to
  the case of letters; short values are not registered.\<close>

definition covered :: "Redactor \<Rightarrow> string \<Rightarrow> bool" where
  "covered red s \<longleftrightarrow>
     (\<forall>m xs w ys. redact_tokens (rd_re red) m = xs @ map Some w @ ys \<longrightarrow> ToLower w \<noteq> ToLower (TrimSpace s))"

definition redactor_from :: "(string list \<Rightarrow> string list) \<Rightarrow> string list list \<Rightarrow> ('d, 'k) Repo \<Rightarrow> bool" where
  "redactor_from order calls st \<longleftrightarrow> rp_redact st = Some (add_all order calls NewRedactor)"

lemma covered_from:
  assumes "\<And>xs. set (order xs) = set xs" "ss \<in> set calls" "s \<in> set ss" "3 \<le> length (TrimSpace s)"
  shows "covered (add_all order calls NewRedactor) s"
proof -
  obtain p where "p \<in> set (rd_re (add_all order calls NewRedactor))" "ToLower p = ToLower (TrimSpace s)" "p \<noteq> []"
    using registered_alternative [OF assms] by blast
  then show ?thesis using no_kept_secret unfolding covered_def by metis
qed

lemma registerRedact_from:
  "redactor_from (re_order env) calls st \<Longrightarrow>
   redactor_from (re_order env) (calls @ [redact_values p]) (registerRedact env p st)"
  by (simp add: redactor_from_def registerRedact_def add_all_def)

text \<open>Every operation keeps the registrations made before it; the profiles it returned or wrote
  are among them.\<close>

definition grows :: "('d, 'k) RepoEnv \<Rightarrow> ('d, 'k) Repo \<Rightarrow> ('d, 'k) Repo \<Rightarrow> ServerProfile set \<Rightarrow> bool" where
  "grows env st st' ps \<longleftrightarrow>
     (\<forall>calls. redactor_from (re_order env) calls st \<longrightarrow>
        (\<exists>more. redactor_from (re_order env) (calls @ more) st' \<and> redact_values ` ps \<subseteq> set more))"

lemma grows_refl: "rp_redact st' = rp_redact st \<Longrightarrow> grows env st st' {}"
  by (auto simp: grows_def redactor_from_def intro: exI [of _ "[]"])

lemma grows_one:
  assumes "rp_redact st1 = rp_redact st"
  shows "grows env st (registerRedact env p st1) {p}"
  unfolding grows_def
proof (intro allI impI)
  fix calls assume "redactor_from (re_order env) calls st"
  then have "redactor_from (re_order env) calls st1" using assms by (simp add: redactor_from_def)
  from registerRedact_from [OF this, of p]
  show "\<exists>more. redactor_from (re_order env) (calls @ more) (registerRedact env p st1) \<and> redact_values ` {p} \<subseteq> set more"
    by (intro exI [of _ "[redact_values p]"]) simp
qed

lemma grows_mono:
  assumes "grows env st st' ps" "qs \<subseteq> ps"
  shows "grows env st st' qs"
  using assms(1) image_mono [OF assms(2), of redact_values] unfolding grows_def by (meson subset_trans)

lemma grows_trans: "grows env st st1 ps \<Longrightarrow> grows env st1 st2 qs \<Longrightarrow> grows env st st2 (ps \<union> qs)"
proof -
  assume a: "grows env st st1 ps" "grows env st1 st2 qs"
  show ?thesis unfolding grows_def
  proof (intro allI impI)
    fix calls assume "redactor_from (re_order env) calls st"
    then obtain m1 where m1: "redactor_from (re_order env) (calls @ m1) st1" "redact_values ` ps \<subseteq> set m1"
      using a(1) by (auto simp: grows_def)
    then obtain m2 where "redactor_from (re_order env) ((calls @ m1) @ m2) st2" "redact_values ` qs \<subseteq> set m2"
      using a(2) unfolding grows_def by blast
    with m1(2) show "\<exists>more. redactor_from (re_order env) (calls @ more) st2 \<and> redact_values ` (ps \<union> qs) \<subseteq> set more"
      by (intro exI [of _ "m1 @ m2"]) auto
  qed
qed

lemma persist_grows:
  "persist env p st = (r, st') \<Longrightarrow> grows env st st' (if r = None then {p} else {})"
  by (auto simp: persist_def Let_def split: prod.splits option.splits intro!: grows_one grows_refl)

lemma Get_grows: "repo_Get env k st = (r, st') \<Longrightarrow> grows env st st' (case r of Inr p \<Rightarrow> {p} | Inl e \<Rightarrow> {})"
  by (auto simp: repo_Get_def split: sum.splits intro!: grows_one grows_refl)

lemma list_loop_grows:
  "list_loop env rerr rows out st = (r, st') \<Longrightarrow> grows env st st' (set (fst r) - set out)"
proof (induction rows arbitrary: out st)
  case Nil
  then show ?case by (auto intro!: grows_refl)
next
  case (Cons x rows)
  show ?case
  proof (cases "scanServer x")
    case (Inl e)
    with Cons.prems show ?thesis by (auto intro!: grows_refl)
  next
    case (Inr row)
    show ?thesis
    proof (cases "restoreSecrets env st row")
      case (Inl e)
      with Inr Cons.prems show ?thesis by (auto intro!: grows_refl)
    next
      case (Inr p)
      have "list_loop env rerr rows (out @ [p]) (registerRedact env p st) = (r, st')"
        using \<open>scanServer x = Inr row\<close> Inr Cons.prems by simp
      from grows_trans [OF grows_one [OF refl] Cons.IH [OF this]] show ?thesis
        by (rule grows_mono) auto
    qed
  qed
qed

lemma List_grows: "repo_List env q st = (r, st') \<Longrightarrow> grows env st st' (set (fst r))"
  using list_loop_grows [of env _ _ "[]" st r st']
  by (auto simp: repo_List_def split: sum.splits prod.splits intro: grows_refl)

lemma persist_grows_after: "grows env st (snd (persist env p (st\<lparr>rp_secrets := s\<rparr>))) {}"
proof -
  obtain r st' where "persist env p (st\<lparr>rp_secrets := s\<rparr>) = (r, st')" by fastforce
  from grows_mono [OF persist_grows [OF this], of "{}"] this show ?thesis
    by (simp add: grows_def redactor_from_def)
qed

lemma done_result_eq: "done_result x = (r, st') \<Longrightarrow> st' = snd x"
  by (auto simp: done_result_def split: option.splits)

lemma step_grows: "repo_step env op st = (r, st') \<Longrightarrow> grows env st st' {p. r = ResProfile p}"
proof (cases op)
  case (OpCreate rnd nowC nowU p)
  assume "repo_step env op st = (r, st')"
  with OpCreate show ?thesis
    by (auto simp: repo_Create_def Let_def split: option.splits prod.splits sum.splits
      intro: grows_refl grows_mono [OF persist_grows])
next
  case (OpUpdate now p)
  assume s: "repo_step env op st = (r, st')"
  have r: "{p. r = ResProfile p} = {}" using s OpUpdate by (auto simp: done_result_def split: option.splits)
  have "grows env st (snd (repo_Update env now p st)) {}"
    by (auto simp: repo_Update_def Let_def split: option.splits sum.splits
      intro: grows_refl persist_grows_after)
  then show ?thesis using s OpUpdate r by (auto dest: done_result_eq)
next
  case (OpDelete k)
  assume s: "repo_step env op st = (r, st')"
  have r: "{p. r = ResProfile p} = {}" using s OpDelete by (auto simp: done_result_def split: option.splits)
  have "rp_redact (snd (repo_Delete env k st)) = rp_redact st"
    by (auto simp: repo_Delete_def split: sum.splits prod.splits)
  then show ?thesis using s OpDelete r by (auto dest!: done_result_eq intro: grows_refl)
next
  case (OpGet k)
  assume "repo_step env op st = (r, st')"
  with OpGet show ?thesis
    using Get_grows [of env k st] by (auto split: prod.splits sum.splits intro: grows_mono)
qed

lemma run_grows: "repo_run env ops st = (rs, st') \<Longrightarrow> grows env st st' {p. ResProfile p \<in> set rs}"
proof (induction ops arbitrary: st rs)
  case Nil
  then show ?case by (auto intro: grows_refl)
next
  case (Cons op ops)
  obtain r st1 where s: "repo_step env op st = (r, st1)" by fastforce
  obtain rs' where rs: "repo_run env ops st1 = (rs', st')" "rs = r # rs'"
    using Cons.prems s by (auto simp: split_beta) (metis prod.collapse)
  from grows_trans [OF step_grows [OF s] Cons.IH [OF rs(1)]] show ?case
    by (rule grows_mono) (auto simp: rs(2))
qed

section \<open>What a list returns\<close>

text \<open>A search text without wildcards is looked for as a substring.\<close>

lemma like_plain:
  "CHR ''%'' \<notin> set a \<Longrightarrow> CHR ''_'' \<notin> set a \<Longrightarrow> like (a @ ''%'') s \<longleftrightarrow> (\<exists>b. s = a @ b)"
proof (induction a arbitrary: s)
  case Nil
  have "like ''%'' s" by (induction s) simp_all
  then show ?case by simp
next
  case (Cons c a)
  then show ?case by (cases s) auto
qed

lemma like_Contains:
  assumes "CHR ''%'' \<notin> set a" "CHR ''_'' \<notin> set a"
  shows "like (''%'' @ a @ ''%'') s = Contains s a"
proof -
  have "like (CHR ''%'' # a @ ''%'') s \<longleftrightarrow> (\<exists>x b. s = x @ a @ b)"
  proof (induction s)
    case Nil
    then show ?case using like_plain [OF assms, of "[]"] by simp
  next
    case (Cons c s)
    have "(\<exists>x b. c # s = x @ a @ b) \<longleftrightarrow> (\<exists>b. c # s = a @ b) \<or> (\<exists>x b. s = x @ a @ b)"
      by (metis append_Cons append_Nil neq_Nil_conv list.inject)
    then show ?case using Cons like_plain [OF assms, of "c # s"] by simp
  qed
  then show ?thesis by (simp add: Contains_iff)
qed

definition search_fields :: "ServerProfile \<Rightarrow> string list" where
  "search_fields p = [sp_Name p, sp_Address p, sp_Username p, sp_Group p, sp_Protocol p]"

definition query_matches :: "Query \<Rightarrow> ServerProfile \<Rightarrow> bool" where
  "query_matches q p \<longleftrightarrow>
     (TrimSpace (qu_Search q) = '''' \<or>
      list_ex (\<lambda>f. Contains (ToLower f) (ToLower (TrimSpace (qu_Search q)))) (search_fields p)) \<and>
     (qu_Group q = '''' \<or> sp_Group p = qu_Group q) \<and>
     (qu_Protocol q = '''' \<or> sp_Protocol p = qu_Protocol q) \<and>
     (qu_Enabled q = None \<or> qu_Enabled q = Some (sp_Enabled p)) \<and>
     (qu_Favorite q = None \<or> qu_Favorite q = Some (sp_Favorite p))"

definition plain_query :: "Query \<Rightarrow> bool" where
  "plain_query q \<longleftrightarrow> CHR ''%'' \<notin> set (qu_Search q) \<and> CHR ''_'' \<notin> set (qu_Search q)"

lemma set_TrimSpace: "set (TrimSpace s) \<subseteq> set s"
proof -
  have *: "set (trim_left_with ps t) \<subseteq> set t" for ps and t :: string
    using trim_left_suffix [of t ps] by (metis set_append Un_upper2)
  show ?thesis
    using * [of "map rev space_runes" "rev (trim_left_with space_runes s)"] * [of space_runes s]
    unfolding TrimSpace_def set_rev by (rule order_trans)
qed

lemma lower_plain: "lower_char c = CHR ''%'' \<Longrightarrow> c = CHR ''%''" "lower_char c = CHR ''_'' \<Longrightarrow> c = CHR ''_''"
proof -
  have *: "of_char (lower_char c) = (if 65 \<le> (of_char c :: nat) \<and> of_char c \<le> (90 :: nat) then of_char c + 32 else of_char c :: nat)"
    by (simp add: lower_char_def Let_def)
  show "lower_char c = CHR ''%'' \<Longrightarrow> c = CHR ''%''" using * by (auto simp: lower_char_def Let_def split: if_splits)
  show "lower_char c = CHR ''_'' \<Longrightarrow> c = CHR ''_''" using * by (auto simp: lower_char_def Let_def split: if_splits)
qed

lemma plain_pattern:
  assumes "plain_query q"
  shows "CHR ''%'' \<notin> set (ToLower (TrimSpace (qu_Search q)))" "CHR ''_'' \<notin> set (ToLower (TrimSpace (qu_Search q)))"
  using assms set_TrimSpace [of "qu_Search q"] lower_plain [THEN sym]
  by (auto simp: plain_query_def ToLower_def image_iff dest!: lower_plain [OF sym])

lemma row_of_columns:
  "column ''name'' (row_of p) = SText (sp_Name p)" "column ''address'' (row_of p) = SText (sp_Address p)"
  "column ''username'' (row_of p) = SText (sp_Username p)" "column ''group_name'' (row_of p) = SText (sp_Group p)"
  "column ''protocol'' (row_of p) = SText (sp_Protocol p)" "column ''enabled'' (row_of p) = SInt (boolInt (sp_Enabled p))"
  "column ''favorite'' (row_of p) = SInt (boolInt (sp_Favorite p))"
  "column ''last_latency_ms'' (row_of p) = SInt (sp_LastLatencyMS p)"
  "column ''created_at'' (row_of p) = SText (FormatRFC3339 (sp_CreatedAt p))"
  "column ''updated_at'' (row_of p) = SText (FormatRFC3339 (sp_UpdatedAt p))"
  by (simp_all add: column_def column_index row_of_def serverValues_nth sanitize_def)

lemma boolInt_inj [simp]: "boolInt a = boolInt b \<longleftrightarrow> a = b"
  by (simp add: boolInt_def)

lemma search_matches:
  "plain_query q \<Longrightarrow> row_matches (row_of p) (CSearch (''%'' @ ToLower (TrimSpace (qu_Search q)) @ ''%'')) \<longleftrightarrow>
     list_ex (\<lambda>f. Contains (ToLower f) (ToLower (TrimSpace (qu_Search q)))) (search_fields p)"
  using like_Contains [OF plain_pattern]
  by (simp add: row_matches_def search_columns_def search_fields_def row_of_columns del: like.simps append.simps)

lemma where_matches:
  assumes "plain_query q"
  shows "list_all (row_matches (row_of p)) (list_where q) \<longleftrightarrow> query_matches q p"
proof -
  have eqs: "row_matches (row_of p) (CEq ''group_name'' (SText g)) \<longleftrightarrow> sp_Group p = g"
    "row_matches (row_of p) (CEq ''protocol'' (SText g)) \<longleftrightarrow> sp_Protocol p = g"
    "row_matches (row_of p) (CEq ''enabled'' (SInt (boolInt b))) \<longleftrightarrow> sp_Enabled p = b"
    "row_matches (row_of p) (CEq ''favorite'' (SInt (boolInt b))) \<longleftrightarrow> sp_Favorite p = b" for g b
    by (simp_all add: row_matches_def row_of_columns)
  show ?thesis
    using search_matches [OF assms, of p]
    by (auto simp: list_where_def query_matches_def Let_def eqs split: option.split simp del: append.simps)
qed

lemma where_bytewise: "plain_query q \<Longrightarrow> list_all bytewise (list_where q)"
  using plain_pattern [of q] by (auto simp: list_where_def Let_def bytewise_def split: option.split)

lemma mset_map_obtain:
  assumes "mset ys = mset (map f xs)"
  obtains zs where "mset zs = mset xs" "ys = map f zs"
proof -
  obtain zs where zs: "length zs = length ys" "mset (zip ys zs) = mset (zip (map f xs) xs)"
    using ex_mset_zip_left [of "map f xs" xs ys] assms by auto
  have "mset (map snd (zip ys zs)) = mset (map snd (zip (map f xs) xs))"
    using arg_cong [OF zs(2), of "image_mset snd"] by (simp only: mset_map)
  then have "mset zs = mset xs" using zs(1) by (simp only: map_snd_zip length_map)
  moreover have "\<forall>(y, z) \<in> set (zip ys zs). y = f z"
    using mset_eq_setD [OF zs(2)] by (auto simp: set_zip)
  then have "ys = map f zs" using zs(1) by (induction ys zs rule: list_induct2') auto
  ultimately show ?thesis by (rule that)
qed

definition listed_before :: "Query \<Rightarrow> ServerProfile \<Rightarrow> ServerProfile \<Rightarrow> bool" where
  "listed_before q p p' = row_before (orderBy (qu_Sort q) (qu_Order q)) (row_of p) (row_of p')"

context repository
begin

lemma list_loop_repr:
  assumes "\<forall>p \<in> set ps. stored_as sec tbl st (sp_ID p) (Some p)"
  shows "fst (list_loop env rerr (map row_of ps) out st) = (out @ map stored_form ps, rerr)"
  using assms
proof (induction ps arbitrary: out st)
  case (Cons p ps)
  have "scanServer (row_of p) = Inr \<lparr>sr_profile = sanitize (stored_form p), sr_secretRef = SecretRefsFor p\<rparr>"
    using Cons.prems scan_sanitized [of p] by (simp add: row_of_def stored_as_def)
  then show ?case using Cons.IH [of "registerRedact env (stored_form p) st"] Cons.prems restore_repr [of st "sp_ID p" p] by simp
qed simp

lemma table_rows:
  assumes "repo_repr sec tbl M st"
  shows "\<exists>ps. tbl (rp_db st) = map row_of ps \<and> distinct (map sp_ID ps) \<and> (\<forall>k p. M k = Some p \<longleftrightarrow> p \<in> set ps \<and> sp_ID p = k)"
proof -
  have ok: "table_ok (tbl (rp_db st))" and key: "\<And>k. stored_as sec tbl st k (M k)"
    using assms by (auto simp: repo_repr_def)
  let ?p = "\<lambda>r. the (M (row_key r))"
  have row: "M (row_key r) \<noteq> None \<and> row_of (?p r) = r" if "r \<in> set (tbl (rp_db st))" for r
  proof -
    have "Some r = map_option row_of (M (row_key r))"
      using find_row_in [OF ok that] key [of "row_key r"] by (simp only: stored_as_def)
    then show ?thesis by (cases "M (row_key r)") simp_all
  qed
  have row_id: "sp_ID (?p r) = row_key r" if "r \<in> set (tbl (rp_db st))" for r
    using arg_cong [OF conjunct2 [OF row [OF that]], of row_key] by (simp only: row_of_key)
  let ?ps = "map ?p (tbl (rp_db st))"
  have "map row_of ?ps = tbl (rp_db st)" unfolding map_map o_def by (rule map_idI) (simp only: row)
  moreover have "map sp_ID ?ps = map row_key (tbl (rp_db st))" unfolding map_map o_def using row_id by (rule map_cong [OF refl])
  then have "distinct (map sp_ID ?ps)" using ok by (simp only: table_ok_def)
  moreover have "\<forall>k p. M k = Some p \<longleftrightarrow> p \<in> set ?ps \<and> sp_ID p = k"
  proof (intro allI iffI conjI)
    fix k p assume k: "M k = Some p"
    then have f: "find_row k (tbl (rp_db st)) = Some (row_of p)" "sp_ID p = k"
      using key [of k] by (simp_all add: stored_as_def)
    show "sp_ID p = k" by (fact f(2))
    have "row_of p \<in> set (tbl (rp_db st))" using find_row_Some [OF f(1)] by (rule conjunct1)
    moreover have "?p (row_of p) = p" using k f(2) by simp
    ultimately show "p \<in> set ?ps" unfolding set_map by (metis image_eqI)
  next
    fix k p assume "p \<in> set ?ps \<and> sp_ID p = k"
    then obtain r where r: "r \<in> set (tbl (rp_db st))" "p = ?p r" "sp_ID p = k" unfolding set_map by blast
    then have "row_key r = k" using row_id [OF r(1)] by (simp only:)
    then show "M k = Some p" using option.collapse [OF conjunct1 [OF row [OF r(1)]]] r(2) by metis
  qed
  ultimately show ?thesis by (intro exI [of _ ?ps]) (simp only: simp_thms)
qed

lemma List_repr:
  assumes "repo_repr sec tbl M st" "plain_query q"
    "db_query sql (list_where q) (orderBy (qu_Sort q) (qu_Order q)) (rp_db st) = Inr (rows, None)"
  shows "\<exists>ps. fst (repo_List env q st) = (map stored_form ps, None) \<and> distinct (map sp_ID ps) \<and>
    set ps = {p \<in> ran M. query_matches q p} \<and> sorted_wrt (listed_before q) ps"
proof -
  obtain qs where qs: "tbl (rp_db st) = map row_of qs" "distinct (map sp_ID qs)"
    and M: "\<And>k p. M k = Some p \<longleftrightarrow> p \<in> set qs \<and> sp_ID p = k"
    using table_rows [OF assms(1)] by blast
  have ran: "ran M = set qs" using M by (auto simp: ran_def)
  have rows: "mset rows = mset (map row_of (filter (query_matches q) qs))"
    "sorted_wrt (row_before (orderBy (qu_Sort q) (qu_Order q))) rows"
    using tb.query [OF assms(3) where_bytewise [OF assms(2)]] where_matches [OF assms(2)]
    by (simp_all add: qs(1) filter_map o_def)
  let ?fs = "filter (query_matches q) qs"
  obtain ps where ps: "mset ps = mset ?fs" "rows = map row_of ps" using mset_map_obtain [OF rows(1)] by blast
  have set: "set ps = set ?fs" using ps(1) by (rule mset_eq_setD)
  have "distinct (map sp_ID ps)"
    using qs(2) ps(1) distinct_map_filter [of sp_ID qs] by (metis mset_eq_imp_distinct_iff mset_map)
  moreover have "set ps = {p \<in> ran M. query_matches q p}" using set ran by auto
  moreover have "sorted_wrt (listed_before q) ps"
    using rows(2) by (simp add: ps(2) sorted_wrt_map listed_before_def [abs_def])
  moreover have "stored_as sec tbl st (sp_ID p) (Some p)" if "p \<in> set ps" for p
    using that set M [of "sp_ID p" p] repr_key [OF assms(1), of "sp_ID p"] by auto
  then have "fst (repo_List env q st) = (map stored_form ps, None)"
    using list_loop_repr [of ps st None "[]"] assms(3) by (simp add: repo_List_def env ps(2))
  ultimately show ?thesis by blast
qed

end

section \<open>Properties\<close>

interpretation repo: repository table_ops "\<lambda>d. d" mem_ops
  "\<lparr>re_sql = table_ops, re_sec = mem_ops, re_order = order\<rparr>" for order
  by unfold_locales simp_all

definition example_profile :: ServerProfile where
  "example_profile =
     zero_profile\<lparr>sp_ID := ''a'', sp_Name := ''home'', sp_Protocol := ProtocolTrojan, sp_Address := ''example.org'', sp_Port := 443,
       sp_Password := ''hunter2secret''\<rparr>"

definition example_env :: "(row list, string \<rightharpoonup> string) RepoEnv" where
  "example_env = \<lparr>re_sql = table_ops, re_sec = mem_ops, re_order = (\<lambda>xs. xs)\<rparr>"

lemma example_reliable: "reliable table_ops mem_ops"
  by (simp add: reliable_def table_ops_def mem_ops_def mem_Set_def)

lemma example_storable: "storable example_profile"
  by (simp add: storable_def example_profile_def zero_profile_def zero_TLS_def time_ok_def days_before_year_def)

lemma example_valid: "Validate example_profile = None"
  by code_simp

lemma example_vault: "secret_vault (re_sec example_env)" "sql_table (re_sql example_env) (\<lambda>d. d)"
  by (simp_all add: example_env_def memv.secret_vault_axioms tab.sql_table_axioms)

definition example_ops :: "repo_op list" where
  "example_ops = [OpCreate [] 0 0 example_profile, OpGet ''a'', OpDelete ''b'']"

lemma example_run:
  "fst (spec_run example_ops Map.empty) =
     [ResID ''a'', ResProfile (stored_form example_profile), ResError errServerNotFound]"
proof -
  have "created [] 0 0 example_profile = example_profile" "sp_ID example_profile = ''a''"
    by (simp_all add: created_def example_profile_def zero_profile_def)
  then show ?thesis by (simp add: example_ops_def example_valid)
qed

lemma example_ops_ok: "list_all op_ok example_ops"
  by (simp add: example_ops_def example_storable time_ok_def days_before_year_def)

text \<open>C20: The server repository implements a map from identifiers to profiles. Started on an empty
  table, over stores that keep their contracts and do not fail, every sequence of \<open>Create\<close>,
  \<open>Update\<close>, \<open>Delete\<close> and \<open>Get\<close> returns what the map returns: the validation error, the
  identifier, the not-found error, or the profile last written under the identifier with its
  credentials put back, times cut to the second and empty transport and reality sections dropped.\<close>

theorem repository_refines_map:
  assumes "sql_table (re_sql env) tbl" "secret_vault (re_sec env)" "reliable (re_sql env) (re_sec env)"
    and "tbl d = []" "list_all op_ok ops"
  shows "fst (repo_run env ops (SetRedactor red (NewSQLiteServerRepository d s))) = fst (spec_run ops Map.empty)"
proof -
  have "repository (re_sql env) tbl (re_sec env) env"
    using assms(1,2) by (simp add: repository_def repository_axioms_def)
  moreover have "repo_repr (re_sec env) tbl Map.empty (SetRedactor red (NewSQLiteServerRepository d s))"
    using assms(4) by (simp add: SetRedactor_def NewSQLiteServerRepository_def repo_repr_def table_ok_def stored_as_def
      find_row_def)
  ultimately show ?thesis
    using repository.run_refines [of "re_sql env" tbl "re_sec env" env] assms(3,5) by (simp add: list_all_iff)
qed

theorem repository_refines_map_witness:
  "fst (repo_run example_env example_ops (SetRedactor None (NewSQLiteServerRepository [] Map.empty))) =
     [ResID ''a'', ResProfile (stored_form example_profile), ResError errServerNotFound]"
  using repository_refines_map [OF example_vault(2,1), of "[]" example_ops None Map.empty] example_run example_ops_ok
    example_reliable by (simp add: example_env_def)

text \<open>C21: No credential reaches the database. Whatever sequence of operations runs on a repository
  that started with an empty table, with any profiles, and whichever of its statements and
  secret-store calls fail on the way, the password, UUID and SSH key columns of every row are empty.\<close>

theorem credentials_never_in_table:
  assumes "sql_table (re_sql env) tbl" "tbl (rp_db st) = []"
  shows "list_all blank_row (tbl (rp_db (snd (repo_run env ops st))))"
  using sql_table.run_blank [OF assms(1) refl, of st ops] assms(2) by (simp add: list_all_iff)

theorem credentials_never_in_table_witness:
  "list_all blank_row (rp_db (snd (repo_run example_env example_ops (NewSQLiteServerRepository [] Map.empty))))"
  using credentials_never_in_table [OF example_vault(2)] by (simp add: NewSQLiteServerRepository_def)

text \<open>The credentials of every profile the repository hands out are redacted. After any run on
  a repository with a fresh redactor, and a \<open>List\<close> behind it, the redactor covers the password,
  UUID, keys, reality and transport values of every profile that \<open>Get\<close> or \<open>List\<close> returned: no
  redacted message keeps such a value of at least three bytes, in any case of letters. This
  holds for stores that behave in any way.\<close>

theorem returned_credentials_redacted:
  assumes "\<And>xs. set (re_order env xs) = set xs"
    and "repo_run env ops (SetRedactor (Some NewRedactor) (NewSQLiteServerRepository d s)) = (rs, st)"
    and "repo_List env q st = (r, st')"
    and "ResProfile p \<in> set rs \<or> p \<in> set (fst r)"
    and "v \<in> set (redact_values p)" "3 \<le> length (TrimSpace v)"
  shows "\<exists>red. rp_redact st' = Some red \<and> covered red v"
proof -
  let ?st = "SetRedactor (Some NewRedactor) (NewSQLiteServerRepository d s)"
  have start: "redactor_from (re_order env) [] ?st" by (simp add: redactor_from_def SetRedactor_def add_all_def)
  have g: "grows env ?st st' ({p. ResProfile p \<in> set rs} \<union> set (fst r))"
    using grows_trans [OF run_grows [OF assms(2)] List_grows [OF assms(3)]] .
  have "p \<in> {p. ResProfile p \<in> set rs} \<union> set (fst r)"
    using assms(4) by auto
  with g start obtain more where m: "redactor_from (re_order env) more st'" "redact_values p \<in> set more"
    unfolding grows_def by (metis append_Nil image_subset_iff)
  then show ?thesis
    using covered_from [OF assms(1) m(2) assms(5,6)] by (simp add: redactor_from_def)
qed

lemma example_password: "''hunter2secret'' \<in> set (redact_values (stored_form example_profile))"
  "3 \<le> length (TrimSpace ''hunter2secret'')"
proof -
  show "''hunter2secret'' \<in> set (redact_values (stored_form example_profile))"
    by (simp add: redact_values_def example_profile_def)
  show "3 \<le> length (TrimSpace ''hunter2secret'')" by code_simp
qed

theorem returned_credentials_redacted_witness:
  "\<exists>red. rp_redact (snd (repo_List example_env zero_query (snd (repo_run example_env example_ops
     (SetRedactor (Some NewRedactor) (NewSQLiteServerRepository [] Map.empty)))))) = Some red \<and>
     covered red ''hunter2secret''"
proof -
  let ?st = "SetRedactor (Some NewRedactor) (NewSQLiteServerRepository [] Map.empty) :: (row list, string \<rightharpoonup> string) Repo"
  obtain rs st r st' where run: "repo_run example_env example_ops ?st = (rs, st)"
    and l: "repo_List example_env zero_query st = (r, st')" by fastforce
  have rep: "repo_repr mem_ops (\<lambda>d. d) Map.empty ?st"
    by (simp add: SetRedactor_def NewSQLiteServerRepository_def repo_repr_def table_ok_def stored_as_def find_row_def)
  have "rs = fst (spec_run example_ops Map.empty)"
    using repo.run_refines [OF example_reliable rep, of example_ops "\<lambda>xs. xs"] run example_ops_ok
    by (simp add: list_all_iff example_env_def)
  then have "ResProfile (stored_form example_profile) \<in> set rs" by (simp add: example_run)
  then show ?thesis
    using returned_credentials_redacted [OF _ run l _ example_password] run l by (simp add: example_env_def)
qed

lemma list_loop_ok: "list_loop env rerr rows out st = ((ps, None), st') \<Longrightarrow> rerr = None"
  by (induction rows arbitrary: out st) (auto split: sum.splits)


lemma example_spec: "snd (spec_run example_ops Map.empty) = [''a'' \<mapsto> example_profile]"
proof -
  have "created [] 0 0 example_profile = example_profile" "sp_ID example_profile = ''a''"
    by (simp_all add: created_def example_profile_def zero_profile_def)
  then show ?thesis by (simp add: example_ops_def example_valid)
qed

definition example_query :: Query where
  "example_query = zero_query\<lparr>qu_Search := '' EXAMPLE '', qu_Protocol := ''trojan''\<rparr>"

lemma example_query_matches: "query_matches example_query example_profile" "plain_query example_query"
  by code_simp+


end
