(* ===== verification/Spec2Isabelle.thy ===== *)
theory Spec2Isabelle
  imports Android_Bridge Helper_Runner Store_Schema Runtime_Services Repository_Safety
begin

text \<open>
  OmniProxy: a verification library of the Go core.

  The program is a proxy and VPN client. A user interface (\<open>src/app\<close>) talks over a small bridge to a
  Go core (\<open>src/core\<close>), which keeps the user's servers and settings, drives one connection at a time
  and hands the tunnel itself to an engine built on the sing-box library (\<open>src/engine\<close>). This library
  models the Go code; the root theory states what the composed core guarantees.

  \<^bold>\<open>The parts and how they interact.\<close> A transport calls \<open>Dispatch\<close> with a method name and JSON text.
  The dispatcher (\<open>core/api\<close>) decodes the request, calls the handler and encodes a response. The
  handler is the facade (\<open>core/core.go\<close>), which owns the configuration engine (\<open>core/config\<close>), the
  server manager and its SQLite repository (\<open>core/server\<close>, \<open>core/store\<close>), whose credentials live in
  a secret store (\<open>core/secret\<close>), the logger with its redactor (\<open>core/log\<close>), the VPN service
  (\<open>core/vpn\<close>) with the tunnel manager under it (\<open>core/tunnel\<close>), and the event bus. The tunnel manager
  starts the engine in the process, or, on Linux, in a privileged helper process over a socket
  (\<open>core/tunnel/helperhost\<close>, \<open>helper_client.go\<close>).

  \<^bold>\<open>Theories.\<close>
  \<^item> \<open>Omni_Prelude\<close>: Go errors with the sentinel \<open>errors.Is\<close> finds, result types, shared lemmas.
    \<open>Go_Text\<close>, \<open>Go_Base64\<close>, \<open>Go_JSON\<close>, \<open>Go_Time\<close>, \<open>Go_URL\<close>: what the code uses of Go's
    \<open>strings\<close>, \<open>strconv\<close>, \<open>encoding/base64\<close>, \<open>encoding/json\<close>, \<open>time\<close>, \<open>net/url\<close>, on byte strings,
    with the round trips of their printers and parsers.
  \<^item> \<open>Omni_Models\<close>: \<open>core/models\<close>; profiles with \<open>Validate\<close>, sessions, settings with \<open>Normalize\<close>,
    levels, identifiers.
  \<^item> \<open>VPN_Service\<close>: \<open>core/vpn/service.go\<close> as a step function on a record of the service, its runs
    (one program counter per run loop) and its callers; every interleaving of loops, callers, failing
    starts, losses and timeouts is a sequence of events. \<open>VPN_Invariants\<close>: invariants of all of them.
    \<open>VPN_Orderly\<close>: serialised callers without timeouts refine the connection state machine; retries,
    backoff, and the trace in which a timed-out disconnect leaves the tunnel up.
  \<^item> \<open>Engine_Options\<close>: profiles to engine options to sing-box options (\<open>core/tunnel/options.go\<close>,
    \<open>engine/config.go\<close>). \<open>Tunnel\<close>: engine, runner and manager, with the runner interface as a locale.
    \<open>VPN_Tunnel\<close>: the VPN service and the manager run jointly, the outcome of the manager's calls
    being what the service sees. \<open>Helper\<close>: the privileged helper, the wire messages and the control
    client with its read loop and waiting requests. \<open>Helper_Runner\<close>: the Linux runner over that
    client, which starts the helper on demand.
  \<^item> \<open>Event_Ring\<close>, \<open>Logging\<close>: the event ring, the event bus, the redactor, the log ring, the logger.
    \<open>Secrets\<close>: secret stores, the data key, sealing. \<open>Config_Engine\<close>: the file store with each of its
    system calls and the settings engine. \<open>Legacy_Import\<close>: profiles in configuration files of older
    builds.
  \<^item> \<open>Server_Rows\<close>, \<open>Server_Repository\<close>, \<open>Repository_Safety\<close>, \<open>Server_Manager\<close>: the table rows, the
    repository over an SQL engine and a secret store given by contracts (locales \<open>sql_table\<close>,
    \<open>secret_vault\<close>), its refinement of a map of profiles, and the manager over it.
    \<open>Share_Links\<close>, \<open>Link_Roundtrip\<close>, \<open>Profile_JSON\<close>, \<open>Server_Exchange\<close>: share links, the JSON form of
    profiles, import and export.
  \<^item> \<open>Bridge_API\<close>: the contract's requests, responses and error codes with their JSON forms and the
    dispatcher over a record of handler operations. \<open>Facade\<close>: \<open>core/core.go\<close> over all components.
    \<open>Facade_Safety\<close>, \<open>Facade_Requests\<close>: what every request keeps, and what requests do.
    \<open>Core_Example\<close>: one concrete run of the whole core.
  \<^item> \<open>Android_Platform\<close>: the platform interface the engine hands to sing-box on Android. \<open>Transports\<close>:
    the C entry points and the polled event ring (\<open>core/glue\<close>). \<open>Android_Bridge\<close>: the Android entry
    points (\<open>core/mobile\<close>) with the runners and platforms they create.
  \<^item> \<open>Store_Schema\<close>: opening the database and its migrations over an SQL connection (locale
    \<open>schema_db\<close>). \<open>Runtime_Services\<close>: the protocol registry, the way of an engine message into the log,
    the logger's printf-style methods and console lines, the latency tester.

  \<^bold>\<open>How code is modelled.\<close> Structs are records, nil pointers are \<open>None\<close>, errors are values, a panic
  or a call that does not return is \<open>None\<close> at the outside. A critical section of a mutex is one step.
  Go map iteration order, clocks, random bytes and fresh identifiers are arguments. The libraries
  (SQL engine, keyring, AES-GCM, sing-box, the operating system's calls) are parameters with the laws
  the code relies on; each law is met by a concrete instance. Machine integers are words where they
  can wrap; \<open>int\<close> fields of Go are unbounded integers. No function of the development uses fuel: loops
  are structural recursions or have a termination proof, and run loops advance step by step.

  \<^bold>\<open>What the theorems show.\<close> For the whole core (this theory): the engine runs exactly when the VPN
  service holds the tunnel up, with the profile of the active run; the server in use cannot be
  changed; a subscriber gets exactly its events; servers and settings sent over the bridge are stored
  and served; and what a start does not apply of the stored settings. For the components: invariants
  and the state machine of the VPN service, immutability of ended sessions, retry and backoff bounds,
  routing in VPN mode, redaction at the single choke point of the log, refinement of a map by the
  repository and the manager, round trips of links, exports, settings and sealed files, atomicity of
  file writes, and correlation of replies in the helper's control connection.

  For the edges of the program: what the user interface polls is what the core sent, in order; the life
  cycle of the C entry points; where a TUN descriptor and the host's networks arrive; that every
  configuration the engine builds can be run by the protocols it registers; that proxy and VPN mode
  are kept apart by the Linux runner; and that a schema version is applied once, whole or not at all.

  \<^bold>\<open>Not modelled.\<close> The user interface and the platform code around it (\<open>src/app\<close>: Dart, Kotlin, C++).
  The libraries themselves (SQLite, sing-box, the keyring, \<open>encoding/json\<close> beyond what \<open>Go_JSON\<close> has,
  AES-GCM, the operating system) are parameters, not definitions. Of the Go code: the log lines the
  VPN service, the engine and the configuration engine write are not part of the facade's state, the
  facade's \<open>Close\<close> leaves out closing the database and the helper runner, a context's cancellation in the
  latency tester is one of the errors of its dial, and the constant answers of platform hooks that are
  never used (WIFI state, certificates, notifications) have no definition of their own.
\<close>





text \<open>C2: The server in use cannot be changed. In every state such a run reaches in which the service
  reports Connecting, Connected or Reconnecting there is a reported session, and requests to update
  or to delete the server of that session are answered with the code \<open>connected\<close> and change
  nothing.\<close>

theorem connected_server_protected:
  assumes "fa_New env platform dir level tester engine_New rnd1 rnd2 db ks s = Some (Inr f0)"
    and "facade_run steps f0 = Some f" "list_all (\<lambda>p. in_process lib (fst p)) steps" "live_state (s_state (fc_vpn f))"
  shows "\<exists>sess. session_of (fc_vpn f) = Some sess \<and>
    (\<forall>req p. decode server_field \<lparr>vq_Server = None\<rparr> req = Inr \<lparr>vq_Server = Some p\<rparr> \<longrightarrow> sp_ID p = vs_ServerID sess \<longrightarrow>
       dispatch (facade_dispatcher e) ''updateServer'' req f =
         Some (error_response \<lparr>er_Code = ErrCodeConnected, er_Message = err_text errConnected\<rparr>, f)) \<and>
    (\<forall>req. decode id_field \<lparr>iq_ID = ''''\<rparr> req = Inr \<lparr>iq_ID = vs_ServerID sess\<rparr> \<longrightarrow>
       dispatch (facade_dispatcher e) ''deleteServer'' req f =
         Some (error_response \<lparr>er_Code = ErrCodeConnected, er_Message = err_text errConnected\<rparr>, f))"
proof -
  have "sound lib f" using run_sound [OF assms(2) _ assms(3)] new_wired [OF assms(1)] wire_sound by metis
  then have "svc_inv (fc_vpn f)" using orderly_reachable_inv by (simp add: sound_def)
  then obtain sess where sess: "session_of (fc_vpn f) = Some sess" "RunningTo (vs_ServerID sess) (fc_vpn f)"
    using live_running [OF _ assms(4)] by blast
  have fail: "fail (facade_dispatcher e) errConnected =
      error_response \<lparr>er_Code = ErrCodeConnected, er_Message = err_text errConnected\<rparr>"
    by (simp add: fail_def facade_dispatcher_def MapError_def errConnected_def)
  have "dispatch (facade_dispatcher e) ''updateServer'' req f = Some (fail (facade_dispatcher e) errConnected, f)"
    if "decode server_field \<lparr>vq_Server = None\<rparr> req = Inr \<lparr>vq_Server = Some p\<rparr>" "sp_ID p = vs_ServerID sess" for req p
    using that sess(2) by (simp add: dispatch_def with_server_def with_request_def answer_def result_def fa_UpdateServer_def
      facade_dispatcher_def facade_handler_def)
  moreover have "dispatch (facade_dispatcher e) ''deleteServer'' req f = Some (fail (facade_dispatcher e) errConnected, f)"
    if "decode id_field \<lparr>iq_ID = ''''\<rparr> req = Inr \<lparr>iq_ID = vs_ServerID sess\<rparr>" for req
    using that sess(2) by (simp add: dispatch_def with_request_def answer_def result_nil_def fa_DeleteServer_def
      facade_dispatcher_def facade_handler_def)
  ultimately show ?thesis unfolding fail using sess(1) by blast
qed

theorem connected_server_protected_witness:
  "\<exists>f0 f. demo_new = Some (Inr f0) \<and> facade_run (demo_before @ demo_steps) f0 = Some f \<and>
     dispatch (facade_dispatcher (demo_fenv [])) ''deleteServer'' (json_print (JObject [(''id'', JString ''a'')])) f =
       Some (error_response \<lparr>er_Code = ErrCodeConnected, er_Message = err_text errConnected\<rparr>, f)"
proof -
  obtain f0 f1 f where r: "demo_new = Some (Inr f0)" "facade_run demo_before f0 = Some f1" "facade_run demo_steps f1 = Some f"
    "s_state (fc_vpn f) = StateConnected" "map_option vs_ServerID (session_of (fc_vpn f)) = Some ''a''"
    using demo_run by (elim exE conjE)
  have run: "facade_run (demo_before @ demo_steps) f0 = Some f" using r(2,3) by (simp add: facade_run_append)
  have l: "live_state (s_state (fc_vpn f))" using r(4) by (simp add: live_state_def)
  have "valid_utf8 ''a''" by (simp add: ascii_valid_utf8)
  then have "decode id_field \<lparr>iq_ID = ''''\<rparr> (json_print (JObject [(''id'', JString ''a'')])) = Inr \<lparr>iq_ID = ''a''\<rparr>"
    by (rule decode_id)
  with connected_server_protected [OF r(1) [unfolded demo_new_def] run demo_in_process l, of "demo_fenv []"] r(1,5) run
  show ?thesis by auto
qed

text \<open>C4: What was added is served. Over stores that keep their contracts and do not fail, a valid
  profile sent as the JSON text of an \<open>addServer\<close> request is answered with its identifier (its own
  or a fresh one) and changes exactly that entry of the profiles; a \<open>getServer\<close> request with that
  identifier is then answered with the profile as stored, credentials and every other field
  included.\<close>

theorem added_server_is_served:
  assumes "sql_table (re_sql (fe_repo env)) tbl" "secret_vault (re_sec (fe_repo env))"
    and "reliable (re_sql (fe_repo env)) (re_sec (fe_repo env))"
    and "repo_repr (re_sec (fe_repo env)) tbl M (sm_repo (fc_servers f))"
    and "exportable p" "storable p" "Validate p = None" "time_ok (fe_now env)"
    and "c = created (fe_random env) (fe_now env) (fe_now env) p" "fe_repo env' = fe_repo env"
  shows "\<exists>f1 f2. dispatch (facade_dispatcher env) ''addServer'' (json_print (JObject [(''server'', profile_json p)])) f =
      Some (ok_response (DataID \<lparr>ir_ID = sp_ID c\<rparr>), f1) \<and>
    repo_repr (re_sec (fe_repo env)) tbl (M(sp_ID c \<mapsto> c)) (sm_repo (fc_servers f1)) \<and>
    dispatch (facade_dispatcher env') ''getServer'' (json_print (JObject [(''id'', JString (sp_ID c))])) f1 =
      Some (ok_response (DataServer (stored_form c)), f2)"
proof -
  have r: "repository (re_sql (fe_repo env)) tbl (re_sec (fe_repo env)) (fe_repo env)"
    using assms(1,2) by (simp add: repository_def repository_axioms_def)
  let ?m = "(fc_servers f)\<lparr>sm_logged := []\<rparr>"
  obtain m' where m': "AddServer (fe_repo env) (fe_random env) (fe_now env) (fe_now env) p ?m = (Inr (sp_ID c), m')"
    "repo_repr (re_sec (fe_repo env)) tbl (M(sp_ID c \<mapsto> c)) (sm_repo m')"
    using repository.add_manager [OF r assms(3), of M ?m p "fe_now env" "fe_random env"] assms(4,6-9) by auto
  obtain f1 where f1: "with_servers (fe_now env) (AddServer (fe_repo env) (fe_random env) (fe_now env) (fe_now env) p) f =
      (Inr (sp_ID c), f1)" "fc_servers f1 = m'"
    using with_servers_sel(6,7) [of "fe_now env" "AddServer (fe_repo env) (fe_random env) (fe_now env) (fe_now env) p" f] m'(1)
    by (metis fst_conv snd_conv prod.collapse)
  have add: "dispatch (facade_dispatcher env) ''addServer'' (json_print (JObject [(''server'', profile_json p)])) f =
      Some (ok_response (DataID \<lparr>ir_ID = sp_ID c\<rparr>), f1)"
    using f1(1) decode_server [OF assms(5)]
    by (simp add: dispatch_def with_server_def with_request_def answer_def result_def fa_AddServer_def
      facade_dispatcher_def facade_handler_def)
  let ?m1 = "(fc_servers f1)\<lparr>sm_logged := []\<rparr>"
  obtain m2 where m2: "GetServer (fe_repo env) (sp_ID c) ?m1 = (Inr (stored_form c), m2)"
    using repository.get_manager [OF r assms(3), of "M(sp_ID c \<mapsto> c)" ?m1 "sp_ID c" c] m'(2) f1(2) by auto
  obtain f2 where "with_servers (fe_now env') (GetServer (fe_repo env') (sp_ID c)) f1 = (Inr (stored_form c), f2)"
    using with_servers_sel(6) [of "fe_now env'" "GetServer (fe_repo env') (sp_ID c)" f1] m2 assms(10)
    by (metis fst_conv prod.collapse)
  then have "dispatch (facade_dispatcher env') ''getServer'' (json_print (JObject [(''id'', JString (sp_ID c))])) f1 =
      Some (ok_response (DataServer (stored_form c)), f2)"
    using decode_id [OF created_id_utf8 [OF assms(5)]] assms(9)
    by (simp add: dispatch_def with_request_def answer_def result_def fa_GetServer_def facade_dispatcher_def facade_handler_def)
  then show ?thesis using add m'(2) f1(2) by blast
qed

theorem added_server_is_served_witness:
  "\<exists>f0 f1 f2. demo_new = Some (Inr f0) \<and>
     dispatch (facade_dispatcher (demo_fenv [])) ''addServer'' (json_print (JObject [(''server'', profile_json demo_export)])) f0 =
       Some (ok_response (DataID \<lparr>ir_ID = ''a''\<rparr>), f1) \<and>
     dispatch (facade_dispatcher (demo_fenv [])) ''getServer'' (json_print (JObject [(''id'', JString ''a'')])) f1 =
       Some (ok_response (DataServer (stored_form demo_export)), f2)"
proof -
  obtain f0 where f0: "demo_new = Some (Inr f0)"
    "repo_repr mem_ops (\<lambda>d. d) [''a'' \<mapsto> legacy_profile] (sm_repo (fc_servers f0))"
    using demo_opened by (elim exE conjE)
  have e: "re_sql (fe_repo (demo_fenv [])) = table_ops" "re_sec (fe_repo (demo_fenv [])) = mem_ops" "fe_now (demo_fenv []) = 0"
    "fe_random (demo_fenv []) = []" by (simp_all add: demo_fenv_def)
  have "Validate demo_export = None" by code_simp
  moreover have "storable demo_export"
    by (simp add: demo_export_def zero_profile_def zero_TLS_def storable_def time_ok_def days_before_year_def)
  moreover have c: "created [] 0 0 demo_export = demo_export" "sp_ID demo_export = ''a''"
    by (simp_all add: created_def demo_export_def zero_profile_def)
  moreover have "reliable table_ops mem_ops" by (simp add: reliable_def table_ops_def mem_ops_def mem_Set_def)
  moreover have "time_ok 0" by (simp add: time_ok_def days_before_year_def)
  ultimately have "\<exists>f1 f2. dispatch (facade_dispatcher (demo_fenv [])) ''addServer'' (json_print (JObject [(''server'', profile_json demo_export)])) f0 =
       Some (ok_response (DataID \<lparr>ir_ID = ''a''\<rparr>), f1) \<and>
     dispatch (facade_dispatcher (demo_fenv [])) ''getServer'' (json_print (JObject [(''id'', JString ''a'')])) f1 =
       Some (ok_response (DataServer (stored_form demo_export)), f2)"
    using added_server_is_served [of "demo_fenv []" "\<lambda>d. d" "[''a'' \<mapsto> legacy_profile]" f0 demo_export demo_export "demo_fenv []"]
      tab.sql_table_axioms memv.secret_vault_axioms f0(2) demo_exportable unfolding e by auto
  then show ?thesis using f0(1) by blast
qed

text \<open>C5: Settings take effect and survive a restart. When an \<open>updateSettings\<close> request with valid
  settings succeeds over a store that keeps its contract and a cipher that opens what it sealed, the
  response and every later \<open>getSettings\<close> carry these settings, the logger filters by their level,
  every tunnel started from then on is configured with their log level and IPv6 mode, the running
  tunnel, the profiles and the reported connection are untouched, and loading the store again gives
  these settings.\<close>

theorem settings_take_effect:
  assumes "config_store (fe_store env)" "settings_ok n" "length (fc_key f) = 32"
    and "\<And>k nc p. length k = 32 \<Longrightarrow> length nc = NonceSize \<Longrightarrow>
      gcm_Open (en_aead (fe_crypto env)) k nc (gcm_Seal (en_aead (fe_crypto env)) k nc p) = Some p"
    and "\<And>nc. en_nonce (fe_crypto env) = Inr nc \<Longrightarrow> length nc = NonceSize"
    and "dispatch (facade_dispatcher env) ''updateSettings'' (json_print (JObject [(''settings'', settings_json n)])) f = Some (r, f')"
    and "rp_OK r"
  shows "r = ok_response (DataSettings \<lparr>tr_Settings = n\<rparr>) \<and>
    dispatch (facade_dispatcher env') ''getSettings'' req f' = Some (ok_response (DataSettings \<lparr>tr_Settings = n\<rparr>), f') \<and>
    lg_level (fc_logger f') = as_LogLevel n \<and>
    (\<forall>p mode. manager_options p mode (fc_tunnel f') =
       BuildEngineOptions p mode (as_IPv6Mode n) (modelToEngineLevel (as_LogLevel n)) (mg_cacheFile (fc_tunnel f))) \<and>
    mg_runner (fc_tunnel f') = mg_runner (fc_tunnel f) \<and> fc_servers f' = fc_servers f \<and> fc_vpn f' = fc_vpn f \<and>
    load (fe_store env) ((fe_crypto env)\<lparr>en_nonce := nc'\<rparr>) (fc_key f) (fc_store f') =
      (Inr \<lparr>cd_Version = 1, cd_Settings = n\<rparr>, fc_store f')"
proof -
  have lv: "level_Valid (as_LogLevel n)" "ipv6_Valid (as_IPv6Mode n)" using assms(2) by (auto simp: settings_ok_def)
  have d: "dispatch (facade_dispatcher env) ''updateSettings'' (json_print (JObject [(''settings'', settings_json n)])) f =
      answer (result (facade_dispatcher env) DataSettings) (fa_UpdateSettings env \<lparr>sq_Settings = n\<rparr> f)"
    using decode_settings [OF assms(2)] by (simp add: dispatch_def with_request_def facade_dispatcher_def facade_handler_def)
  let ?c = "(fc_config f)\<lparr>cd_Settings := n\<rparr>"
  obtain st where st: "saveLocked (fe_store env) (fe_crypto env) (fc_key f) ?c (fc_store f) = (None, st)"
  proof (cases "saveLocked (fe_store env) (fe_crypto env) (fc_key f) ?c (fc_store f)")
    case (Pair e st')
    show thesis
    proof (cases e)
      case (Some x)
      then have "r = fail (facade_dispatcher env) x"
        using assms(6) d Pair Normalize_id [OF assms(2)]
        by (simp add: fa_UpdateSettings_def UpdateSettings_def Let_def answer_def result_def)
      then show thesis
        using assms(7) by (simp add: fail_def facade_dispatcher_def MapError_def error_response_def)
    qed (use Pair that in simp)
  qed
  then have u: "fa_UpdateSettings env \<lparr>sq_Settings = n\<rparr> f = Some (Inr \<lparr>tr_Settings = n\<rparr>, f')"
    "r = ok_response (DataSettings \<lparr>tr_Settings = n\<rparr>)"
    using assms(6) d Normalize_id [OF assms(2)]
    by (auto simp: fa_UpdateSettings_def UpdateSettings_def Let_def answer_def result_def)
  let ?f1 = "log_call (fe_now env) (LevelInfo, ''config'', ''settings updated'') (f\<lparr>fc_config := ?c, fc_store := st\<rparr>)"
  have f': "f' = ?f1\<lparr>fc_logger := SetLevel (as_LogLevel n) (fc_logger ?f1),
      fc_tunnel := SetIPv6Mode (as_IPv6Mode n) (SetLogLevel (as_LogLevel n) (fc_tunnel ?f1))\<rparr>"
    using u(1) st Normalize_id [OF assms(2)] by (simp add: fa_UpdateSettings_def UpdateSettings_def Let_def)
  have "load (fe_store env) ((fe_crypto env)\<lparr>en_nonce := nc'\<rparr>) (fc_key f) st = (Inr \<lparr>cd_Version = 1, cd_Settings = n\<rparr>, st)"
    using config_store.saveLocked_load [OF assms(1) st assms(4,3,5)] Normalize_id [OF assms(2)] by simp
  then show ?thesis
    using u(2) lv unfolding f'
    by (simp add: dispatch_def answer_def result_def ok_response_def fa_GetSettings_def facade_dispatcher_def facade_handler_def
      SetLevel_def normalizeLevel_def manager_options_def SetIPv6Mode_def SetLogLevel_def)
qed

theorem settings_take_effect_witness:
  "\<exists>f0 f. demo_new = Some (Inr f0) \<and>
     dispatch (facade_dispatcher (demo_fenv [])) ''updateSettings''
       (json_print (JObject [(''settings'', settings_json (DefaultAppSettings\<lparr>as_LogLevel := ''debug''\<rparr>))])) f0 =
       Some (ok_response (DataSettings \<lparr>tr_Settings = DefaultAppSettings\<lparr>as_LogLevel := ''debug''\<rparr>\<rparr>), f) \<and>
     lg_level (fc_logger f) = ''debug''"
proof -
  let ?n = "DefaultAppSettings\<lparr>as_LogLevel := ''debug''\<rparr>"
  obtain f0 where f0: "demo_new = Some (Inr f0)" "fc_key f0 = legacy_key" using demo_opened by (elim exE conjE)
  have n: "settings_ok ?n" by (simp add: settings_ok_def DefaultAppSettings_def mode_Valid_def level_Valid_def ipv6_Valid_def)
  have k: "length (fc_key f0) = 32" using f0(2) by simp
  have e: "fe_store (demo_fenv []) = blob_ops" "fe_crypto (demo_fenv []) = Config_Engine.demo_env" by (simp_all add: demo_fenv_def)
  obtain r f where r: "dispatch (facade_dispatcher (demo_fenv [])) ''updateSettings'' (json_print (JObject [(''settings'', settings_json ?n)])) f0 =
      Some (r, f)" "rp_OK r"
    using demo_settings [OF n k] by blast
  have "config_store (fe_store (demo_fenv []))" unfolding e by (rule blob.config_store_axioms)
  from settings_take_effect [OF this n k demo_env_ok(2) [folded e] demo_env_ok(1) [folded e] r, of "demo_fenv []" "''''" "Inl errCorrupt"]
  show ?thesis using f0(1) r(1) by auto
qed

text \<open>C6: A start does not apply the stored modes. Whatever settings the opened configuration holds, the
  tunnels a freshly opened core starts are configured with the default IPv6 mode, which keeps IPv6
  usable, and with the log level the transport passed: a stored \<open>disable_ipv6\<close> has no effect until
  settings are saved again.\<close>

theorem start_ignores_stored_modes:
  assumes "fa_New env platform dir level tester rn rnd1 rnd2 db ks s = Some (Inr f)"
  shows "manager_options p mode (fc_tunnel f) =
    BuildEngineOptions p mode IPv6ModePreferIPv4 (modelToEngineLevel level) (dir @ ''/cache.db'')"
proof -
  obtain lg key cfg s2 repo where "f = wire env platform dir level tester rn lg key cfg s2 repo"
    using new_wired [OF assms] by blast
  then show ?thesis
    by (simp add: wire_def manager_options_def SetLogLevel_def SetCacheFilePath_def NewManager_def)
qed

theorem start_ignores_stored_modes_witness:
  "\<exists>f. demo_new = Some (Inr f) \<and> as_IPv6Mode (cd_Settings (fc_config f)) = ''disable_ipv6'' \<and>
     manager_options legacy_profile ''vpn'' (fc_tunnel f) =
       BuildEngineOptions legacy_profile ''vpn'' IPv6ModePreferIPv4 (modelToEngineLevel ''info'') ''/d/cache.db''"
proof -
  obtain f where f: "demo_new = Some (Inr f)" "as_IPv6Mode (cd_Settings (fc_config f)) = ''disable_ipv6''"
    using demo_opened by (elim exE conjE)
  with start_ignores_stored_modes [OF f(1) [unfolded demo_new_def]] show ?thesis by auto
qed

end
